(* ===== verification/Prelude.thy ===== *)
theory Prelude
  imports Main
begin

text \<open>
  Shared vocabulary of the development: the lemma collections, Go's error values, the
  functions of Go's packages \<open>strings\<close>, \<open>strconv\<close> and \<open>bytes\<close> that the program calls, and
  the generic lemmas on them that several components use.

  A Go string is a sequence of bytes, which is what \<open>string\<close> (a list of \<open>char\<close>) is.
  \<open>error\<close> is nil or a value: \<open>gerror option\<close> where the code returns it beside a result.
  \<open>fmt.Errorf\<close> without the wrapping verb is \<open>Errorf\<close>; with \<open>%w\<close> at its end it is \<open>Wrap\<close>
  of the text before the verb and the wrapped error, so \<open>errors.As\<close> and \<open>errors.Is\<close> can
  look through it as Go does.
\<close>

named_theorems go_simps "definitions of Go library functions, for evaluation"
named_theorems pool_defs "the atomic regions of the pool, for case analysis"
named_theorems call_defs "the backend programs over the container API, for case analysis"

section \<open>Errors\<close>

datatype gerror =
    Errorf string
  | Wrap string gerror
  | CodeExitError int string
  | DeadlineExceeded
  | Canceled
  | EOF

text \<open>The \<open>Error()\<close> method.\<close>

fun errMsg :: "gerror \<Rightarrow> string" where
  "errMsg (Errorf s) = s"
| "errMsg (Wrap s e) = s @ errMsg e"
| "errMsg (CodeExitError c s) = s"
| "errMsg DeadlineExceeded = ''context deadline exceeded''"
| "errMsg Canceled = ''context canceled''"
| "errMsg EOF = ''EOF''"

text \<open>\<open>errors.As(err, &codeErr)\<close> for client-go's \<open>CodeExitError\<close>: the exit code found.\<close>

fun asCodeExit :: "gerror \<Rightarrow> int option" where
  "asCodeExit (CodeExitError c s) = Some c"
| "asCodeExit (Wrap s e) = asCodeExit e"
| "asCodeExit _ = None"

text \<open>\<open>errors.Is(err, target)\<close> for a sentinel \<open>target\<close>.\<close>

fun errorsIs :: "gerror \<Rightarrow> gerror \<Rightarrow> bool" where
  "errorsIs (Wrap s e) t = (Wrap s e = t \<or> errorsIs e t)"
| "errorsIs e t = (e = t)"

section \<open>Strings\<close>

definition hasPrefix :: "string \<Rightarrow> string \<Rightarrow> bool" where [go_simps]:
  "hasPrefix s p \<longleftrightarrow> take (length p) s = p"

definition trimPrefix :: "string \<Rightarrow> string \<Rightarrow> string" where [go_simps]:
  "trimPrefix s p = (if hasPrefix s p then drop (length p) s else s)"

fun contains :: "string \<Rightarrow> string \<Rightarrow> bool" where
  "contains [] t = (t = [])"
| "contains (c # s) t = (hasPrefix (c # s) t \<or> contains s t)"

text \<open>\<open>bytes.IndexByte\<close>: -1 when the byte does not occur.\<close>

fun indexByte :: "string \<Rightarrow> char \<Rightarrow> int" where
  "indexByte [] c = -1"
| "indexByte (x # s) c =
     (if x = c then 0 else let k = indexByte s c in if k < 0 then -1 else k + 1)"

text \<open>\<open>strings.SplitN(s, c, n)\<close> for a one-byte separator: at most \<open>n\<close> pieces.\<close>

fun splitN :: "string \<Rightarrow> char \<Rightarrow> nat \<Rightarrow> string list" where
  "splitN s c 0 = []"
| "splitN s c (Suc 0) = [s]"
| "splitN s c (Suc (Suc n)) =
     (if c \<in> set s
      then takeWhile (\<lambda>x. x \<noteq> c) s # splitN (tl (dropWhile (\<lambda>x. x \<noteq> c) s)) c (Suc n)
      else [s])"

text \<open>\<open>strings.TrimRight\<close> with a one-byte cutset.\<close>

definition trimRight :: "string \<Rightarrow> char \<Rightarrow> string" where [go_simps]:
  "trimRight s c = rev (dropWhile (\<lambda>x. x = c) (rev s))"

text \<open>
  \<open>strings.TrimSpace\<close>: the code points with Unicode's White Space property, each as its bytes,
  are taken off both ends.
\<close>

definition spaceRunes :: "string list" where
  "spaceRunes =
     map (\<lambda>c. [c]) [CHR 0x09, CHR 0x0A, CHR 0x0B, CHR 0x0C, CHR 0x0D, CHR '' '']
     @ [[CHR 0xC2, CHR 0x85], [CHR 0xC2, CHR 0xA0], [CHR 0xE1, CHR 0x9A, CHR 0x80],
        [CHR 0xE2, CHR 0x80, CHR 0xA8], [CHR 0xE2, CHR 0x80, CHR 0xA9], [CHR 0xE2, CHR 0x80, CHR 0xAF],
        [CHR 0xE2, CHR 0x81, CHR 0x9F], [CHR 0xE3, CHR 0x80, CHR 0x80]]
     @ map (\<lambda>c. [CHR 0xE2, CHR 0x80, c])
         [CHR 0x80, CHR 0x81, CHR 0x82, CHR 0x83, CHR 0x84, CHR 0x85, CHR 0x86, CHR 0x87, CHR 0x88, CHR 0x89, CHR 0x8A]"

function trimFront :: "string list \<Rightarrow> string \<Rightarrow> string" where
  "trimFront rs s =
     (if s = [] then []
      else case find (hasPrefix s) rs of
          None \<Rightarrow> s
        | Some r \<Rightarrow> trimFront rs (drop (max 1 (length r)) s))"
  by pat_completeness auto
termination
  by (relation "measure (\<lambda>(rs, s). length s)") auto

declare trimFront.simps [simp del]

definition trimSpace :: "string \<Rightarrow> string" where [go_simps]:
  "trimSpace s = rev (trimFront (map rev spaceRunes) (rev (trimFront spaceRunes s)))"

text \<open>\<open>strings.ToLower\<close> on ASCII letters; other bytes are kept.\<close>

definition lowerChar :: "char \<Rightarrow> char" where [go_simps]:
  "lowerChar c = (let n = of_char c :: nat in if 65 \<le> n \<and> n \<le> 90 then char_of (n + 32) else c)"

definition toLower :: "string \<Rightarrow> string" where [go_simps]:
  "toLower s = map lowerChar s"

text \<open>\<open>strings.Join\<close>.\<close>

fun joinWith :: "string \<Rightarrow> string list \<Rightarrow> string" where
  "joinWith sep [] = []"
| "joinWith sep [s] = s"
| "joinWith sep (s # t # ss) = s @ sep @ joinWith sep (t # ss)"

section \<open>Decimal numbers\<close>

text \<open>
  Numbers are \<open>int\<close>, whose evaluation is binary; \<open>showUint\<close> prints a number that is not
  negative.
\<close>

definition digitChar :: "int \<Rightarrow> char" where [go_simps]:
  "digitChar n = ''0123456789'' ! nat n"

function showUint :: "int \<Rightarrow> string" where
  "showUint n = (if n < 10 then [digitChar n] else showUint (n div 10) @ [digitChar (n mod 10)])"
  by pat_completeness auto
termination
  by (relation "measure nat") auto

declare showUint.simps [simp del]

text \<open>\<open>%d\<close> of a signed integer.\<close>

definition showInt :: "int \<Rightarrow> string" where [go_simps]:
  "showInt i = (if i < 0 then ''-'' @ showUint (- i) else showUint i)"

text \<open>
  \<open>%q\<close> (\<open>strconv.Quote\<close>): double quotes around the text, \<open>"\<close> and \<open>\\<close> escaped, the control
  characters in Go's short or \<open>\x\<close> form. Bytes above 127 are kept, which is what Go prints
  for valid printable UTF-8.
\<close>

definition hexDigit :: "nat \<Rightarrow> char" where [go_simps]:
  "hexDigit n = ''0123456789abcdef'' ! n"

definition quoteChar :: "char \<Rightarrow> string" where [go_simps]:
  "quoteChar c =
     (if c = CHR 0x22 then [CHR 0x5C, CHR 0x22]
      else if c = CHR 0x5C then [CHR 0x5C, CHR 0x5C]
      else if c = CHR 0x07 then [CHR 0x5C, CHR ''a'']
      else if c = CHR 0x08 then [CHR 0x5C, CHR ''b'']
      else if c = CHR 0x0C then [CHR 0x5C, CHR ''f'']
      else if c = CHR 0x0A then [CHR 0x5C, CHR ''n'']
      else if c = CHR 0x0D then [CHR 0x5C, CHR ''r'']
      else if c = CHR 0x09 then [CHR 0x5C, CHR ''t'']
      else if c = CHR 0x0B then [CHR 0x5C, CHR ''v'']
      else let n = of_char c :: nat in
        if n < 32 \<or> n = 127 then [CHR 0x5C, CHR ''x'', hexDigit (n div 16), hexDigit (n mod 16)]
        else [c])"

definition goQuote :: "string \<Rightarrow> string" where [go_simps]:
  "goQuote s = [CHR 0x22] @ concat (map quoteChar s) @ [CHR 0x22]"

section \<open>Shared lemmas\<close>

lemma hasPrefix_append [simp]: "hasPrefix (p @ s) p"
  by (simp add: hasPrefix_def)

lemma trimPrefix_append [simp]: "trimPrefix (p @ s) p = s"
  by (simp add: trimPrefix_def)

lemma hasPrefix_iff: "hasPrefix s p \<longleftrightarrow> (\<exists>t. s = p @ t)"
  by (metis append_take_drop_id hasPrefix_append hasPrefix_def)

lemma trimFront_Nil [simp]: "trimFront rs [] = []"
  by (simp add: trimFront.simps)

lemma trimSpace_Nil [simp]: "trimSpace [] = []"
  by (simp add: trimSpace_def)

lemma trimFront_stop: "\<forall>r \<in> set rs. \<not> hasPrefix s r \<Longrightarrow> trimFront rs s = s"
  by (subst trimFront.simps) (auto simp: find_None_iff [THEN iffD2])

text \<open>A text whose bytes all start no space and end none is kept.\<close>

definition notSpace :: "char \<Rightarrow> bool" where
  "notSpace c \<longleftrightarrow> (\<forall>r \<in> set spaceRunes. c \<notin> set r)"

lemma trimSpace_id:
  assumes "\<forall>c \<in> set s. notSpace c"
  shows "trimSpace s = s"
proof -
  have r: "\<forall>r \<in> set spaceRunes. r \<noteq> []" by (auto simp: spaceRunes_def)
  have keep: "trimFront rs t = t" if t: "set t = set s" and rs: "\<forall>r \<in> set rs. \<exists>r' \<in> set spaceRunes. set r = set r'" for rs t
  proof (rule trimFront_stop, rule ballI)
    fix x assume "x \<in> set rs"
    then obtain r' where r': "r' \<in> set spaceRunes" "set x = set r'" using rs by blast
    then have "x \<noteq> []" using r by auto
    then obtain c where "c \<in> set x" by (cases x) auto
    show "\<not> hasPrefix t x"
    proof
      assume "hasPrefix t x"
      then have "c \<in> set t" using \<open>c \<in> set x\<close> by (auto simp: hasPrefix_iff)
      then show False using assms t r' \<open>c \<in> set x\<close> by (auto simp: notSpace_def)
    qed
  qed
  have "trimFront spaceRunes s = s" by (rule keep) auto
  moreover have "trimFront (map rev spaceRunes) (rev s) = rev s" by (rule keep) auto
  ultimately show ?thesis by (simp add: trimSpace_def)
qed

lemma contains_iff: "contains s t \<longleftrightarrow> (\<exists>a b. s = a @ t @ b)"
proof (induction s)
  case Nil
  then show ?case by auto
next
  case (Cons c s)
  show ?case
  proof
    assume "contains (c # s) t"
    then consider "hasPrefix (c # s) t" | "contains s t" by auto
    then show "\<exists>a b. c # s = a @ t @ b"
    proof cases
      case 1
      then show ?thesis by (auto simp: hasPrefix_iff intro: exI [of _ "[]"])
    next
      case 2
      then obtain a b where "s = a @ t @ b" using Cons.IH by blast
      then have "c # s = (c # a) @ t @ b" by simp
      then show ?thesis by blast
    qed
  next
    assume "\<exists>a b. c # s = a @ t @ b"
    then obtain a b where ab: "c # s = a @ t @ b" by blast
    show "contains (c # s) t"
    proof (cases a)
      case Nil
      with ab have "hasPrefix (c # s) t" by (auto simp: hasPrefix_iff)
      then show ?thesis by simp
    next
      case (Cons d a')
      with ab have "s = a' @ t @ b" by simp
      then show ?thesis using Cons.IH by auto
    qed
  qed
qed

lemma indexByte_ge: "-1 \<le> indexByte s c"
  by (induction s) (auto simp: Let_def)

lemma indexByte_neg_iff: "indexByte s c < 0 \<longleftrightarrow> c \<notin> set s"
  by (induction s) (auto simp: Let_def)

lemma indexByte_found: "c \<in> set s \<Longrightarrow> indexByte s c = int (length (takeWhile (\<lambda>x. x \<noteq> c) s))"
proof (induction s)
  case Nil
  then show ?case by simp
next
  case (Cons x s)
  then show ?case
    using indexByte_neg_iff [of s c] by (auto simp: Let_def)
qed

lemma takeWhile_neq_notin [simp]: "c \<notin> set (takeWhile (\<lambda>x. x \<noteq> c) s)"
  by (induction s) auto

lemma splitN_first: "0 < n \<Longrightarrow> splitN s c (Suc n) = p # ps \<Longrightarrow> c \<notin> set p"
  by (cases n) (auto split: if_splits)

lemma splitN_length: "length (splitN s c n) \<le> n"
  by (induction s c n rule: splitN.induct) auto

lemma showUint_nonempty [simp]: "showUint n \<noteq> []"
  by (subst showUint.simps) simp

text \<open>A list with one element that satisfies \<open>P\<close> is split there in one way only.\<close>

lemma unique_split:
  assumes "A @ y # B = C @ z # D" and "\<forall>x \<in> set A. \<not> P x" and "\<forall>x \<in> set B. \<not> P x" and "P y" and "P z"
  shows "A = C \<and> y = z \<and> B = D"
  using assms
proof (induction A arbitrary: C)
  case Nil
  then show ?case by (cases C) auto
next
  case (Cons a A)
  then show ?case by (cases C) auto
qed

end
