(* ===== verification/GoTime.thy ===== *)
theory GoTime
  imports Prelude
begin

text \<open>
  Go's \<open>time.Duration\<close> and \<open>time.Time\<close> as the program uses them. A duration is a count of
  nanoseconds, a time the nanoseconds since some origin; both are \<open>int\<close>: the program only
  compares and subtracts them and halves one, which cannot leave the 64-bit range for
  values inside it. \<open>durString\<close> is the \<open>String\<close> method, which \<open>%s\<close> prints.
\<close>

definition Microsecond :: int where "Microsecond = 1000"
definition Millisecond :: int where "Millisecond = 1000 * Microsecond"
definition Second :: int where "Second = 1000 * Millisecond"
definition Minute :: int where "Minute = 60 * Second"
definition Hour :: int where "Hour = 60 * Minute"

lemmas duration_units [go_simps] =
  Microsecond_def Millisecond_def Second_def Minute_def Hour_def

text \<open>Go's integer division truncates towards zero.\<close>

definition truncDiv :: "int \<Rightarrow> int \<Rightarrow> int" where [go_simps]:
  "truncDiv a b = sgn a * sgn b * (\<bar>a\<bar> div \<bar>b\<bar>)"

definition milliseconds :: "int \<Rightarrow> int" where [go_simps]:
  "milliseconds d = truncDiv d Millisecond"

text \<open>
  \<open>fmtFrac\<close>: the lowest \<open>prec\<close> decimal digits of \<open>v\<close> as a fraction without trailing zeros
  (nothing at all when they are all zero), and the rest of \<open>v\<close>.
\<close>

fun fmtFracLoop :: "nat \<Rightarrow> int \<Rightarrow> bool \<Rightarrow> string \<Rightarrow> bool \<times> string \<times> int" where
  "fmtFracLoop 0 v pr w = (pr, w, v)"
| "fmtFracLoop (Suc k) v pr w =
     (let d = v mod 10; pr' = (pr \<or> d \<noteq> 0)
      in fmtFracLoop k (v div 10) pr' (if pr' then digitChar d # w else w))"

definition fmtFrac :: "int \<Rightarrow> nat \<Rightarrow> string \<times> int" where [go_simps]:
  "fmtFrac v prec =
     (case fmtFracLoop prec v False [] of (pr, w, r) \<Rightarrow> (if pr then CHR ''.'' # w else w, r))"

definition durString :: "int \<Rightarrow> string" where [go_simps]:
  "durString d =
     (let u = \<bar>d\<bar>;
          body =
            (if u = 0 then ''0s''
             else if u < 1000 then showUint u @ ''ns''
             else if u < 1000000 then
               (case fmtFrac u 3 of (w, r) \<Rightarrow> showUint r @ w @ [CHR 0xC2, CHR 0xB5, CHR ''s''])
             else if u < 1000000000 then
               (case fmtFrac u 6 of (w, r) \<Rightarrow> showUint r @ w @ ''ms'')
             else
               (case fmtFrac u 9 of (w, s) \<Rightarrow>
                 let secs = showUint (s mod 60) @ w @ ''s''; m = s div 60
                 in if m = 0 then secs
                    else let mins = showUint (m mod 60) @ ''m'' @ secs; h = m div 60
                         in if h = 0 then mins else showUint h @ ''h'' @ mins))
      in if d < 0 then CHR ''-'' # body else body)"

lemma truncDiv_nonneg: "0 \<le> a \<Longrightarrow> 0 < b \<Longrightarrow> truncDiv a b = a div b"
  by (cases "a = 0") (simp_all add: truncDiv_def sgn_if)

end
