(* ===== verification/Sandbox.thy ===== *)
theory Sandbox
  imports GoTime "HOL-Library.Word" Complex_Main
begin

text \<open>
  The data of \<open>pkg/sandbox/sandbox.go\<close>: \<open>Opts\<close>, \<open>Result\<close> and the choice of a backend.
  \<open>MemMB\<close> is kept at its width (an \<open>int64\<close> that the backends multiply); \<open>CPUs\<close> is a
  finite \<open>float64\<close>, given by its exact rational value.
\<close>

type_synonym int64 = "64 word"

record opts =
  o_Image :: string
  o_Cmd :: "string list"
  o_Timeout :: int
  o_NetWait :: int
  o_MemMB :: int64
  o_CPUs :: rat
  o_User :: string
  o_Runtime :: string
  o_Binds :: "string list"
  o_Env :: "string list"
  o_WithStdin :: bool
  o_Backend :: string

record result =
  r_ExitCode :: int
  r_Stdout :: string
  r_Stderr :: string
  r_DurationMS :: int
  r_OOMKilled :: bool
  r_TimedOut :: bool
  r_Error :: string

text \<open>\<open>var res Result\<close>: Go's zero value.\<close>

definition zeroResult :: result where
  "zeroResult = \<lparr>r_ExitCode = 0, r_Stdout = [], r_Stderr = [], r_DurationMS = 0,
     r_OOMKilled = False, r_TimedOut = False, r_Error = []\<rparr>"

text \<open>What a run returns: \<open>(Result, error)\<close>.\<close>

type_synonym outcome = "result \<times> gerror option"

datatype backend = DockerBackend | K8sBackend

definition newBackend :: "opts \<Rightarrow> gerror + backend" where
  "newBackend o' =
     (if o_Backend o' \<in> {'''', ''auto'', ''docker''} then Inr DockerBackend
      else if o_Backend o' = ''k8s'' then Inr K8sBackend
      else Inl (Errorf (''unknown backend '' @ goQuote (o_Backend o'))))"

text \<open>
  \<open>Run\<close>: select a backend, then run on it. The backends are modelled in their own theories, so
  they are arguments here; one that never returns gives \<open>None\<close>.
\<close>

definition sandboxRun :: "(opts \<Rightarrow> 'w \<Rightarrow> (outcome \<times> 'w) option) \<Rightarrow> (opts \<Rightarrow> 'w \<Rightarrow> (outcome \<times> 'w) option)
    \<Rightarrow> opts \<Rightarrow> 'w \<Rightarrow> (outcome \<times> 'w) option" where
  "sandboxRun dockerRun k8sRun o' w =
     (case newBackend o' of
        Inl e \<Rightarrow> Some ((zeroResult, Some e), w)
      | Inr DockerBackend \<Rightarrow> dockerRun o' w
      | Inr K8sBackend \<Rightarrow> k8sRun o' w)"

lemma newBackend_cases:
  "newBackend o' = Inr DockerBackend \<longleftrightarrow> o_Backend o' \<in> {'''', ''auto'', ''docker''}"
  "newBackend o' = Inr K8sBackend \<longleftrightarrow> o_Backend o' = ''k8s''"
  "(\<exists>e. newBackend o' = Inl e) \<longleftrightarrow> o_Backend o' \<notin> {'''', ''auto'', ''docker'', ''k8s''}"
  by (auto simp: newBackend_def)

text \<open>Options for concrete runs.\<close>

definition startOpts :: opts where
  "startOpts = \<lparr>o_Image = ''alpine'', o_Cmd = [], o_Timeout = 30 * Second, o_NetWait = 0,
     o_MemMB = 128, o_CPUs = 1, o_User = ''65534:65534'', o_Runtime = [], o_Binds = [],
     o_Env = [], o_WithStdin = False, o_Backend = ''docker''\<rparr>"

end
