(* ===== verification/Pool.thy ===== *)
theory Pool
  imports Sandbox
begin

text \<open>
  The warm pool of \<open>pkg/sandbox/pool.go\<close>: its configuration, its state, and every operation
  in the atomic regions the code divides it into (what happens under one hold of \<open>p.mu\<close>, one
  channel operation, one call of the backend). This theory composes the regions for a caller
  that runs alone; \<open>Pool_Conc\<close> interleaves them.

  A holder is a Go pointer: a number that indexes a heap. \<open>h_impl\<close> is the interface value in
  the holder, \<open>None\<close> while it is nil, otherwise the number of the backend instance, so that
  the model can say which instances were made and which were closed.
\<close>

section \<open>State\<close>

type_synonym hid = nat
type_synonym iid = nat

record holder =
  h_mu :: bool
  h_impl :: "iid option"
  h_dead :: "gerror option"
  h_lastUsed :: int

record pool_config =
  c_Min :: int
  c_Max :: int
  c_IdleTimeout :: int

text \<open>
  The struct \<open>Pool\<close>. \<open>p_all\<close> is the key set of the map \<open>all\<close>, \<open>p_idle\<close> the content of the
  buffered channel \<open>idle\<close> (its head is received next), the last two say whether the channels
  \<open>reaperStop\<close> and \<open>reaperDone\<close> are closed. The field \<open>newImpl\<close> is a parameter of the
  operations that call it.
\<close>

record pool =
  p_opts :: opts
  p_cfg :: pool_config
  p_all :: "hid set"
  p_idle :: "hid list"
  p_closed :: bool
  p_reaperStop :: bool
  p_reaperDone :: bool

text \<open>
  What surrounds the struct: the heap of holders, the clock, and the ledger of the backend
  (instances are numbered in the order \<open>newImpl\<close> returns them; \<open>e_torn\<close> lists the instances
  whose \<open>close\<close> was called, in order).
\<close>

record pstate = pool +
  e_heap :: "hid \<Rightarrow> holder"
  e_nextHid :: hid
  e_now :: int
  e_nextImpl :: iid
  e_torn :: "iid list"

text \<open>An operation returns, blocks for ever, or panics.\<close>

datatype 'a exec = Returns 'a | Blocks | Panics

section \<open>Configuration\<close>

definition normalize :: "pool_config \<Rightarrow> gerror + pool_config" where
  "normalize c =
     (if c_Min c < 0 then Inl (Errorf ''pool: Min must be >= 0'')
      else let c' = (if c_Max c < 1 then c\<lparr>c_Max := 1\<rparr> else c)
        in if c_Max c' < c_Min c'
           then Inl (Errorf (''pool: Max ('' @ showInt (c_Max c') @ '') must be >= Min (''
                              @ showInt (c_Min c') @ '')''))
           else Inr c')"

definition reaperInterval :: "pool_config \<Rightarrow> int" where
  "reaperInterval c =
     (let i = truncDiv (c_IdleTimeout c) 2;
          i = (if i > 30 * Second then 30 * Second else i)
      in if i \<le> 0 then Second else i)"

section \<open>Atomic regions\<close>

text \<open>The channel \<open>idle\<close>: a receive in a \<open>select\<close>, a send, and whether a send would block.\<close>

definition recvIdle :: "pstate \<Rightarrow> (hid \<times> pstate) option" where [pool_defs]:
  "recvIdle p = (case p_idle p of [] \<Rightarrow> None | h # hs \<Rightarrow> Some (h, p\<lparr>p_idle := hs\<rparr>))"

definition idleFull :: "pstate \<Rightarrow> bool" where [pool_defs]:
  "idleFull p \<longleftrightarrow> c_Max (p_cfg p) \<le> int (length (p_idle p))"

definition sendIdle :: "hid \<Rightarrow> pstate \<Rightarrow> pstate" where [pool_defs]:
  "sendIdle h p = p\<lparr>p_idle := p_idle p @ [h]\<rparr>"

definition setHolder :: "hid \<Rightarrow> holder \<Rightarrow> pstate \<Rightarrow> pstate" where [pool_defs]:
  "setHolder h x p = p\<lparr>e_heap := (e_heap p)(h := x)\<rparr>"

text \<open>\<open>&holder{...}\<close> and its registration in \<open>all\<close>.\<close>

definition register :: "iid option \<Rightarrow> pstate \<Rightarrow> hid \<times> pstate" where [pool_defs]:
  "register impl p =
     (let h = e_nextHid p in
      (h, p\<lparr>p_all := insert h (p_all p),
            e_heap := (e_heap p)(h := \<lparr>h_mu = False, h_impl = impl, h_dead = None,
                                      h_lastUsed = e_now p\<rparr>),
            e_nextHid := Suc h\<rparr>))"

text \<open>\<open>newImpl\<close> succeeded: the next instance of the ledger.\<close>

definition freshImpl :: "pstate \<Rightarrow> iid \<times> pstate" where [pool_defs]:
  "freshImpl p = (e_nextImpl p, p\<lparr>e_nextImpl := Suc (e_nextImpl p)\<rparr>)"

definition installImpl :: "hid \<Rightarrow> pstate \<Rightarrow> pstate" where [pool_defs]:
  "installImpl h p =
     (case freshImpl p of (i, p') \<Rightarrow> setHolder h ((e_heap p' h)\<lparr>h_impl := Some i\<rparr>) p')"

text \<open>\<open>acquire\<close>, the region under \<open>p.mu\<close>: closed, a reserved slot, or nothing left below \<open>Max\<close>.\<close>

datatype reservation = PoolClosed | Reserved hid pstate | AtMax

definition acquireReserve :: "pstate \<Rightarrow> reservation" where [pool_defs]:
  "acquireReserve p =
     (if p_closed p then PoolClosed
      else if int (card (p_all p)) < c_Max (p_cfg p)
           then (case register None p of (h, p') \<Rightarrow> Reserved h p')
           else AtMax)"

definition unregister :: "hid \<Rightarrow> pstate \<Rightarrow> pstate" where [pool_defs]:
  "unregister h p = p\<lparr>p_all := p_all p - {h}\<rparr>"

text \<open>\<open>drop\<close>, the region under \<open>p.mu\<close>: was the holder still registered?\<close>

definition dropLocked :: "hid \<Rightarrow> pstate \<Rightarrow> bool \<times> pstate" where [pool_defs]:
  "dropLocked h p = (h \<in> p_all p, unregister h p)"

text \<open>
  \<open>release\<close> up to its unlock: \<open>lastUsed\<close> is set; a closed pool forgets the holder, which is then
  torn down, an open one gets it back through the channel.
\<close>

definition releaseLocked :: "hid \<Rightarrow> pstate \<Rightarrow> bool \<times> pstate" where [pool_defs]:
  "releaseLocked h p =
     (let p' = setHolder h ((e_heap p h)\<lparr>h_lastUsed := e_now p\<rparr>) p
      in if p_closed p' then (True, unregister h p') else (False, p'))"

text \<open>\<open>h.impl.close(...)\<close>: a nil interface panics.\<close>

definition closeImpl :: "hid \<Rightarrow> pstate \<Rightarrow> pstate option" where [pool_defs]:
  "closeImpl h p = map_option (\<lambda>i. p\<lparr>e_torn := e_torn p @ [i]\<rparr>) (h_impl (e_heap p h))"

definition markDead :: "hid \<Rightarrow> gerror \<Rightarrow> pstate \<Rightarrow> pstate" where [pool_defs]:
  "markDead h e p = setHolder h ((e_heap p h)\<lparr>h_dead := Some e\<rparr>) p"

definition lockHolder :: "hid \<Rightarrow> pstate \<Rightarrow> pstate" where [pool_defs]:
  "lockHolder h p = setHolder h ((e_heap p h)\<lparr>h_mu := True\<rparr>) p"

definition unlockHolder :: "hid \<Rightarrow> pstate \<Rightarrow> pstate" where [pool_defs]:
  "unlockHolder h p = setHolder h ((e_heap p h)\<lparr>h_mu := False\<rparr>) p"

section \<open>Operations of a caller that runs alone\<close>

text \<open>
  The answers of what the pool calls during one \<open>Run\<close>: \<open>newImpl\<close> (its error, if any), the end
  of the context while the caller is blocked (\<open>None\<close>: it never ends), the backend's \<open>run\<close>, and
  its \<open>checkHolder\<close> after the hygiene.
\<close>

record run_env =
  a_newImpl :: "gerror option"
  a_ctxEnd :: "gerror option"
  a_run :: outcome
  a_check :: "gerror option"

definition acquire :: "run_env \<Rightarrow> pstate \<Rightarrow> ((gerror + hid) \<times> pstate) exec" where
  "acquire a p =
     (case recvIdle p of
        Some (h, p') \<Rightarrow> Returns (Inr h, p')
      | None \<Rightarrow>
          (case acquireReserve p of
             PoolClosed \<Rightarrow> Returns (Inl (Errorf ''pool: closed''), p)
           | Reserved h p' \<Rightarrow>
               (case a_newImpl a of
                  Some e \<Rightarrow> Returns (Inl (Wrap ''pool: scaling up: '' e), unregister h p')
                | None \<Rightarrow> Returns (Inr h, installImpl h p'))
           | AtMax \<Rightarrow>
               (case a_ctxEnd a of
                  Some e \<Rightarrow> Returns (Inl (Wrap ''pool: acquiring holder: '' e), p)
                | None \<Rightarrow> Blocks)))"

definition release :: "hid \<Rightarrow> pstate \<Rightarrow> pstate exec" where
  "release h p =
     (case releaseLocked h p of
        (True, p') \<Rightarrow> (case closeImpl h p' of None \<Rightarrow> Panics | Some p'' \<Rightarrow> Returns p'')
      | (False, p') \<Rightarrow> if idleFull p' then Blocks else Returns (sendIdle h p'))"

definition dropHolder :: "hid \<Rightarrow> pstate \<Rightarrow> pstate exec" where
  "dropHolder h p =
     (case dropLocked h p of
        (True, p') \<Rightarrow> (case closeImpl h p' of None \<Rightarrow> Panics | Some p'' \<Rightarrow> Returns p'')
      | (False, p') \<Rightarrow> Returns p')"

text \<open>The error of a run whose holder was found dead afterwards.\<close>

definition diedErr :: "gerror option \<Rightarrow> gerror \<Rightarrow> gerror option" where
  "diedErr runErr e = (case runErr of None \<Rightarrow> Some (Wrap ''pool: holder died: '' e) | Some x \<Rightarrow> Some x)"

definition poolRun :: "run_env \<Rightarrow> pstate \<Rightarrow> (outcome \<times> pstate) exec" where
  "poolRun a p =
     (case acquire a p of
        Blocks \<Rightarrow> Blocks
      | Panics \<Rightarrow> Panics
      | Returns (Inl e, p1) \<Rightarrow> Returns ((zeroResult, Some e), p1)
      | Returns (Inr h, p1) \<Rightarrow>
          if h_mu (e_heap p1 h) then Blocks
          else let p2 = lockHolder h p1 in
            (case h_dead (e_heap p2 h) of
               Some d \<Rightarrow>
                 (case dropHolder h p2 of
                    Returns p3 \<Rightarrow> Returns ((zeroResult, Some (Wrap ''pool: acquired holder is dead: '' d)),
                                          unlockHolder h p3)
                  | Blocks \<Rightarrow> Blocks | Panics \<Rightarrow> Panics)
             | None \<Rightarrow>
                 if h_impl (e_heap p2 h) = None then Panics
                 else let (res, runErr) = a_run a in
                   (case a_check a of
                      Some e \<Rightarrow>
                        (case dropHolder h (markDead h e p2) of
                           Returns p3 \<Rightarrow> Returns ((res, diedErr runErr e), unlockHolder h p3)
                         | Blocks \<Rightarrow> Blocks | Panics \<Rightarrow> Panics)
                    | None \<Rightarrow>
                        (case release h p2 of
                           Returns p3 \<Rightarrow> Returns ((res, runErr), unlockHolder h p3)
                         | Blocks \<Rightarrow> Blocks | Panics \<Rightarrow> Panics))))"

text \<open>
  \<open>reapIdle\<close>: \<open>now\<close> is read once. An iteration that goes on has taken one holder out of the
  channel, so the loop ends.
\<close>

function reapLoop :: "int \<Rightarrow> pstate \<Rightarrow> pstate exec" where
  "reapLoop t p =
     (if int (card (p_all p)) \<le> c_Min (p_cfg p) then Returns p
      else case recvIdle p of
          None \<Rightarrow> Returns p
        | Some (h, p1) \<Rightarrow>
            if t - h_lastUsed (e_heap p1 h) < c_IdleTimeout (p_cfg p1)
            then if idleFull p1 then Blocks else Returns (sendIdle h p1)
            else (case dropHolder h p1 of
                    Returns p2 \<Rightarrow> reapLoop t p2
                  | Blocks \<Rightarrow> Blocks | Panics \<Rightarrow> Panics))"
  by pat_completeness auto
termination
  by (relation "measure (\<lambda>(t, p). length (p_idle p))")
     (auto simp: recvIdle_def dropHolder_def pool_defs
        split: list.splits if_splits option.splits bool.splits prod.splits)

declare reapLoop.simps [simp del]

definition reapIdle :: "pstate \<Rightarrow> pstate exec" where
  "reapIdle p = reapLoop (e_now p) p"

text \<open>
  \<open>Close\<close>. \<open>order\<close> is the unspecified order in which \<open>range\<close> visits the map \<open>all\<close>; \<open>answers\<close> are
  the errors of the instances' \<open>close\<close>. A caller that runs alone sees the reaper leave as
  soon as \<open>reaperStop\<close> is closed.
\<close>

fun closeAll :: "hid list \<Rightarrow> (hid \<Rightarrow> gerror option) \<Rightarrow> gerror option \<Rightarrow> pstate
    \<Rightarrow> (gerror option \<times> pstate) exec" where
  "closeAll [] answers firstErr p = Returns (firstErr, p)"
| "closeAll (h # hs) answers firstErr p =
     (case closeImpl h p of
        None \<Rightarrow> Panics
      | Some p' \<Rightarrow> closeAll hs answers (if firstErr = None then answers h else firstErr) p')"

definition collectAll :: "pstate \<Rightarrow> pstate" where [pool_defs]:
  "collectAll p = p\<lparr>p_all := {}\<rparr>"

definition closePool :: "(hid set \<Rightarrow> hid list) \<Rightarrow> (hid \<Rightarrow> gerror option) \<Rightarrow> pstate
    \<Rightarrow> (gerror option \<times> pstate) exec" where
  "closePool order answers p =
     (if p_closed p then Returns (None, p)
      else let reaperRunning = 0 < c_IdleTimeout (p_cfg p);
               p1 = p\<lparr>p_closed := True\<rparr>;
               p2 = (if reaperRunning then p1\<lparr>p_reaperStop := True, p_reaperDone := True\<rparr> else p1)
        in if \<not> p_reaperDone p2 then Blocks
           else let holders = order (p_all p2);
                    p3 = collectAll p2;
                    p4 = p3\<lparr>p_idle := []\<rparr>
             in closeAll holders answers None p4)"

text \<open>
  \<open>createHolder\<close> and \<open>NewPool\<close>. \<open>mkDocker\<close> and \<open>mkK8s\<close> answer the i-th construction of a holder
  of that backend (the error, if any).
\<close>

definition newImplFor :: "(nat \<Rightarrow> gerror option) \<Rightarrow> (nat \<Rightarrow> gerror option) \<Rightarrow> opts \<Rightarrow> nat
    \<Rightarrow> gerror option" where
  "newImplFor mkDocker mkK8s o' i =
     (if o_Backend o' \<in> {'''', ''auto'', ''docker''} then mkDocker i
      else if o_Backend o' = ''k8s'' then mkK8s i
      else Some (Errorf (''pool: unknown backend '' @ goQuote (o_Backend o'))))"

definition createHolder :: "gerror option \<Rightarrow> pstate \<Rightarrow> (gerror + hid) \<times> pstate" where
  "createHolder answer p =
     (case answer of
        Some e \<Rightarrow> (Inl e, p)
      | None \<Rightarrow> (case freshImpl p of (i, p1) \<Rightarrow>
          (case register (Some i) p1 of (h, p2) \<Rightarrow> (Inr h, p2))))"

text \<open>
  The loop that makes the \<open>Min\<close> holders: \<open>i\<close> iterations are done, the second number are left.
  An error leaves the loop with the message of the failed iteration.
\<close>

fun newPoolLoop :: "(nat \<Rightarrow> gerror option) \<Rightarrow> nat \<Rightarrow> nat \<Rightarrow> pstate
    \<Rightarrow> (gerror option \<times> pstate) exec" where
  "newPoolLoop answers i 0 p = Returns (None, p)"
| "newPoolLoop answers i (Suc n) p =
     (case createHolder (answers i) p of
        (Inl e, p') \<Rightarrow> Returns (Some (Wrap (''pool: creating min holder '' @ showInt (int i + 1)
                                       @ ''/'' @ showInt (c_Min (p_cfg p)) @ '': '') e), p')
      | (Inr h, p') \<Rightarrow>
          if idleFull p' then Blocks else newPoolLoop answers (Suc i) n (sendIdle h p'))"

definition emptyPool :: "opts \<Rightarrow> pool_config \<Rightarrow> int \<Rightarrow> pstate" where
  "emptyPool o' c t =
     \<lparr>p_opts = o', p_cfg = c, p_all = {}, p_idle = [], p_closed = False,
      p_reaperStop = False, p_reaperDone = (c_IdleTimeout c \<le> 0),
      e_heap = (\<lambda>_. \<lparr>h_mu = False, h_impl = None, h_dead = None, h_lastUsed = 0\<rparr>),
      e_nextHid = 0, e_now = t, e_nextImpl = 0, e_torn = []\<rparr>"

text \<open>\<open>NewPool\<close> returns the pool or an error; with the error comes the state it leaves behind.\<close>

datatype pool_result = PoolOk pstate | PoolErr gerror "pstate option"

definition newPool :: "(nat \<Rightarrow> gerror option) \<Rightarrow> (nat \<Rightarrow> gerror option) \<Rightarrow> (hid set \<Rightarrow> hid list)
    \<Rightarrow> (hid \<Rightarrow> gerror option) \<Rightarrow> int \<Rightarrow> opts \<Rightarrow> pool_config \<Rightarrow> pool_result exec" where
  "newPool mkDocker mkK8s order closeAns t o' c =
     (if o_User o' = '''' then Returns (PoolErr (Errorf ''pool: Opts.User must be set'') None)
      else case normalize c of
          Inl e \<Rightarrow> Returns (PoolErr e None)
        | Inr c' \<Rightarrow>
            (case newPoolLoop (newImplFor mkDocker mkK8s o') 0 (nat (c_Min c')) (emptyPool o' c' t) of
               Blocks \<Rightarrow> Blocks
             | Panics \<Rightarrow> Panics
             | Returns (None, p) \<Rightarrow> Returns (PoolOk p)
             | Returns (Some e, p) \<Rightarrow>
                 (case closePool order closeAns p of
                    Blocks \<Rightarrow> Blocks
                  | Panics \<Rightarrow> Panics
                  | Returns (_, p') \<Rightarrow> Returns (PoolErr e (Some p')))))"

end
