(* ===== verification/Ownership.thy ===== *)
theory Ownership
  imports Main
begin

text \<open>
  What the pool promises about its holders, without its code: at most \<open>M\<close> tokens exist; a
  token is either parked in a queue or held by exactly one owner; owners take the queue's
  head, park a token at its end, make a new token while fewer than \<open>M\<close> exist, or destroy the
  token they hold. \<open>Pool_Conc\<close> shows that the interleaved pool does nothing else.
\<close>

record 'o own =
  w_idle :: "nat list"
  w_held :: "'o \<Rightarrow> nat set"

definition own_tokens :: "'o own \<Rightarrow> nat set" where
  "own_tokens w = set (w_idle w) \<union> (\<Union>x. w_held w x)"

inductive own_step :: "int \<Rightarrow> 'o own \<Rightarrow> 'o own \<Rightarrow> bool" for M :: int where
  own_take: "w_idle w = h # hs \<Longrightarrow> w_held w x = {} \<Longrightarrow>
     own_step M w (w\<lparr>w_idle := hs, w_held := (w_held w)(x := {h})\<rparr>)"
| own_put: "w_held w x = {h} \<Longrightarrow> int (length (w_idle w)) < M \<Longrightarrow>
     own_step M w (w\<lparr>w_idle := w_idle w @ [h], w_held := (w_held w)(x := {})\<rparr>)"
| own_grow: "w_held w x = {} \<Longrightarrow> h \<notin> own_tokens w \<Longrightarrow> int (card (own_tokens w)) < M \<Longrightarrow>
     own_step M w (w\<lparr>w_held := (w_held w)(x := {h})\<rparr>)"
| own_discard: "w_held w x = {h} \<Longrightarrow>
     own_step M w (w\<lparr>w_held := (w_held w)(x := {})\<rparr>)"
| own_drain: "w_idle w = h # hs \<Longrightarrow> own_step M w (w\<lparr>w_idle := hs\<rparr>)"

definition own_disjoint :: "'o own \<Rightarrow> bool" where
  "own_disjoint w \<longleftrightarrow> distinct (w_idle w) \<and> (\<forall>x. w_held w x \<inter> set (w_idle w) = {})
     \<and> (\<forall>x y. x \<noteq> y \<longrightarrow> w_held w x \<inter> w_held w y = {})"

definition own_inv :: "int \<Rightarrow> 'o own \<Rightarrow> bool" where
  "own_inv M w \<longleftrightarrow> own_disjoint w \<and> finite (own_tokens w) \<and> int (card (own_tokens w)) \<le> M"

lemma held_subset_tokens: "w_held w x \<subseteq> own_tokens w"
  by (auto simp: own_tokens_def)

lemma idle_subset_tokens: "set (w_idle w) \<subseteq> own_tokens w"
  by (auto simp: own_tokens_def)

lemma own_disjoint_idle: "own_disjoint w \<Longrightarrow> h \<in> w_held w x \<Longrightarrow> h \<notin> set (w_idle w)"
  by (auto simp: own_disjoint_def)

lemma own_disjoint_held: "own_disjoint w \<Longrightarrow> h \<in> w_held w x \<Longrightarrow> h \<in> w_held w y \<Longrightarrow> x = y"
  by (metis own_disjoint_def disjoint_iff)

text \<open>The tokens seen from one owner: the queue, its own, and everybody else's.\<close>

lemma own_tokens_split:
  "own_tokens w = set (w_idle w) \<union> w_held w x \<union> (\<Union>y \<in> - {x}. w_held w y)"
  by (auto simp: own_tokens_def)

lemma own_tokens_update:
  "own_tokens (w\<lparr>w_idle := q, w_held := (w_held w)(x := Y)\<rparr>) =
     set q \<union> Y \<union> (\<Union>y \<in> - {x}. w_held w y)"
  by (auto simp: own_tokens_def)

text \<open>The tokens after each kind of step.\<close>

lemma own_step_tokens:
  "own_step M w w' \<Longrightarrow> own_disjoint w \<Longrightarrow>
     own_tokens w' \<subseteq> own_tokens w \<or>
     (\<exists>h. own_tokens w' = insert h (own_tokens w) \<and> int (card (own_tokens w)) < M)"
proof (induction rule: own_step.induct)
  case (own_grow w x h)
  have "own_tokens (w\<lparr>w_held := (w_held w)(x := {h})\<rparr>) = insert h (own_tokens w)"
    using own_grow(1) by (auto simp: own_tokens_def split: if_splits)
  then show ?case using own_grow(3) by blast
qed (auto simp: own_tokens_def split: if_splits)

lemma own_step_disjoint: "own_step M w w' \<Longrightarrow> own_disjoint w \<Longrightarrow> own_disjoint w'"
proof (induction rule: own_step.induct)
  case (own_take w h hs x)
  then show ?case by (auto simp: own_disjoint_def)
next
  case (own_put w x h)
  then show ?case by (auto simp: own_disjoint_def) blast+
next
  case (own_grow w x h)
  then show ?case by (auto simp: own_disjoint_def own_tokens_def)
next
  case (own_discard w x h)
  then show ?case by (auto simp: own_disjoint_def)
next
  case (own_drain w h hs)
  then show ?case by (auto simp: own_disjoint_def)
qed

lemma own_step_inv:
  assumes "own_step M w w'" and inv: "own_inv M w"
  shows "own_inv M w'"
proof -
  have dis: "own_disjoint w" and fin: "finite (own_tokens w)" and le: "int (card (own_tokens w)) \<le> M"
    using inv by (auto simp: own_inv_def)
  consider (sub) "own_tokens w' \<subseteq> own_tokens w"
    | (new) h where "own_tokens w' = insert h (own_tokens w)" "int (card (own_tokens w)) < M"
    using own_step_tokens [OF assms(1) dis] by blast
  then have "finite (own_tokens w') \<and> int (card (own_tokens w')) \<le> M"
  proof cases
    case sub
    then have "card (own_tokens w') \<le> card (own_tokens w)" by (rule card_mono [OF fin])
    then show ?thesis using le finite_subset [OF sub fin] by linarith
  next
    case new
    then show ?thesis using fin card_insert_le_m1 by (simp add: card_insert_if)
  qed
  then show ?thesis using own_step_disjoint [OF assms(1) dis] by (simp add: own_inv_def)
qed

text \<open>The queue has room for whatever an owner still holds: a send never blocks.\<close>

lemma own_room:
  assumes inv: "own_inv M w" and h: "h \<in> w_held w x"
  shows "int (length (w_idle w)) < M"
proof -
  have fin: "finite (own_tokens w)" and dist: "distinct (w_idle w)"
    and out: "h \<notin> set (w_idle w)" and le: "int (card (own_tokens w)) \<le> M"
    using inv h by (auto simp: own_inv_def own_disjoint_def)
  have "insert h (set (w_idle w)) \<subseteq> own_tokens w"
    using h by (auto simp: own_tokens_def)
  then have "card (insert h (set (w_idle w))) \<le> card (own_tokens w)"
    by (rule card_mono [OF fin])
  then have "Suc (length (w_idle w)) \<le> card (own_tokens w)"
    using out by (simp add: distinct_card [OF dist])
  then show ?thesis using le by linarith
qed

section \<open>Systems with an invariant\<close>

text \<open>
  The interface between a step relation and what is proved about its reachable states: an
  invariant of the start states that every step keeps.
\<close>

locale invariant_system =
  fixes start :: "'s \<Rightarrow> bool"
    and step :: "'s \<Rightarrow> 's \<Rightarrow> bool"
    and inv :: "'s \<Rightarrow> bool"
  assumes start_inv: "start s \<Longrightarrow> inv s"
    and step_inv: "inv s \<Longrightarrow> step s t \<Longrightarrow> inv t"
begin

lemma steps_inv: "step\<^sup>*\<^sup>* s t \<Longrightarrow> inv s \<Longrightarrow> inv t"
  by (induction rule: rtranclp_induct) (auto intro: step_inv)

lemma reach_inv: "start s \<Longrightarrow> step\<^sup>*\<^sup>* s t \<Longrightarrow> inv t"
  by (rule steps_inv) (auto intro: start_inv)

lemma reach_step_inv: "start s \<Longrightarrow> step\<^sup>*\<^sup>* s t \<Longrightarrow> step t u \<Longrightarrow> inv u"
  by (blast intro: reach_inv step_inv)

end

end
