(* ===== verification/Pool_Conc.thy ===== *)
theory Pool_Conc
  imports Pool Ownership
begin

text \<open>
  The pool under concurrency. Every goroutine that calls \<open>Run\<close> or \<open>Close\<close>, and the reaper, is
  a program counter; one step of the system is one goroutine executing one atomic region of
  \<open>Pool\<close> (a hold of \<open>p.mu\<close>, a channel operation, a return of the backend), in any order. The
  answers of the environment (what \<open>newImpl\<close>, \<open>run\<close>, \<open>checkHolder\<close> and \<open>close\<close> return, when a
  context ends, which ready case a \<open>select\<close> takes, the order of \<open>range\<close>) are arbitrary.
\<close>

section \<open>Goroutines\<close>

text \<open>
  The program counters of \<open>Run\<close>, in the order of the code; \<open>RunPanic\<close> is a nil dereference (with
  what the goroutine held).
\<close>

datatype run_pc =
    AcqTry
  | AcqReserve
  | AcqBuild hid
  | AcqUndo hid gerror
  | AcqWait
  | RunLock hid
  | RunExec hid
  | RunProbe hid outcome
  | RunDrop hid outcome
  | RunTear hid outcome
  | RunRelease hid outcome
  | RunSend hid outcome
  | RunUnlock hid outcome
  | RunRet outcome
  | RunPanic "hid set"

datatype close_pc =
    ClEnter
  | ClStop
  | ClAwait
  | ClCollect
  | ClDrain "hid list"
  | ClEach "hid list" "gerror option"
  | ClRet "gerror option"
  | ClNoop
  | ClPanic "hid list"

datatype reap_pc =
    RpSelect
  | RpLoop int
  | RpTake int
  | RpAge int hid
  | RpPut hid
  | RpDrop int hid
  | RpTear int hid
  | RpExit
  | RpPanic

text \<open>What the environment decides in a step; \<open>Go\<close> is a step without a choice.\<close>

datatype answer =
    Go
  | NewImpl "gerror option"
  | CtxDone gerror
  | RunReturns outcome
  | Checked "gerror option"
  | CloseReturns "gerror option"
  | Order "hid list"
  | Tick
  | Stop

text \<open>One region of \<open>Run\<close> (with \<open>acquire\<close>, \<open>release\<close> and \<open>drop\<close>); \<open>None\<close>: not enabled.\<close>

fun run_step :: "run_pc \<Rightarrow> answer \<Rightarrow> pstate \<Rightarrow> (run_pc \<times> pstate) option" where
  "run_step AcqTry a p =
     (case a of Go \<Rightarrow>
        (case recvIdle p of Some (h, p') \<Rightarrow> Some (RunLock h, p') | None \<Rightarrow> Some (AcqReserve, p))
      | _ \<Rightarrow> None)"
| "run_step AcqReserve a p =
     (case a of Go \<Rightarrow>
        (case acquireReserve p of
           PoolClosed \<Rightarrow> Some (RunRet (zeroResult, Some (Errorf ''pool: closed'')), p)
         | Reserved h p' \<Rightarrow> Some (AcqBuild h, p')
         | AtMax \<Rightarrow> Some (AcqWait, p))
      | _ \<Rightarrow> None)"
| "run_step (AcqBuild h) a p =
     (case a of NewImpl r \<Rightarrow>
        (case r of None \<Rightarrow> Some (RunLock h, installImpl h p) | Some e \<Rightarrow> Some (AcqUndo h e, p))
      | _ \<Rightarrow> None)"
| "run_step (AcqUndo h e) a p =
     (case a of Go \<Rightarrow>
        Some (RunRet (zeroResult, Some (Wrap ''pool: scaling up: '' e)), unregister h p)
      | _ \<Rightarrow> None)"
| "run_step AcqWait a p =
     (case a of
        Go \<Rightarrow> (case recvIdle p of Some (h, p') \<Rightarrow> Some (RunLock h, p') | None \<Rightarrow> None)
      | CtxDone e \<Rightarrow> Some (RunRet (zeroResult, Some (Wrap ''pool: acquiring holder: '' e)), p)
      | _ \<Rightarrow> None)"
| "run_step (RunLock h) a p =
     (case a of Go \<Rightarrow>
        (if h_mu (e_heap p h) then None
         else let p' = lockHolder h p in
           (case h_dead (e_heap p' h) of
              Some d \<Rightarrow>
                Some (RunDrop h (zeroResult, Some (Wrap ''pool: acquired holder is dead: '' d)), p')
            | None \<Rightarrow> Some (RunExec h, p')))
      | _ \<Rightarrow> None)"
| "run_step (RunExec h) a p =
     (case a of RunReturns out \<Rightarrow>
        (if h_impl (e_heap p h) = None then Some (RunPanic {h}, p) else Some (RunProbe h out, p))
      | _ \<Rightarrow> None)"
| "run_step (RunProbe h out) a p =
     (case a of Checked c \<Rightarrow>
        (case c of
           Some e \<Rightarrow> Some (RunDrop h (fst out, diedErr (snd out) e), markDead h e p)
         | None \<Rightarrow> Some (RunRelease h out, p))
      | _ \<Rightarrow> None)"
| "run_step (RunDrop h out) a p =
     (case a of Go \<Rightarrow>
        (case dropLocked h p of
           (True, p') \<Rightarrow> Some (RunTear h out, p')
         | (False, p') \<Rightarrow> Some (RunUnlock h out, p'))
      | _ \<Rightarrow> None)"
| "run_step (RunTear h out) a p =
     (case a of CloseReturns r \<Rightarrow>
        (case closeImpl h p of None \<Rightarrow> Some (RunPanic {}, p) | Some p' \<Rightarrow> Some (RunUnlock h out, p'))
      | _ \<Rightarrow> None)"
| "run_step (RunRelease h out) a p =
     (case a of Go \<Rightarrow>
        (case releaseLocked h p of
           (True, p') \<Rightarrow> Some (RunTear h out, p')
         | (False, p') \<Rightarrow> Some (RunSend h out, p'))
      | _ \<Rightarrow> None)"
| "run_step (RunSend h out) a p =
     (case a of Go \<Rightarrow> (if idleFull p then None else Some (RunUnlock h out, sendIdle h p))
      | _ \<Rightarrow> None)"
| "run_step (RunUnlock h out) a p =
     (case a of Go \<Rightarrow> Some (RunRet out, unlockHolder h p) | _ \<Rightarrow> None)"
| "run_step (RunRet out) a p = None"
| "run_step (RunPanic X) a p = None"

text \<open>One region of \<open>Close\<close>.\<close>

fun close_step :: "close_pc \<Rightarrow> answer \<Rightarrow> pstate \<Rightarrow> (close_pc \<times> pstate) option" where
  "close_step ClEnter a p =
     (case a of Go \<Rightarrow>
        (if p_closed p then Some (ClNoop, p)
         else Some (if 0 < c_IdleTimeout (p_cfg p) then ClStop else ClAwait, p\<lparr>p_closed := True\<rparr>))
      | _ \<Rightarrow> None)"
| "close_step ClStop a p =
     (case a of Go \<Rightarrow> Some (ClAwait, p\<lparr>p_reaperStop := True\<rparr>) | _ \<Rightarrow> None)"
| "close_step ClAwait a p =
     (case a of Go \<Rightarrow> (if p_reaperDone p then Some (ClCollect, p) else None) | _ \<Rightarrow> None)"
| "close_step ClCollect a p =
     (case a of Order hs \<Rightarrow>
        (if distinct hs \<and> set hs = p_all p then Some (ClDrain hs, collectAll p) else None)
      | _ \<Rightarrow> None)"
| "close_step (ClDrain hs) a p =
     (case a of Go \<Rightarrow>
        (case recvIdle p of
           Some (h, p') \<Rightarrow> Some (ClDrain hs, p')
         | None \<Rightarrow> Some (ClEach hs None, p))
      | _ \<Rightarrow> None)"
| "close_step (ClEach hs firstErr) a p =
     (case hs of
        [] \<Rightarrow> (case a of Go \<Rightarrow> Some (ClRet firstErr, p) | _ \<Rightarrow> None)
      | h # hs' \<Rightarrow>
          (case a of CloseReturns r \<Rightarrow>
             (case closeImpl h p of
                None \<Rightarrow> Some (ClPanic (h # hs'), p)
              | Some p' \<Rightarrow> Some (ClEach hs' (if firstErr = None then r else firstErr), p'))
           | _ \<Rightarrow> None))"
| "close_step (ClRet firstErr) a p = None"
| "close_step ClNoop a p = None"
| "close_step (ClPanic hs) a p = None"

text \<open>One region of \<open>reaper\<close> with \<open>reapIdle\<close> and \<open>drop\<close>.\<close>

fun reap_step :: "reap_pc \<Rightarrow> answer \<Rightarrow> pstate \<Rightarrow> (reap_pc \<times> pstate) option" where
  "reap_step RpSelect a p =
     (case a of
        Stop \<Rightarrow> (if p_reaperStop p then Some (RpExit, p\<lparr>p_reaperDone := True\<rparr>) else None)
      | Tick \<Rightarrow> Some (RpLoop (e_now p), p)
      | _ \<Rightarrow> None)"
| "reap_step (RpLoop t) a p =
     (case a of Go \<Rightarrow>
        Some (if int (card (p_all p)) \<le> c_Min (p_cfg p) then RpSelect else RpTake t, p)
      | _ \<Rightarrow> None)"
| "reap_step (RpTake t) a p =
     (case a of Go \<Rightarrow>
        (case recvIdle p of Some (h, p') \<Rightarrow> Some (RpAge t h, p') | None \<Rightarrow> Some (RpSelect, p))
      | _ \<Rightarrow> None)"
| "reap_step (RpAge t h) a p =
     (case a of Go \<Rightarrow>
        Some (if t - h_lastUsed (e_heap p h) < c_IdleTimeout (p_cfg p)
              then RpPut h else RpDrop t h, p)
      | _ \<Rightarrow> None)"
| "reap_step (RpPut h) a p =
     (case a of Go \<Rightarrow> (if idleFull p then None else Some (RpSelect, sendIdle h p)) | _ \<Rightarrow> None)"
| "reap_step (RpDrop t h) a p =
     (case a of Go \<Rightarrow>
        (case dropLocked h p of
           (True, p') \<Rightarrow> Some (RpTear t h, p')
         | (False, p') \<Rightarrow> Some (RpLoop t, p'))
      | _ \<Rightarrow> None)"
| "reap_step (RpTear t h) a p =
     (case a of CloseReturns r \<Rightarrow>
        (case closeImpl h p of None \<Rightarrow> Some (RpPanic, p) | Some p' \<Rightarrow> Some (RpLoop t, p'))
      | _ \<Rightarrow> None)"
| "reap_step RpExit a p = None"
| "reap_step RpPanic a p = None"

section \<open>The system\<close>

datatype thread = Vacant | TRun run_pc | TClose close_pc

record sys =
  s_pool :: pstate
  s_thr :: "nat \<Rightarrow> thread"
  s_reap :: reap_pc

text \<open>A panic in any goroutine ends the process: no step follows it.\<close>

definition crashed :: "sys \<Rightarrow> bool" where
  "crashed s \<longleftrightarrow> (\<exists>i. (\<exists>X. s_thr s i = TRun (RunPanic X)) \<or> (\<exists>hs. s_thr s i = TClose (ClPanic hs)))
     \<or> s_reap s = RpPanic"

inductive sys_step :: "sys \<Rightarrow> sys \<Rightarrow> bool" where
  spawn_run: "\<not> crashed s \<Longrightarrow> s_thr s i = Vacant \<Longrightarrow>
     sys_step s (s\<lparr>s_thr := (s_thr s)(i := TRun AcqTry)\<rparr>)"
| spawn_close: "\<not> crashed s \<Longrightarrow> s_thr s i = Vacant \<Longrightarrow>
     sys_step s (s\<lparr>s_thr := (s_thr s)(i := TClose ClEnter)\<rparr>)"
| run: "\<not> crashed s \<Longrightarrow> s_thr s i = TRun pc \<Longrightarrow> run_step pc a (s_pool s) = Some (pc', p') \<Longrightarrow>
     sys_step s (s\<lparr>s_pool := p', s_thr := (s_thr s)(i := TRun pc')\<rparr>)"
| close: "\<not> crashed s \<Longrightarrow> s_thr s i = TClose pc \<Longrightarrow>
     close_step pc a (s_pool s) = Some (pc', p') \<Longrightarrow>
     sys_step s (s\<lparr>s_pool := p', s_thr := (s_thr s)(i := TClose pc')\<rparr>)"
| reap: "\<not> crashed s \<Longrightarrow> reap_step (s_reap s) a (s_pool s) = Some (pc', p') \<Longrightarrow>
     sys_step s (s\<lparr>s_pool := p', s_reap := pc'\<rparr>)"
| tick: "\<not> crashed s \<Longrightarrow> 0 \<le> d \<Longrightarrow>
     sys_step s (s\<lparr>s_pool := (s_pool s)\<lparr>e_now := e_now (s_pool s) + d\<rparr>\<rparr>)"

text \<open>
  The system starts with a pool that \<open>NewPool\<close> has returned; the reaper runs when the
  configuration asks for one, and no other goroutine exists yet.
\<close>

definition sys_of :: "pstate \<Rightarrow> sys" where
  "sys_of p = \<lparr>s_pool = p, s_thr = (\<lambda>_. Vacant),
     s_reap = (if 0 < c_IdleTimeout (p_cfg p) then RpSelect else RpExit)\<rparr>"

definition sys_start :: "sys \<Rightarrow> bool" where
  "sys_start s \<longleftrightarrow> (\<exists>mkD mkK ord ans t o' c p.
     newPool mkD mkK ord ans t o' c = Returns (PoolOk p) \<and> s = sys_of p)"

text \<open>Who holds which holder: the calls of \<open>Run\<close> by number, the reaper as \<open>None\<close>.\<close>

fun run_holds :: "run_pc \<Rightarrow> hid set" where
  "run_holds (AcqBuild h) = {h}"
| "run_holds (AcqUndo h e) = {h}"
| "run_holds (RunLock h) = {h}"
| "run_holds (RunExec h) = {h}"
| "run_holds (RunProbe h out) = {h}"
| "run_holds (RunDrop h out) = {h}"
| "run_holds (RunRelease h out) = {h}"
| "run_holds (RunSend h out) = {h}"
| "run_holds (RunPanic X) = X"
| "run_holds _ = {}"

fun reap_holds :: "reap_pc \<Rightarrow> hid set" where
  "reap_holds (RpAge t h) = {h}"
| "reap_holds (RpPut h) = {h}"
| "reap_holds (RpDrop t h) = {h}"
| "reap_holds _ = {}"

fun thread_holds :: "thread \<Rightarrow> hid set" where
  "thread_holds (TRun pc) = run_holds pc"
| "thread_holds _ = {}"

definition sys_own :: "sys \<Rightarrow> nat option own" where
  "sys_own s = \<lparr>w_idle = p_idle (s_pool s),
     w_held = (\<lambda>x. case x of None \<Rightarrow> reap_holds (s_reap s) | Some i \<Rightarrow> thread_holds (s_thr s i))\<rparr>"

abbreviation tokens :: "sys \<Rightarrow> hid set" where
  "tokens s \<equiv> own_tokens (sys_own s)"

end
