(* ===== verification/Pool_Safety.thy ===== *)
theory Pool_Safety
  imports Pool_Conc
begin

text \<open>
  The invariants of the interleaved pool and what follows from them in every reachable state.
\<close>

section \<open>What one step does\<close>

lemmas pool_splits = option.splits prod.splits bool.splits if_splits list.splits answer.splits
  reservation.splits

text \<open>The holders whose mutex a goroutine has locked, and those it is about to tear down.\<close>

fun run_locks :: "run_pc \<Rightarrow> hid set" where
  "run_locks (RunExec h) = {h}"
| "run_locks (RunProbe h out) = {h}"
| "run_locks (RunDrop h out) = {h}"
| "run_locks (RunTear h out) = {h}"
| "run_locks (RunRelease h out) = {h}"
| "run_locks (RunSend h out) = {h}"
| "run_locks (RunUnlock h out) = {h}"
| "run_locks _ = {}"

fun thread_locks :: "thread \<Rightarrow> hid set" where
  "thread_locks (TRun pc) = run_locks pc"
| "thread_locks _ = {}"

fun close_pending :: "close_pc \<Rightarrow> hid set" where
  "close_pending (ClDrain hs) = set hs"
| "close_pending (ClEach hs e) = set hs"
| "close_pending (ClPanic hs) = set hs"
| "close_pending _ = {}"

fun run_pending :: "run_pc \<Rightarrow> hid set" where
  "run_pending (RunTear h out) = {h}"
| "run_pending _ = {}"

fun thread_pending :: "thread \<Rightarrow> hid set" where
  "thread_pending (TRun pc) = run_pending pc"
| "thread_pending (TClose pc) = close_pending pc"
| "thread_pending Vacant = {}"

fun reap_pending :: "reap_pc \<Rightarrow> hid set" where
  "reap_pending (RpTear t h) = {h}"
| "reap_pending _ = {}"

definition pending :: "sys \<Rightarrow> hid set" where
  "pending s = (\<Union>i. thread_pending (s_thr s i)) \<union> reap_pending (s_reap s)"

text \<open>
  The effect of a step on the tokens: \<open>tok_eff p p' X Y\<close> says how the channel, the registry and
  the next free address move when the goroutine's holding goes from \<open>X\<close> to \<open>Y\<close>.
\<close>

inductive tok_eff :: "pstate \<Rightarrow> pstate \<Rightarrow> hid set \<Rightarrow> hid set \<Rightarrow> bool" for p p' :: pstate where
  eff_keep: "p_idle p' = p_idle p \<Longrightarrow> p_all p' = p_all p \<Longrightarrow> e_nextHid p' = e_nextHid p \<Longrightarrow>
     tok_eff p p' X X"
| eff_take: "p_idle p = h # hs \<Longrightarrow> p_idle p' = hs \<Longrightarrow> p_all p' = p_all p \<Longrightarrow> e_nextHid p' = e_nextHid p \<Longrightarrow>
     tok_eff p p' {} {h}"
| eff_put: "p_idle p' = p_idle p @ [h] \<Longrightarrow> \<not> idleFull p \<Longrightarrow> p_all p' = p_all p \<Longrightarrow>
     e_nextHid p' = e_nextHid p \<Longrightarrow> tok_eff p p' {h} {}"
| eff_grow: "p_idle p' = p_idle p \<Longrightarrow> \<not> p_closed p \<Longrightarrow> int (card (p_all p)) < c_Max (p_cfg p) \<Longrightarrow>
     p_all p' = insert h (p_all p) \<Longrightarrow> h = e_nextHid p \<Longrightarrow> e_nextHid p' = Suc h \<Longrightarrow>
     tok_eff p p' {} {h}"
| eff_discard: "p_idle p' = p_idle p \<Longrightarrow> p_all p' = p_all p - {h} \<Longrightarrow>
     e_nextHid p' = e_nextHid p \<Longrightarrow> tok_eff p p' {h} {}"

text \<open>How each region shows in its effect.\<close>

lemma recvIdle_Some: "recvIdle p = Some (h, p') \<longleftrightarrow> (\<exists>hs. p_idle p = h # hs \<and> p' = p\<lparr>p_idle := hs\<rparr>)"
  by (auto simp: recvIdle_def split: list.splits)

lemma recvIdle_None: "recvIdle p = None \<longleftrightarrow> p_idle p = []"
  by (auto simp: recvIdle_def split: list.splits)

lemma eff_recv: "recvIdle p = Some (h, p') \<Longrightarrow> tok_eff p p' {} {h}"
  by (rule eff_take [where hs = "p_idle p'"]) (auto simp: recvIdle_Some)

lemma eff_reserve: "acquireReserve p = Reserved h p' \<Longrightarrow> tok_eff p p' {} {h}"
  by (rule eff_grow) (auto simp: acquireReserve_def register_def Let_def split: if_splits)

lemma eff_unregister: "tok_eff p (unregister h p) {h} {}"
  by (rule eff_discard) (simp_all add: unregister_def)

lemma eff_dropLocked: "dropLocked h p = (b, p') \<Longrightarrow> tok_eff p p' {h} {}"
  using eff_unregister by (auto simp: dropLocked_def)

lemma eff_send: "\<not> idleFull p \<Longrightarrow> tok_eff p (sendIdle h p) {h} {}"
  by (rule eff_put) (simp_all add: sendIdle_def)

lemma eff_closeImpl: "closeImpl h p = Some p' \<Longrightarrow> tok_eff p p' X X"
  by (rule eff_keep) (auto simp: closeImpl_def)

lemma eff_id: "tok_eff p p X X"
  by (rule eff_keep) simp_all

lemma eff_setHolder: "tok_eff p (setHolder h x p) X X"
  by (rule eff_keep) (simp_all add: setHolder_def)

lemma eff_heap_regions:
  "tok_eff p (installImpl h p) X X" "tok_eff p (markDead h e p) X X"
  "tok_eff p (lockHolder h p) X X" "tok_eff p (unlockHolder h p) X X"
  by (rule eff_keep; simp add: pool_defs)+

lemma eff_releaseLocked:
  "releaseLocked h p = (True, p') \<Longrightarrow> tok_eff p p' {h} {}"
  "releaseLocked h p = (False, p') \<Longrightarrow> tok_eff p p' X X"
  by (rule eff_discard eff_keep; auto simp: pool_defs Let_def split: if_splits)+

lemmas eff_regions = eff_recv eff_reserve eff_unregister eff_dropLocked eff_send eff_closeImpl
  eff_id eff_setHolder eff_heap_regions eff_releaseLocked

lemma run_step_eff:
  "run_step pc a p = Some (pc', p') \<Longrightarrow> tok_eff p p' (run_holds pc) (run_holds pc')"
  by (cases pc) (auto simp: Let_def split: pool_splits intro: eff_regions)

lemma reap_step_eff:
  "reap_step pc a p = Some (pc', p') \<Longrightarrow> tok_eff p p' (reap_holds pc) (reap_holds pc')"
  by (cases pc)
     (auto split: pool_splits intro: eff_regions eff_keep)

lemma close_step_eff:
  assumes "close_step pc a p = Some (pc', p')"
  shows "e_nextHid p' = e_nextHid p \<and> (p_closed p \<longrightarrow> p_closed p')
    \<and> (p_all p' = p_all p \<or> p_all p' = {})
    \<and> (p_idle p' = p_idle p \<or> (\<exists>h. p_idle p = h # p_idle p'))"
proof (cases pc)
  case ClEnter
  then show ?thesis using assms by (auto split: answer.splits if_splits)
next
  case ClDrain
  then show ?thesis using assms by (auto simp: recvIdle_Some split: answer.splits option.splits)
next
  case (ClEach hs e)
  then show ?thesis using assms
    by (cases hs) (auto simp: closeImpl_def split: answer.splits option.splits)
next
  case ClCollect
  then have "p' = collectAll p" using assms by (cases a) (simp_all split: if_splits)
  then show ?thesis by (simp add: collectAll_def)
next
  case ClStop
  then show ?thesis using assms by (cases a) auto
next
  case ClAwait
  then show ?thesis using assms by (cases a) (simp_all split: if_splits)
qed (use assms in simp_all)

lemma run_step_closed: "run_step pc a p = Some (pc', p') \<Longrightarrow> p_closed p' = p_closed p"
  by (cases pc) (auto simp: pool_defs Let_def split: pool_splits)

lemma reap_step_closed: "reap_step pc a p = Some (pc', p') \<Longrightarrow> p_closed p' = p_closed p"
  by (cases pc) (auto simp: pool_defs Let_def split: pool_splits)

lemma run_step_cfg: "run_step pc a p = Some (pc', p') \<Longrightarrow> p_cfg p' = p_cfg p"
  by (cases pc) (auto simp: pool_defs Let_def split: pool_splits)

lemma reap_step_cfg: "reap_step pc a p = Some (pc', p') \<Longrightarrow> p_cfg p' = p_cfg p"
  by (cases pc) (auto simp: pool_defs Let_def split: pool_splits)

lemma close_step_cfg: "close_step pc a p = Some (pc', p') \<Longrightarrow> p_cfg p' = p_cfg p"
  by (cases pc) (auto simp: pool_defs Let_def split: pool_splits)

lemma sys_step_cfg: "sys_step s t \<Longrightarrow> p_cfg (s_pool t) = p_cfg (s_pool s)"
  by (induction rule: sys_step.induct)
     (auto dest: run_step_cfg reap_step_cfg close_step_cfg)

text \<open>Only the holder a goroutine holds or has locked, or a new one, changes in the heap.\<close>

lemma run_step_heap:
  "run_step pc a p = Some (pc', p') \<Longrightarrow> h \<notin> run_holds pc \<union> run_locks pc \<Longrightarrow> h \<noteq> e_nextHid p \<Longrightarrow>
     e_heap p' h = e_heap p h"
  by (cases pc) (auto simp: pool_defs Let_def split: pool_splits)

lemma reap_step_heap: "reap_step pc a p = Some (pc', p') \<Longrightarrow> e_heap p' = e_heap p"
  by (cases pc) (auto simp: pool_defs Let_def split: pool_splits)

lemma close_step_heap: "close_step pc a p = Some (pc', p') \<Longrightarrow> e_heap p' = e_heap p"
  by (cases pc) (auto simp: pool_defs Let_def split: pool_splits)


section \<open>The interleaved pool refines the ownership specification\<close>

abbreviation maxOf :: "sys \<Rightarrow> int" where
  "maxOf s \<equiv> c_Max (p_cfg (s_pool s))"

lemma sys_own_run:
  "sys_own (s\<lparr>s_pool := p', s_thr := (s_thr s)(i := TRun pc')\<rparr>) =
     (sys_own s)\<lparr>w_idle := p_idle p', w_held := (w_held (sys_own s))(Some i := run_holds pc')\<rparr>"
  by (auto simp: sys_own_def fun_eq_iff split: option.splits)

lemma sys_own_reap:
  "sys_own (s\<lparr>s_pool := p', s_reap := pc'\<rparr>) =
     (sys_own s)\<lparr>w_idle := p_idle p', w_held := (w_held (sys_own s))(None := reap_holds pc')\<rparr>"
  by (auto simp: sys_own_def fun_eq_iff split: option.splits)

lemma sys_own_close:
  "s_thr s i = TClose pc \<Longrightarrow>
   sys_own (s\<lparr>s_pool := p', s_thr := (s_thr s)(i := TClose pc')\<rparr>) =
     (sys_own s)\<lparr>w_idle := p_idle p'\<rparr>"
  by (auto simp: sys_own_def fun_eq_iff split: option.splits)

lemma sys_own_sel [simp]:
  "w_idle (sys_own s) = p_idle (s_pool s)"
  "w_held (sys_own s) None = reap_holds (s_reap s)"
  "w_held (sys_own s) (Some i) = thread_holds (s_thr s i)"
  by (simp_all add: sys_own_def)

lemma sys_own_idle [simp]:
  "(sys_own s)\<lparr>w_idle := p_idle (s_pool s), w_held := f\<rparr> = (sys_own s)\<lparr>w_held := f\<rparr>"
  "(sys_own s)\<lparr>w_idle := p_idle (s_pool s)\<rparr> = sys_own s"
  by (simp_all add: sys_own_def)

text \<open>
  The registry agrees with the tokens: \<open>all\<close> never names a holder that nobody has, an open
  pool has them all registered, and \<open>Close\<close> empties the registry before it drains the channel.
\<close>

fun close_ok :: "pstate \<Rightarrow> close_pc \<Rightarrow> bool" where
  "close_ok p ClEnter = True"
| "close_ok p ClNoop = True"
| "close_ok p ClStop = p_closed p"
| "close_ok p ClAwait = p_closed p"
| "close_ok p ClCollect = p_closed p"
| "close_ok p _ = (p_closed p \<and> p_all p = {})"

definition inv_reg :: "sys \<Rightarrow> bool" where
  "inv_reg s \<longleftrightarrow> p_all (s_pool s) \<subseteq> tokens s
     \<and> (\<not> p_closed (s_pool s) \<longrightarrow> tokens s \<subseteq> p_all (s_pool s))
     \<and> (\<forall>h \<in> tokens s. h < e_nextHid (s_pool s))
     \<and> (\<forall>i pc. s_thr s i = TClose pc \<longrightarrow> close_ok (s_pool s) pc)"

lemma sys_own_cong:
  "p_idle (s_pool t) = p_idle (s_pool s) \<Longrightarrow> s_reap t = s_reap s \<Longrightarrow>
   (\<And>i. thread_holds (s_thr t i) = thread_holds (s_thr s i)) \<Longrightarrow> sys_own t = sys_own s"
  by (auto simp: sys_own_def fun_eq_iff split: option.splits)

text \<open>A goroutine's effect is a step of the specification, or none.\<close>

lemma tok_eff_own:
  assumes eff: "tok_eff (s_pool s) p' X Y" and held: "w_held (sys_own s) x = X" and reg: "inv_reg s"
  shows "own_step (maxOf s) (sys_own s)
           ((sys_own s)\<lparr>w_idle := p_idle p', w_held := (w_held (sys_own s))(x := Y)\<rparr>)
       \<or> (sys_own s)\<lparr>w_idle := p_idle p', w_held := (w_held (sys_own s))(x := Y)\<rparr> = sys_own s"
  using eff
proof cases
  case eff_keep
  then show ?thesis using held by (simp add: fun_upd_idem)
next
  case (eff_take h hs)
  then show ?thesis using held own_take [of "sys_own s" h "p_idle p'" x] by simp
next
  case (eff_put h)
  then show ?thesis using held own_put [of "sys_own s" x h "maxOf s"] by (simp add: idleFull_def)
next
  case (eff_grow h)
  then have "p_all (s_pool s) = tokens s" "h \<notin> tokens s"
    using reg by (auto simp: inv_reg_def)
  then show ?thesis using eff_grow held own_grow [of "sys_own s" x h "maxOf s"] by simp
next
  case (eff_discard h)
  then show ?thesis using held own_discard [of "sys_own s" x h "maxOf s"] by simp
qed

lemma sys_step_refines:
  assumes "sys_step s t" and reg: "inv_reg s"
  shows "own_step (maxOf s) (sys_own s) (sys_own t) \<or> sys_own t = sys_own s"
  using assms(1)
proof cases
  case (spawn_run i)
  then have "sys_own t = sys_own s" by (intro sys_own_cong) auto
  then show ?thesis ..
next
  case (spawn_close i)
  then have "sys_own t = sys_own s" by (intro sys_own_cong) auto
  then show ?thesis ..
next
  case (tick d)
  then have "sys_own t = sys_own s" by (intro sys_own_cong) auto
  then show ?thesis ..
next
  case (run i pc a pc' p')
  have "w_held (sys_own s) (Some i) = run_holds pc" using run(3) by simp
  from tok_eff_own [OF run_step_eff [OF run(4)] this reg] show ?thesis
    unfolding run(1) sys_own_run .
next
  case (close i pc a pc' p')
  from close_step_eff [OF close(4)]
  consider "p_idle p' = p_idle (s_pool s)" | h where "p_idle (s_pool s) = h # p_idle p'" by blast
  then show ?thesis
  proof cases
    case 1
    then show ?thesis unfolding close(1) sys_own_close [OF close(3)] by simp
  next
    case 2
    then show ?thesis
      unfolding close(1) sys_own_close [OF close(3)] using own_drain [of "sys_own s"] by simp
  qed
next
  case (reap a pc' p')
  have "w_held (sys_own s) None = reap_holds (s_reap s)" by simp
  from tok_eff_own [OF reap_step_eff [OF reap(3)] this reg] show ?thesis
    unfolding reap(1) sys_own_reap .
qed

section \<open>The registry invariant\<close>

lemma tok_eff_empty: "tok_eff p p' X Y \<Longrightarrow> p_closed p \<Longrightarrow> p_all p = {} \<Longrightarrow> p_all p' = {}"
  by (auto elim: tok_eff.cases)

lemma close_ok_mono:
  "close_ok p pc \<Longrightarrow> (p_closed p \<Longrightarrow> p_closed p') \<Longrightarrow>
   (p_closed p \<Longrightarrow> p_all p = {} \<Longrightarrow> p_all p' = {}) \<Longrightarrow> close_ok p' pc"
  by (cases pc) auto

lemma close_step_ok:
  assumes "close_step pc a p = Some (pc', p')" and "close_ok p pc"
  shows "close_ok p' pc'"
proof (cases pc)
  case ClCollect
  then obtain hs where "pc' = ClDrain hs" "p' = collectAll p"
    using assms by (cases a) (auto split: if_splits)
  then show ?thesis using assms(2) ClCollect by (simp add: collectAll_def)
next
  case (ClEach hs e)
  then show ?thesis using assms
    by (cases hs) (auto simp: closeImpl_def split: answer.splits option.splits)
qed (use assms in \<open>auto simp: recvIdle_Some split: answer.splits if_splits option.splits\<close>)

lemma close_step_reg:
  assumes "close_step pc a p = Some (pc', p')" and "close_ok p pc"
  shows "(p_idle p' = p_idle p \<and> p_all p' = p_all p)
    \<or> (p_closed p' \<and> p_all p' = {} \<and> set (p_idle p') \<subseteq> set (p_idle p))"
proof (cases pc)
  case ClCollect
  then have "p' = collectAll p" using assms by (cases a) (simp_all split: if_splits)
  then show ?thesis using assms(2) ClCollect by (simp add: collectAll_def)
next
  case (ClEach hs e)
  then show ?thesis using assms
    by (cases hs) (auto simp: closeImpl_def split: answer.splits option.splits)
qed (use assms in \<open>auto simp: recvIdle_Some split: answer.splits if_splits option.splits\<close>)

text \<open>What a goroutine's effect does to the registry part of the invariant.\<close>

lemma tok_eff_reg:
  assumes eff: "tok_eff (s_pool s) p' X Y" and held: "w_held (sys_own s) x = X"
    and reg: "inv_reg s" and dis: "own_disjoint (sys_own s)"
    and closed: "p_closed p' = p_closed (s_pool s)"
    and w': "w' = (sys_own s)\<lparr>w_idle := p_idle p', w_held := (w_held (sys_own s))(x := Y)\<rparr>"
  shows "p_all p' \<subseteq> own_tokens w'" and "\<not> p_closed p' \<longrightarrow> own_tokens w' \<subseteq> p_all p'"
    and "\<forall>h \<in> own_tokens w'. h < e_nextHid p'"
proof -
  note regs = reg [unfolded inv_reg_def]
  have tw: "own_tokens w' = set (p_idle p') \<union> Y \<union> (\<Union>y \<in> - {x}. w_held (sys_own s) y)"
    unfolding w' by (rule own_tokens_update)
  have ts: "tokens s = set (p_idle (s_pool s)) \<union> X \<union> (\<Union>y \<in> - {x}. w_held (sys_own s) y)"
    using own_tokens_split [of "sys_own s" x] held by simp
  have fresh: "e_nextHid (s_pool s) \<notin> tokens s" using regs by auto
  have "p_all p' \<subseteq> own_tokens w' \<and> (\<not> p_closed p' \<longrightarrow> own_tokens w' \<subseteq> p_all p')
    \<and> (\<forall>h \<in> own_tokens w'. h < e_nextHid p')"
    using eff
  proof cases
    case eff_keep
    then have "own_tokens w' = tokens s" using tw ts by simp
    then show ?thesis using eff_keep regs closed by simp
  next
    case (eff_take h hs)
    then have "own_tokens w' = tokens s"
      using tw ts by auto
    then show ?thesis using eff_take regs closed by simp
  next
    case (eff_put h)
    then have "own_tokens w' = tokens s"
      using tw ts by auto
    then show ?thesis using eff_put regs closed by simp
  next
    case (eff_grow h)
    then have "own_tokens w' = insert h (tokens s)"
      using tw ts by auto
    then show ?thesis using eff_grow regs closed by (auto simp: less_Suc_eq)
  next
    case (eff_discard h)
    then have h: "h \<in> w_held (sys_own s) x" using held by simp
    have "h \<notin> set (p_idle (s_pool s))" using own_disjoint_idle [OF dis h] by simp
    moreover have "\<And>y. y \<noteq> x \<Longrightarrow> h \<notin> w_held (sys_own s) y" using own_disjoint_held [OF dis h] by blast
    ultimately have "own_tokens w' = tokens s - {h}"
      using tw ts eff_discard by auto
    then show ?thesis using eff_discard regs closed by auto
  qed
  then show "p_all p' \<subseteq> own_tokens w'" and "\<not> p_closed p' \<longrightarrow> own_tokens w' \<subseteq> p_all p'"
    and "\<forall>h \<in> own_tokens w'. h < e_nextHid p'" by auto
qed

lemma sys_step_reg:
  assumes "sys_step s t" and reg: "inv_reg s" and dis: "own_disjoint (sys_own s)"
  shows "inv_reg t"
  using assms(1)
proof cases
  case (spawn_run i)
  then have "sys_own t = sys_own s" by (intro sys_own_cong) auto
  then show ?thesis using reg spawn_run by (auto simp: inv_reg_def)
next
  case (spawn_close i)
  then have "sys_own t = sys_own s" by (intro sys_own_cong) auto
  then show ?thesis using reg spawn_close by (auto simp: inv_reg_def)
next
  case (tick d)
  then have "sys_own t = sys_own s" by (intro sys_own_cong) auto
  moreover have "\<And>pc. close_ok (s_pool s) pc \<Longrightarrow> close_ok (s_pool t) pc"
    using tick by (auto elim: close_ok_mono)
  ultimately show ?thesis using reg tick by (auto simp: inv_reg_def)
next
  case (run i pc a pc' p')
  have held: "w_held (sys_own s) (Some i) = run_holds pc" using run(3) by simp
  note eff = run_step_eff [OF run(4)] and closed = run_step_closed [OF run(4)]
  have "\<And>c. close_ok (s_pool s) c \<Longrightarrow> close_ok p' c"
    using tok_eff_empty [OF eff] closed by (auto elim: close_ok_mono)
  then show ?thesis
    using tok_eff_reg [OF eff held reg dis closed refl] reg
    unfolding run(1) inv_reg_def sys_own_run by auto
next
  case (close i pc a pc' p')
  note eff = close_step_eff [OF close(4)]
  have ok: "close_ok (s_pool s) pc" using reg close(3) by (auto simp: inv_reg_def)
  have "\<And>c. close_ok (s_pool s) c \<Longrightarrow> close_ok p' c"
    using eff by (auto elim: close_ok_mono)
  moreover have "close_ok p' pc'" by (rule close_step_ok [OF close(4) ok])
  moreover have "p_all p' \<subseteq> own_tokens ((sys_own s)\<lparr>w_idle := p_idle p'\<rparr>)
      \<and> (\<not> p_closed p' \<longrightarrow> own_tokens ((sys_own s)\<lparr>w_idle := p_idle p'\<rparr>) \<subseteq> p_all p')
      \<and> (\<forall>h \<in> own_tokens ((sys_own s)\<lparr>w_idle := p_idle p'\<rparr>). h < e_nextHid p')"
    using close_step_reg [OF close(4) ok]
  proof
    assume "p_idle p' = p_idle (s_pool s) \<and> p_all p' = p_all (s_pool s)"
    then show ?thesis using reg eff by (auto simp: inv_reg_def)
  next
    assume *: "p_closed p' \<and> p_all p' = {} \<and> set (p_idle p') \<subseteq> set (p_idle (s_pool s))"
    then have "own_tokens ((sys_own s)\<lparr>w_idle := p_idle p'\<rparr>) \<subseteq> tokens s"
      by (auto simp: own_tokens_def)
    then show ?thesis using * reg eff by (auto simp: inv_reg_def)
  qed
  ultimately show ?thesis
    using reg unfolding close(1) inv_reg_def sys_own_close [OF close(3)] by auto
next
  case (reap a pc' p')
  have held: "w_held (sys_own s) None = reap_holds (s_reap s)" by simp
  note eff = reap_step_eff [OF reap(3)] and closed = reap_step_closed [OF reap(3)]
  have "\<And>c. close_ok (s_pool s) c \<Longrightarrow> close_ok p' c"
    using tok_eff_empty [OF eff] closed by (auto elim: close_ok_mono)
  then show ?thesis
    using tok_eff_reg [OF eff held reg dis closed refl] reg
    unfolding reap(1) inv_reg_def sys_own_reap by auto
qed

end
