(* ===== verification/Pool_Holders.thy ===== *)
theory Pool_Holders
  imports Pool_Safety
begin

text \<open>
  What every goroutine knows about the holder it works on: it is usable, its mutex is locked by
  this goroutine alone, and no call through a nil interface can happen outside \<open>Close\<close>.
\<close>

definition ready :: "pstate \<Rightarrow> hid \<Rightarrow> bool" where
  "ready p h \<longleftrightarrow> h_impl (e_heap p h) \<noteq> None \<and> h_dead (e_heap p h) = None"

definition locked :: "pstate \<Rightarrow> hid \<Rightarrow> bool" where
  "locked p h \<longleftrightarrow> h < e_nextHid p \<and> h_mu (e_heap p h) \<and> h_impl (e_heap p h) \<noteq> None"

definition reserved :: "pstate \<Rightarrow> hid \<Rightarrow> bool" where
  "reserved p h \<longleftrightarrow> h_impl (e_heap p h) = None \<and> h_dead (e_heap p h) = None
     \<and> \<not> h_mu (e_heap p h)"

lemmas holder_defs = ready_def locked_def reserved_def

fun run_ok :: "pstate \<Rightarrow> run_pc \<Rightarrow> bool" where
  "run_ok p (AcqBuild h) = reserved p h"
| "run_ok p (AcqUndo h e) = reserved p h"
| "run_ok p (RunLock h) = ready p h"
| "run_ok p (RunExec h) = (ready p h \<and> locked p h)"
| "run_ok p (RunProbe h out) = (ready p h \<and> locked p h)"
| "run_ok p (RunRelease h out) = (ready p h \<and> locked p h)"
| "run_ok p (RunSend h out) = (ready p h \<and> locked p h)"
| "run_ok p (RunDrop h out) = locked p h"
| "run_ok p (RunTear h out) = locked p h"
| "run_ok p (RunUnlock h out) = locked p h"
| "run_ok p (RunPanic X) = False"
| "run_ok p _ = True"

fun reap_ok :: "pstate \<Rightarrow> reap_pc \<Rightarrow> bool" where
  "reap_ok p (RpAge t h) = ready p h"
| "reap_ok p (RpPut h) = ready p h"
| "reap_ok p (RpDrop t h) = ready p h"
| "reap_ok p (RpTear t h) = (h < e_nextHid p \<and> h_impl (e_heap p h) \<noteq> None)"
| "reap_ok p RpPanic = False"
| "reap_ok p _ = True"

definition inv_heap :: "sys \<Rightarrow> bool" where
  "inv_heap s \<longleftrightarrow> (\<forall>h \<in> set (p_idle (s_pool s)). ready (s_pool s) h)
     \<and> (\<forall>i pc. s_thr s i = TRun pc \<longrightarrow> run_ok (s_pool s) pc)
     \<and> reap_ok (s_pool s) (s_reap s)
     \<and> (\<forall>i j. i \<noteq> j \<longrightarrow> thread_locks (s_thr s i) \<inter> thread_locks (s_thr s j) = {})
     \<and> (\<forall>h. h_mu (e_heap (s_pool s) h) \<longrightarrow> (\<exists>i. h \<in> thread_locks (s_thr s i)))"

lemma run_ok_locks: "run_ok p pc \<Longrightarrow> h \<in> run_locks pc \<Longrightarrow> locked p h"
  by (cases pc) auto

lemma run_step_next:
  "run_step pc a p = Some (pc', p') \<Longrightarrow> e_nextHid p \<le> e_nextHid p'"
  using run_step_eff [of pc a p pc' p'] by (auto elim: tok_eff.cases)

lemma reap_step_next:
  "reap_step pc a p = Some (pc', p') \<Longrightarrow> e_nextHid p \<le> e_nextHid p'"
  using reap_step_eff [of pc a p pc' p'] by (auto elim: tok_eff.cases)

text \<open>How a step of \<open>Run\<close> can change an existing holder.\<close>

lemma run_step_change:
  assumes "run_step pc a p = Some (pc', p')" and "h \<noteq> e_nextHid p" and "e_heap p' h \<noteq> e_heap p h"
  shows "(h \<in> run_locks pc \<and> h \<in> run_holds pc) \<or> pc = AcqBuild h
    \<or> (pc = RunLock h \<and> \<not> h_mu (e_heap p h))
    \<or> (h \<in> run_locks pc \<and> e_heap p' h = (e_heap p h)\<lparr>h_mu := False\<rparr>)"
  using assms by (cases pc) (auto simp: pool_defs Let_def split: pool_splits)

lemma run_step_ok:
  assumes "run_step pc a p = Some (pc', p')" and "run_ok p pc"
    and "\<forall>h \<in> set (p_idle p). ready p h" and "\<forall>h \<in> run_holds pc. h < e_nextHid p"
  shows "run_ok p' pc'"
  using assms
  by (cases pc) (auto simp: holder_defs pool_defs Let_def split: pool_splits)

lemma run_step_sent:
  assumes "run_step pc a p = Some (pc', p')" and "run_ok p pc"
  shows "\<forall>h \<in> set (p_idle p') - set (p_idle p). ready p' h"
  using assms
  by (cases pc) (auto simp: holder_defs pool_defs Let_def split: pool_splits)

lemma run_step_locks:
  assumes "run_step pc a p = Some (pc', p')" and "h \<in> run_locks pc'"
  shows "h \<in> run_locks pc \<or> \<not> h_mu (e_heap p h)"
  using assms by (cases pc) (auto simp: pool_defs Let_def split: pool_splits)

lemma run_step_mu:
  assumes "run_step pc a p = Some (pc', p')" and "h_mu (e_heap p' h)" and "run_ok p pc"
  shows "h \<in> run_locks pc' \<or> (h \<notin> run_locks pc \<and> h_mu (e_heap p h))"
  using assms
  by (cases pc) (auto simp: holder_defs pool_defs Let_def split: pool_splits)

lemma reap_step_ok:
  assumes "reap_step pc a p = Some (pc', p')" and "reap_ok p pc"
    and "\<forall>h \<in> set (p_idle p). ready p h" and "\<forall>h \<in> reap_holds pc. h < e_nextHid p"
  shows "reap_ok p' pc' \<and> (\<forall>h \<in> set (p_idle p'). ready p' h)"
  using assms
  by (cases pc) (auto simp: holder_defs pool_defs Let_def split: pool_splits)

section \<open>Every step keeps it\<close>

text \<open>
  Another goroutine's facts survive a step: the holders it refers to are unchanged, or only
  their mutex was released.
\<close>

lemma run_ok_frame:
  assumes "run_ok p pc" and "e_nextHid p \<le> e_nextHid p'"
    and "\<And>h. h \<in> run_holds pc \<union> run_locks pc \<Longrightarrow> e_heap p' h = e_heap p h
          \<or> (h \<notin> run_locks pc \<and> e_heap p' h = (e_heap p h)\<lparr>h_mu := False\<rparr>)"
  shows "run_ok p' pc"
  using assms by (cases pc) (force simp: holder_defs)+

lemma inv_heap_spawn:
  assumes "inv_heap s" and "s_thr s i = Vacant" and "run_ok (s_pool s) pc" and "run_locks pc = {}"
  shows "inv_heap (s\<lparr>s_thr := (s_thr s)(i := TRun pc)\<rparr>)"
proof -
  have "\<And>j. thread_locks (((s_thr s)(i := TRun pc)) j) = thread_locks (s_thr s j)"
    using assms by auto
  then show ?thesis using assms by (auto simp: inv_heap_def split: if_splits)
qed

lemma reserved_unlocked: "reserved p h \<Longrightarrow> \<not> locked p h"
  by (simp add: holder_defs)

lemma own_other:
  "own_disjoint (sys_own s) \<Longrightarrow> s_thr s i = TRun pc \<Longrightarrow> s_thr s j = TRun pc' \<Longrightarrow> i \<noteq> j \<Longrightarrow>
   h \<in> run_holds pc \<Longrightarrow> h \<notin> run_holds pc'"
  using own_disjoint_held [of "sys_own s" h "Some i" "Some j"] by auto

lemma run_step_other:
  assumes inv: "inv_heap s" and dis: "own_disjoint (sys_own s)"
    and alloc: "\<forall>h \<in> tokens s. h < e_nextHid (s_pool s)"
    and i: "s_thr s i = TRun pc" and j: "s_thr s j = TRun pcj" and ij: "i \<noteq> j"
    and step: "run_step pc a (s_pool s) = Some (pc', p')"
  shows "run_ok p' pcj"
proof (rule run_ok_frame [OF _ run_step_next [OF step]])
  have oki: "run_ok (s_pool s) pc" and okj: "run_ok (s_pool s) pcj"
    and locks: "run_locks pc \<inter> run_locks pcj = {}"
    using inv i j ij unfolding inv_heap_def by (blast, blast, metis thread_locks.simps(1))
  show "run_ok (s_pool s) pcj" by (rule okj)
  fix h assume h: "h \<in> run_holds pcj \<union> run_locks pcj"
  have "h \<noteq> e_nextHid (s_pool s)"
  proof (cases "h \<in> run_locks pcj")
    case True
    then show ?thesis using run_ok_locks [OF okj] by (auto simp: locked_def)
  next
    case False
    then have "h \<in> w_held (sys_own s) (Some j)" using h j by simp
    then show ?thesis using alloc held_subset_tokens by fastforce
  qed
  note change = run_step_change [OF step this]
  show "e_heap p' h = e_heap (s_pool s) h
      \<or> (h \<notin> run_locks pcj \<and> e_heap p' h = (e_heap (s_pool s) h)\<lparr>h_mu := False\<rparr>)"
  proof (cases "e_heap p' h = e_heap (s_pool s) h")
    case False
    note nh = own_other [OF dis i j ij, of h]
    from change [OF False] consider
        (both) "h \<in> run_locks pc" "h \<in> run_holds pc"
      | (build) "pc = AcqBuild h"
      | (lock) "pc = RunLock h" "\<not> h_mu (e_heap (s_pool s) h)"
      | (unlock) "h \<in> run_locks pc" "e_heap p' h = (e_heap (s_pool s) h)\<lparr>h_mu := False\<rparr>"
      by blast
    then show ?thesis
    proof cases
      case both
      then show ?thesis using nh h locks by auto
    next
      case build
      then have "h \<in> run_locks pcj" using nh h by auto
      then show ?thesis using run_ok_locks [OF okj] oki build by (auto dest: reserved_unlocked)
    next
      case lock
      then have "h \<in> run_locks pcj" using nh h by auto
      then show ?thesis using run_ok_locks [OF okj] lock by (auto simp: locked_def)
    next
      case unlock
      then show ?thesis using locks by auto
    qed
  qed simp
qed

text \<open>Parked holders and the reaper's holder survive a step of \<open>Run\<close> too.\<close>

lemma run_step_ready:
  assumes step: "run_step pc a p = Some (pc', p')" and "ready p h" and "h \<noteq> e_nextHid p"
    and "h \<notin> run_holds pc"
  shows "ready p' h"
proof (cases "e_heap p' h = e_heap p h")
  case False
  from run_step_change [OF step assms(3) this] assms(4)
  have "e_heap p' h = (e_heap p h)\<lparr>h_mu := False\<rparr>" by auto
  then show ?thesis using assms(2) by (simp add: ready_def)
qed (use assms in \<open>simp add: ready_def\<close>)

lemma run_step_impl:
  assumes "run_step pc a p = Some (pc', p')" and "h_impl (e_heap p h) = Some i" and "h \<noteq> e_nextHid p"
    and "run_ok p pc"
  shows "h_impl (e_heap p' h) = Some i"
  using assms
  by (cases pc) (auto simp: holder_defs pool_defs Let_def split: pool_splits)

lemma reap_ok_frame:
  assumes "reap_ok p pc" and "e_nextHid p \<le> e_nextHid p'"
    and "\<And>h. h \<in> reap_holds pc \<Longrightarrow> ready p h \<Longrightarrow> ready p' h"
    and "\<And>h. h < e_nextHid p \<Longrightarrow> h_impl (e_heap p h) \<noteq> None \<Longrightarrow> h_impl (e_heap p' h) \<noteq> None"
  shows "reap_ok p' pc"
  using assms by (cases pc) (auto elim: less_le_trans)

lemma thread_locks_ok:
  "inv_heap s \<Longrightarrow> h \<in> thread_locks (s_thr s j) \<Longrightarrow> locked (s_pool s) h"
  by (cases "s_thr s j") (auto simp: inv_heap_def dest: run_ok_locks)

lemma inv_heap_run:
  assumes inv: "inv_heap s" and dis: "own_disjoint (sys_own s)"
    and alloc: "\<forall>h \<in> tokens s. h < e_nextHid (s_pool s)"
    and i: "s_thr s i = TRun pc" and step: "run_step pc a (s_pool s) = Some (pc', p')"
  shows "inv_heap (s\<lparr>s_pool := p', s_thr := (s_thr s)(i := TRun pc')\<rparr>)"
proof -
  let ?p = "s_pool s"
  have ok: "run_ok ?p pc" and idle: "\<forall>h \<in> set (p_idle ?p). ready ?p h"
    and reap: "reap_ok ?p (s_reap s)"
    and lck: "\<And>j k. j \<noteq> k \<Longrightarrow> thread_locks (s_thr s j) \<inter> thread_locks (s_thr s k) = {}"
    and mu: "\<And>h. h_mu (e_heap ?p h) \<Longrightarrow> \<exists>k. h \<in> thread_locks (s_thr s k)"
    using inv i unfolding inv_heap_def by blast+
  have held: "w_held (sys_own s) (Some i) = run_holds pc" using i by simp
  have small: "\<forall>h \<in> run_holds pc. h < e_nextHid ?p"
    using alloc held_subset_tokens [of "sys_own s" "Some i"] held by auto
  have "\<forall>h \<in> set (p_idle p'). ready p' h"
  proof
    fix h assume h: "h \<in> set (p_idle p')"
    show "ready p' h"
    proof (cases "h \<in> set (p_idle ?p)")
      case True
      then have "h \<notin> run_holds pc" using own_disjoint_idle [OF dis, of h "Some i"] held by auto
      moreover have "h \<noteq> e_nextHid ?p"
        using alloc idle_subset_tokens [of "sys_own s"] True by fastforce
      ultimately show ?thesis using run_step_ready [OF step] idle True by blast
    next
      case False
      then show ?thesis using run_step_sent [OF step ok] h by blast
    qed
  qed
  moreover have "\<And>j pcj. ((s_thr s)(i := TRun pc')) j = TRun pcj \<Longrightarrow> run_ok p' pcj"
    using run_step_ok [OF step ok idle small] run_step_other [OF inv dis alloc i _ _ step]
    by (auto split: if_splits)
  moreover have "reap_ok p' (s_reap s)"
  proof (rule reap_ok_frame [OF reap run_step_next [OF step]])
    fix h assume h: "h \<in> reap_holds (s_reap s)" and "ready ?p h"
    then have "h \<in> w_held (sys_own s) None" by simp
    then have "h \<notin> run_holds pc" and "h \<noteq> e_nextHid ?p"
      using own_disjoint_held [OF dis, of h None "Some i"] held alloc
        held_subset_tokens [of "sys_own s" None] by auto
    then show "ready p' h" using run_step_ready [OF step \<open>ready ?p h\<close>] by blast
  next
    fix h assume "h < e_nextHid ?p" "h_impl (e_heap ?p h) \<noteq> None"
    then show "h_impl (e_heap p' h) \<noteq> None" using run_step_impl [OF step _ _ ok] by fastforce
  qed
  moreover have "\<And>j. j \<noteq> i \<Longrightarrow> run_locks pc' \<inter> thread_locks (s_thr s j) = {}"
    using run_step_locks [OF step] thread_locks_ok [OF inv] lck [of i] i
    by (fastforce simp: locked_def)
  moreover have "\<And>h. h_mu (e_heap p' h) \<Longrightarrow>
      \<exists>k. h \<in> thread_locks (((s_thr s)(i := TRun pc')) k)"
  proof -
    fix h assume h: "h_mu (e_heap p' h)"
    from run_step_mu [OF step h ok] show "\<exists>k. h \<in> thread_locks (((s_thr s)(i := TRun pc')) k)"
    proof
      assume "h \<in> run_locks pc'"
      then show ?thesis by (intro exI [of _ i]) simp
    next
      assume h: "h \<notin> run_locks pc \<and> h_mu (e_heap ?p h)"
      then obtain k where "h \<in> thread_locks (s_thr s k)" using mu by blast
      then show ?thesis using h i by (intro exI [of _ k]) auto
    qed
  qed
  ultimately show ?thesis using lck by (auto simp: inv_heap_def Int_commute)
qed

lemma inv_heap_reap:
  assumes inv: "inv_heap s" and alloc: "\<forall>h \<in> tokens s. h < e_nextHid (s_pool s)"
    and step: "reap_step (s_reap s) a (s_pool s) = Some (pc', p')"
  shows "inv_heap (s\<lparr>s_pool := p', s_reap := pc'\<rparr>)"
proof -
  have small: "\<forall>h \<in> reap_holds (s_reap s). h < e_nextHid (s_pool s)"
    using alloc held_subset_tokens [of "sys_own s" None] by auto
  have "\<And>pc. run_ok (s_pool s) pc \<Longrightarrow> run_ok p' pc"
    using reap_step_heap [OF step] reap_step_next [OF step] by (auto intro: run_ok_frame)
  moreover have "reap_ok p' pc' \<and> (\<forall>h \<in> set (p_idle p'). ready p' h)"
    using inv by (intro reap_step_ok [OF step _ _ small]) (auto simp: inv_heap_def)
  ultimately show ?thesis
    using inv reap_step_heap [OF step] by (auto simp: inv_heap_def)
qed

lemma inv_heap_close:
  assumes inv: "inv_heap s" and i: "s_thr s i = TClose pc"
    and step: "close_step pc a (s_pool s) = Some (pc', p')"
  shows "inv_heap (s\<lparr>s_pool := p', s_thr := (s_thr s)(i := TClose pc')\<rparr>)"
proof -
  note heap = close_step_heap [OF step] and eff = close_step_eff [OF step]
  have "\<And>pc. run_ok (s_pool s) pc \<Longrightarrow> run_ok p' pc"
    using heap eff by (auto intro: run_ok_frame)
  moreover have "\<And>pc. reap_ok (s_pool s) pc \<Longrightarrow> reap_ok p' pc"
    using heap eff by (auto intro: reap_ok_frame simp: ready_def)
  moreover have "\<forall>h \<in> set (p_idle p'). ready p' h"
    using inv heap eff by (auto simp: inv_heap_def ready_def)
  moreover have "thread_locks \<circ> ((s_thr s)(i := TClose pc')) = thread_locks \<circ> s_thr s"
    using i by (auto simp: fun_eq_iff)
  then have "\<And>j. thread_locks (((s_thr s)(i := TClose pc')) j) = thread_locks (s_thr s j)"
    by (simp add: fun_eq_iff)
  ultimately show ?thesis using inv heap by (auto simp: inv_heap_def split: if_splits)
qed

lemma sys_step_heap:
  assumes "sys_step s t" and inv: "inv_heap s" and dis: "own_disjoint (sys_own s)"
    and alloc: "\<forall>h \<in> tokens s. h < e_nextHid (s_pool s)"
  shows "inv_heap t"
  using assms(1)
proof cases
  case (spawn_run i)
  then show ?thesis using inv by (auto intro: inv_heap_spawn)
next
  case (spawn_close i)
  have "\<And>j. thread_locks (((s_thr s)(i := TClose ClEnter)) j) = thread_locks (s_thr s j)"
    using spawn_close by auto
  then show ?thesis using inv spawn_close by (auto simp: inv_heap_def split: if_splits)
next
  case (run i pc a pc' p')
  then show ?thesis using inv_heap_run [OF inv dis alloc] by blast
next
  case (close i pc a pc' p')
  then show ?thesis using inv_heap_close [OF inv] by blast
next
  case (reap a pc' p')
  then show ?thesis using inv_heap_reap [OF inv alloc] by blast
next
  case (tick d)
  have "\<And>pc. run_ok (s_pool s) pc \<Longrightarrow> run_ok (s_pool t) pc"
    using tick by (auto intro: run_ok_frame)
  moreover have "\<And>pc. reap_ok (s_pool s) pc \<Longrightarrow> reap_ok (s_pool t) pc"
    using tick by (auto intro: reap_ok_frame simp: ready_def)
  ultimately show ?thesis using inv tick by (auto simp: inv_heap_def ready_def)
qed

end
