(* ===== verification/Pool_Ledger.thy ===== *)
theory Pool_Ledger
  imports Pool_Holders
begin

text \<open>
  The ledger of backend instances: an instance that was made and not closed belongs to a
  holder that is registered, or that some goroutine is about to close. From it follows that a
  pool that was closed, and whose calls of \<open>Run\<close> have returned, leaks no instance.
\<close>

definition inv_ledger :: "sys \<Rightarrow> bool" where
  "inv_ledger s \<longleftrightarrow>
     (\<forall>h i. h_impl (e_heap (s_pool s) h) = Some i \<longrightarrow>
        i \<in> set (e_torn (s_pool s)) \<or> h \<in> p_all (s_pool s) \<or> h \<in> pending s)
   \<and> (\<forall>i < e_nextImpl (s_pool s). \<exists>h. h_impl (e_heap (s_pool s) h) = Some i)
   \<and> (\<forall>h. e_nextHid (s_pool s) \<le> h \<longrightarrow> h_impl (e_heap (s_pool s) h) = None)
   \<and> (\<forall>j h. s_thr s j = TRun (AcqBuild h) \<longrightarrow> h \<in> p_all (s_pool s) \<or> h \<in> pending s)"

definition pending_but :: "nat \<Rightarrow> sys \<Rightarrow> hid set" where
  "pending_but i s = (\<Union>j \<in> - {i}. thread_pending (s_thr s j)) \<union> reap_pending (s_reap s)"

lemma pending_split: "pending s = thread_pending (s_thr s i) \<union> pending_but i s"
  by (auto simp: pending_def pending_but_def)

lemma pending_update:
  "pending (s\<lparr>s_pool := p', s_thr := (s_thr s)(i := x)\<rparr>) = thread_pending x \<union> pending_but i s"
  "pending (s\<lparr>s_thr := (s_thr s)(i := x)\<rparr>) = thread_pending x \<union> pending_but i s"
  by (auto simp: pending_def pending_but_def split: if_splits)

lemma pending_reap:
  "pending (s\<lparr>s_pool := p', s_reap := pc'\<rparr>)
     = (\<Union>i. thread_pending (s_thr s i)) \<union> reap_pending pc'"
  by (simp add: pending_def)

text \<open>Where a step of \<open>Run\<close> leaves each instance.\<close>

lemma run_step_account:
  assumes "run_step pc a p = Some (pc', p')" and "run_ok p pc" and "h_impl (e_heap p' h) = Some i"
    and "\<And>g. e_nextHid p \<le> g \<Longrightarrow> h_impl (e_heap p g) = None"
  shows "i \<in> set (e_torn p') \<or> h \<in> p_all p' \<or> h \<in> run_pending pc'
    \<or> (pc = AcqBuild h \<and> p_all p' = p_all p)
    \<or> (h_impl (e_heap p h) = Some i \<and> i \<notin> set (e_torn p) \<and> h \<notin> p_all p \<and> h \<notin> run_pending pc)"
  using assms
  by (cases pc) (auto simp: holder_defs pool_defs Let_def split: pool_splits)

lemma run_step_made:
  assumes "run_step pc a p = Some (pc', p')" and "run_ok p pc" and "i < e_nextImpl p'"
  shows "i < e_nextImpl p \<or> (\<exists>h. h_impl (e_heap p' h) = Some i)"
  using assms
  by (cases pc) (auto simp: holder_defs pool_defs Let_def split: pool_splits)

lemma run_step_unborn:
  assumes "run_step pc a p = Some (pc', p')" and "run_ok p pc" and "e_nextHid p' \<le> h"
    and "\<And>g. e_nextHid p \<le> g \<Longrightarrow> h_impl (e_heap p g) = None" and "\<forall>g \<in> run_holds pc. g < e_nextHid p"
  shows "h_impl (e_heap p' h) = None"
  using assms
  by (cases pc) (auto simp: holder_defs pool_defs Let_def split: pool_splits)

lemma run_step_build:
  "run_step pc a p = Some (AcqBuild h, p') \<Longrightarrow> h \<in> p_all p'"
  by (cases pc) (auto simp: pool_defs Let_def split: pool_splits)

lemma run_step_all:
  assumes "run_step pc a p = Some (pc', p')"
  shows "p_all p - run_holds pc \<subseteq> p_all p'"
  using run_step_eff [OF assms] by (auto elim!: tok_eff.cases)

lemma run_pending_impl: "run_ok p pc \<Longrightarrow> h \<in> run_pending pc \<Longrightarrow> h_impl (e_heap p h) \<noteq> None"
  by (cases pc) (auto simp: holder_defs)

lemma run_step_torn: "run_step pc a p = Some (pc', p') \<Longrightarrow> set (e_torn p) \<subseteq> set (e_torn p')"
  by (cases pc) (auto simp: pool_defs Let_def split: pool_splits)

lemma inv_ledger_run:
  assumes inv: "inv_ledger s" and heap: "inv_heap s" and dis: "own_disjoint (sys_own s)"
    and alloc: "\<forall>h \<in> tokens s. h < e_nextHid (s_pool s)"
    and i: "s_thr s i = TRun pc" and step: "run_step pc a (s_pool s) = Some (pc', p')"
  shows "inv_ledger (s\<lparr>s_pool := p', s_thr := (s_thr s)(i := TRun pc')\<rparr>)"
proof -
  let ?p = "s_pool s" and ?t = "s\<lparr>s_pool := p', s_thr := (s_thr s)(i := TRun pc')\<rparr>"
  have ok: "run_ok ?p pc" using heap i by (auto simp: inv_heap_def)
  have pn: "pending s = run_pending pc \<union> pending_but i s" using pending_split [of s i] i by simp
  have acc: "\<And>h j. h_impl (e_heap ?p h) = Some j \<Longrightarrow>
      j \<in> set (e_torn ?p) \<or> h \<in> p_all ?p \<or> h \<in> run_pending pc \<or> h \<in> pending_but i s"
    using inv unfolding inv_ledger_def pn by blast
  have made: "\<And>j. j < e_nextImpl ?p \<Longrightarrow> \<exists>h. h_impl (e_heap ?p h) = Some j"
    and unborn: "\<And>h. e_nextHid ?p \<le> h \<Longrightarrow> h_impl (e_heap ?p h) = None"
    using inv unfolding inv_ledger_def by blast+
  have build: "\<And>j h. s_thr s j = TRun (AcqBuild h) \<Longrightarrow>
      h \<in> p_all ?p \<or> h \<in> run_pending pc \<or> h \<in> pending_but i s"
    using inv unfolding inv_ledger_def pn by blast
  have small: "\<forall>h \<in> run_holds pc. h < e_nextHid ?p"
    using alloc held_subset_tokens [of "sys_own s" "Some i"] i by auto
  have pend: "pending ?t = run_pending pc' \<union> pending_but i s" by (simp add: pending_update)
  have "\<And>h j. h_impl (e_heap p' h) = Some j \<Longrightarrow>
      j \<in> set (e_torn p') \<or> h \<in> p_all p' \<or> h \<in> pending ?t"
    using run_step_account [OF step ok _ unborn] acc build [of i] i run_step_torn [OF step]
    unfolding pend by (fastforce simp: run_pending.simps)
  moreover have "\<And>j. j < e_nextImpl p' \<Longrightarrow> \<exists>h. h_impl (e_heap p' h) = Some j"
  proof -
    fix j assume "j < e_nextImpl p'"
    from run_step_made [OF step ok this] show "\<exists>h. h_impl (e_heap p' h) = Some j"
    proof
      assume "j < e_nextImpl ?p"
      then obtain h where h: "h_impl (e_heap ?p h) = Some j" using made by blast
      then have "h \<noteq> e_nextHid ?p" using unborn by auto
      then show ?thesis using run_step_impl [OF step h _ ok] by blast
    qed
  qed
  moreover have "\<And>h. e_nextHid p' \<le> h \<Longrightarrow> h_impl (e_heap p' h) = None"
    using run_step_unborn [OF step ok _ unborn small] by blast
  moreover have "\<And>j h. ((s_thr s)(i := TRun pc')) j = TRun (AcqBuild h) \<Longrightarrow>
      h \<in> p_all p' \<or> h \<in> pending ?t"
  proof -
    fix j h assume *: "((s_thr s)(i := TRun pc')) j = TRun (AcqBuild h)"
    show "h \<in> p_all p' \<or> h \<in> pending ?t"
    proof (cases "j = i")
      case True
      then show ?thesis using * run_step_build step by auto
    next
      case False
      then have j: "s_thr s j = TRun (AcqBuild h)" using * by simp
      then have "reserved ?p h" using heap by (fastforce simp: inv_heap_def)
      then have "h \<notin> run_pending pc" using run_pending_impl [OF ok, of h] by (auto simp: reserved_def)
      moreover have "h \<notin> run_holds pc" using own_other [OF dis j i False] by simp
      ultimately show ?thesis using build [OF j] run_step_all [OF step] unfolding pend by blast
    qed
  qed
  ultimately show ?thesis unfolding inv_ledger_def by simp
qed

lemma reap_step_ledger:
  assumes "reap_step pc a p = Some (pc', p')" and "reap_ok p pc"
  shows "e_nextImpl p' = e_nextImpl p" and "e_nextHid p' = e_nextHid p"
    and "set (e_torn p) \<subseteq> set (e_torn p')"
    and "p_all p \<subseteq> p_all p' \<union> reap_pending pc'"
    and "\<And>h i. h \<in> reap_pending pc \<Longrightarrow> h_impl (e_heap p h) = Some i \<Longrightarrow> i \<in> set (e_torn p')"
  using assms by (cases pc; auto simp: pool_defs split: pool_splits; fail)+

lemma close_step_ledger:
  assumes "close_step pc a p = Some (pc', p')"
  shows "e_nextImpl p' = e_nextImpl p \<and> set (e_torn p) \<subseteq> set (e_torn p')
    \<and> p_all p \<subseteq> p_all p' \<union> close_pending pc'
    \<and> (\<forall>h \<in> close_pending pc.
         h \<in> close_pending pc' \<or> (\<exists>i. h_impl (e_heap p h) = Some i \<and> i \<in> set (e_torn p')))"
proof (cases pc)
  case (ClEach hs e)
  then show ?thesis
    using assms by (cases hs) (auto simp: closeImpl_def split: answer.splits option.splits)
next
  case ClCollect
  then obtain hs where "pc' = ClDrain hs" "p' = collectAll p" "set hs = p_all p"
    using assms by (cases a) (auto split: if_splits)
  then show ?thesis using ClCollect by (simp add: collectAll_def)
qed (use assms in \<open>auto simp: recvIdle_Some split: answer.splits if_splits option.splits\<close>)

lemma inv_ledger_close:
  assumes inv: "inv_ledger s" and heap: "inv_heap s" and i: "s_thr s i = TClose pc"
    and step: "close_step pc a (s_pool s) = Some (pc', p')"
  shows "inv_ledger (s\<lparr>s_pool := p', s_thr := (s_thr s)(i := TClose pc')\<rparr>)"
proof -
  let ?p = "s_pool s" and ?t = "s\<lparr>s_pool := p', s_thr := (s_thr s)(i := TClose pc')\<rparr>"
  note led = close_step_ledger [OF step] and hp = close_step_heap [OF step]
    and nx = conjunct1 [OF close_step_eff [OF step]]
  have ps: "pending s = close_pending pc \<union> pending_but i s" using pending_split [of s i] i by simp
  have pt: "pending ?t = close_pending pc' \<union> pending_but i s" by (simp add: pending_update)
  have move: "h \<in> p_all p' \<or> h \<in> pending ?t \<or> (\<exists>j. h_impl (e_heap ?p h) = Some j \<and> j \<in> set (e_torn p'))"
    if "h \<in> p_all ?p \<or> h \<in> pending s" for h
    using that led unfolding ps pt by blast
  have "\<And>h j. h_impl (e_heap p' h) = Some j \<Longrightarrow> j \<in> set (e_torn p') \<or> h \<in> p_all p' \<or> h \<in> pending ?t"
    using inv move led hp unfolding inv_ledger_def by (metis option.inject subsetD)
  moreover have "\<And>k h. ((s_thr s)(i := TClose pc')) k = TRun (AcqBuild h) \<Longrightarrow>
      h \<in> p_all p' \<or> h \<in> pending ?t"
  proof -
    fix k h assume "((s_thr s)(i := TClose pc')) k = TRun (AcqBuild h)"
    then have k: "s_thr s k = TRun (AcqBuild h)" by (simp split: if_splits)
    then have "h_impl (e_heap ?p h) = None" using heap by (fastforce simp: inv_heap_def reserved_def)
    moreover have "h \<in> p_all ?p \<or> h \<in> pending s" using inv k unfolding inv_ledger_def by blast
    ultimately show "h \<in> p_all p' \<or> h \<in> pending ?t" using move by fastforce
  qed
  ultimately show ?thesis using inv led hp nx unfolding inv_ledger_def by simp
qed

lemma inv_ledger_reap:
  assumes inv: "inv_ledger s" and heap: "inv_heap s"
    and step: "reap_step (s_reap s) a (s_pool s) = Some (pc', p')"
  shows "inv_ledger (s\<lparr>s_pool := p', s_reap := pc'\<rparr>)"
proof -
  let ?p = "s_pool s" and ?t = "s\<lparr>s_pool := p', s_reap := pc'\<rparr>"
  have ok: "reap_ok ?p (s_reap s)" using heap by (simp add: inv_heap_def)
  note led = reap_step_ledger [OF step ok] and hp = reap_step_heap [OF step]
  have move: "h \<in> p_all p' \<or> h \<in> pending ?t \<or> (\<exists>j. h_impl (e_heap ?p h) = Some j \<and> j \<in> set (e_torn p'))"
    if "h \<in> p_all ?p \<or> h \<in> pending s" for h
  proof (cases "h \<in> reap_pending (s_reap s)")
    case True
    then have "h_impl (e_heap ?p h) \<noteq> None" using ok by (cases "s_reap s") auto
    then show ?thesis using led(5) [OF True] by auto
  next
    case False
    then show ?thesis using that led(4) by (auto simp: pending_def)
  qed
  have "\<And>h j. h_impl (e_heap p' h) = Some j \<Longrightarrow> j \<in> set (e_torn p') \<or> h \<in> p_all p' \<or> h \<in> pending ?t"
    using inv move led(3) hp unfolding inv_ledger_def by (metis option.inject subsetD)
  moreover have "\<And>k h. s_thr s k = TRun (AcqBuild h) \<Longrightarrow> h \<in> p_all p' \<or> h \<in> pending ?t"
  proof -
    fix k h assume k: "s_thr s k = TRun (AcqBuild h)"
    then have "h_impl (e_heap ?p h) = None" using heap by (fastforce simp: inv_heap_def reserved_def)
    moreover have "h \<in> p_all ?p \<or> h \<in> pending s" using inv k unfolding inv_ledger_def by blast
    ultimately show "h \<in> p_all p' \<or> h \<in> pending ?t" using move by fastforce
  qed
  ultimately show ?thesis using inv led(1,2) hp unfolding inv_ledger_def by simp
qed

lemma inv_ledger_idle:
  assumes "inv_ledger s" and "s_thr s i = Vacant" and "thread_pending x = {}" and "\<And>h. x \<noteq> TRun (AcqBuild h)"
  shows "inv_ledger (s\<lparr>s_thr := (s_thr s)(i := x)\<rparr>)"
proof -
  have "pending (s\<lparr>s_thr := (s_thr s)(i := x)\<rparr>) = pending s"
    using assms pending_split [of s i] by (simp add: pending_update)
  then show ?thesis using assms by (auto simp: inv_ledger_def)
qed

lemma sys_step_ledger:
  assumes "sys_step s t" and inv: "inv_ledger s" and heap: "inv_heap s"
    and dis: "own_disjoint (sys_own s)" and alloc: "\<forall>h \<in> tokens s. h < e_nextHid (s_pool s)"
  shows "inv_ledger t"
  using assms(1)
proof cases
  case (spawn_run i)
  then show ?thesis using inv by (auto intro: inv_ledger_idle)
next
  case (spawn_close i)
  then show ?thesis using inv by (auto intro: inv_ledger_idle)
next
  case (run i pc a pc' p')
  then show ?thesis using inv_ledger_run [OF inv heap dis alloc] by blast
next
  case (close i pc a pc' p')
  then show ?thesis using inv_ledger_close [OF inv heap] by blast
next
  case (reap a pc' p')
  then show ?thesis using inv_ledger_reap [OF inv heap] by blast
next
  case (tick d)
  then show ?thesis using inv by (auto simp: inv_ledger_def pending_def)
qed

end
