(* ===== verification/Pool_Facts.thy ===== *)
theory Pool_Facts
  imports Pool
begin

text \<open>
  The pool used by one caller at a time: configuration, construction, and the well-formedness
  that every operation of such a caller keeps.
\<close>

section \<open>Configuration\<close>

lemma normalize_Inr:
  "normalize c = Inr c' \<longleftrightarrow>
     0 \<le> c_Min c \<and> c_Min c \<le> max 1 (c_Max c) \<and> c' = c\<lparr>c_Max := max 1 (c_Max c)\<rparr>"
  by (cases c) (auto simp: normalize_def Let_def max_def)

lemma normalize_bounds:
  "normalize c = Inr c' \<Longrightarrow> 0 \<le> c_Min c' \<and> c_Min c' \<le> c_Max c' \<and> 1 \<le> c_Max c'
     \<and> c_IdleTimeout c' = c_IdleTimeout c \<and> c_Min c' = c_Min c"
  by (auto simp: normalize_Inr)

lemma normalize_idem: "normalize c = Inr c' \<Longrightarrow> normalize c' = Inr c'"
  by (cases c) (auto simp: normalize_Inr)

section \<open>Construction\<close>

text \<open>The pool with \<open>n\<close> warm holders made at time \<open>t\<close>: holder \<open>h\<close> has instance \<open>h\<close>.\<close>

definition warmPool :: "opts \<Rightarrow> pool_config \<Rightarrow> int \<Rightarrow> nat \<Rightarrow> pstate" where
  "warmPool o' c t n = (emptyPool o' c t)
     \<lparr>p_all := {0..<n}, p_idle := [0..<n], e_nextHid := n, e_nextImpl := n,
      e_heap := (\<lambda>h. if h < n
        then \<lparr>h_mu = False, h_impl = Some h, h_dead = None, h_lastUsed = t\<rparr>
        else \<lparr>h_mu = False, h_impl = None, h_dead = None, h_lastUsed = 0\<rparr>)\<rparr>"

lemma warmPool_sel [simp]:
  "p_opts (warmPool o' c t n) = o'" "p_cfg (warmPool o' c t n) = c"
  "p_all (warmPool o' c t n) = {0..<n}" "p_idle (warmPool o' c t n) = [0..<n]"
  "\<not> p_closed (warmPool o' c t n)" "\<not> p_reaperStop (warmPool o' c t n)"
  "p_reaperDone (warmPool o' c t n) \<longleftrightarrow> c_IdleTimeout c \<le> 0"
  "e_nextHid (warmPool o' c t n) = n" "e_nextImpl (warmPool o' c t n) = n"
  "e_now (warmPool o' c t n) = t" "e_torn (warmPool o' c t n) = []"
  by (simp_all add: warmPool_def emptyPool_def)

lemma warmPool_heap:
  "e_heap (warmPool o' c t n) h = (if h < n
     then \<lparr>h_mu = False, h_impl = Some h, h_dead = None, h_lastUsed = t\<rparr>
     else \<lparr>h_mu = False, h_impl = None, h_dead = None, h_lastUsed = 0\<rparr>)"
  by (simp add: warmPool_def emptyPool_def)

lemma warmPool_0: "warmPool o' c t 0 = emptyPool o' c t"
  by (simp add: warmPool_def emptyPool_def fun_eq_iff)

lemma warmPool_Suc:
  assumes "createHolder None (warmPool o' c t n) = (r, p)"
  shows "r = Inr n \<and> sendIdle n p = warmPool o' c t (Suc n)
    \<and> p_cfg p = c \<and> length (p_idle p) = n"
  using assms
  by (auto simp: createHolder_def freshImpl_def register_def sendIdle_def warmPool_def
      emptyPool_def Let_def fun_eq_iff atLeast0_lessThan_Suc)

lemma newPoolLoop_ok:
  "(\<forall>j. i \<le> j \<and> j < i + k \<longrightarrow> answers j = None) \<Longrightarrow> int (n + k) \<le> c_Max c \<Longrightarrow>
     newPoolLoop answers i k (warmPool o' c t n) = Returns (None, warmPool o' c t (n + k))"
proof (induction k arbitrary: i n)
  case 0
  then show ?case by simp
next
  case (Suc k)
  obtain r p where rp: "createHolder None (warmPool o' c t n) = (r, p)" by fastforce
  from warmPool_Suc [OF this] Suc.prems have "\<not> idleFull p" by (simp add: idleFull_def)
  moreover have "newPoolLoop answers (Suc i) k (warmPool o' c t (Suc n))
      = Returns (None, warmPool o' c t (Suc n + k))"
    using Suc.prems by (intro Suc.IH) auto
  ultimately show ?case using rp warmPool_Suc [OF rp] Suc.prems(1) by simp
qed

lemma newPoolLoop_fail:
  "(\<forall>j. i \<le> j \<and> j < i + m \<longrightarrow> answers j = None) \<Longrightarrow> answers (i + m) = Some e \<Longrightarrow> m < k \<Longrightarrow>
   int (n + k) \<le> c_Max c \<Longrightarrow>
     newPoolLoop answers i k (warmPool o' c t n)
       = Returns (Some (Wrap (''pool: creating min holder '' @ showInt (int (i + m) + 1) @ ''/''
           @ showInt (c_Min c) @ '': '') e), warmPool o' c t (n + m))"
proof (induction k arbitrary: i n m)
  case 0
  then show ?case by simp
next
  case (Suc k)
  show ?case
  proof (cases m)
    case 0
    then show ?thesis using Suc.prems
      by (simp add: createHolder_def warmPool_def emptyPool_def)
  next
    case (Suc m')
    obtain r p where rp: "createHolder None (warmPool o' c t n) = (r, p)" by fastforce
    from warmPool_Suc [OF this] Suc.prems have "\<not> idleFull p" by (simp add: idleFull_def)
    moreover have "newPoolLoop answers (Suc i) k (warmPool o' c t (Suc n))
        = Returns (Some (Wrap (''pool: creating min holder '' @ showInt (int (Suc i + m') + 1)
            @ ''/'' @ showInt (c_Min c) @ '': '') e), warmPool o' c t (Suc n + m'))"
      using Suc.prems Suc by (intro Suc.IH) auto
    moreover have "answers i = None" using Suc.prems(1) Suc by simp
    ultimately show ?thesis using rp warmPool_Suc [OF rp] Suc by simp
  qed
qed

text \<open>The pool of a configuration whose warm holders were all made.\<close>

definition startPool :: "int \<Rightarrow> int \<Rightarrow> int \<Rightarrow> pstate" where
  "startPool mn mx idle =
     warmPool startOpts \<lparr>c_Min = mn, c_Max = mx, c_IdleTimeout = idle\<rparr> 0 (nat mn)"

section \<open>Teardown\<close>

definition implOf :: "pstate \<Rightarrow> hid \<Rightarrow> iid" where
  "implOf p h = the (h_impl (e_heap p h))"

definition firstError :: "(hid \<Rightarrow> gerror option) \<Rightarrow> hid list \<Rightarrow> gerror option" where
  "firstError answers hs = (case find (\<lambda>h. answers h \<noteq> None) hs of None \<Rightarrow> None | Some h \<Rightarrow> answers h)"

lemma closeAll_returns:
  "\<forall>h \<in> set hs. h_impl (e_heap p h) \<noteq> None \<Longrightarrow>
     closeAll hs answers e p
       = Returns (if e = None then firstError answers hs else e,
                  p\<lparr>e_torn := e_torn p @ map (implOf p) hs\<rparr>)"
proof (induction hs arbitrary: p e)
  case Nil
  then show ?case by (simp add: firstError_def)
next
  case (Cons h hs)
  then obtain i where i: "h_impl (e_heap p h) = Some i" by auto
  let ?p = "p\<lparr>e_torn := e_torn p @ [i]\<rparr>"
  have "\<forall>g \<in> set hs. h_impl (e_heap ?p g) \<noteq> None" using Cons.prems by simp
  note IH = Cons.IH [OF this]
  have "implOf ?p = implOf p" by (simp add: implOf_def fun_eq_iff)
  then show ?case
    using i IH by (auto simp: closeImpl_def implOf_def firstError_def)
qed

text \<open>\<open>Close\<close> of an open pool whose holders are all built.\<close>

lemma closePool_returns:
  assumes "\<not> p_closed p" and "0 < c_IdleTimeout (p_cfg p) \<or> p_reaperDone p"
    and "set (order (p_all p)) = p_all p" and "\<forall>h \<in> p_all p. h_impl (e_heap p h) \<noteq> None"
  shows "\<exists>p'. closePool order answers p = Returns (firstError answers (order (p_all p)), p')
    \<and> p_closed p' \<and> p_all p' = {} \<and> p_idle p' = [] \<and> e_nextImpl p' = e_nextImpl p
    \<and> e_heap p' = e_heap p \<and> e_torn p' = e_torn p @ map (implOf p) (order (p_all p))"
proof -
  let ?q = "\<lambda>r. (collectAll (p\<lparr>p_closed := True, p_reaperStop := r, p_reaperDone := True\<rparr>))\<lparr>p_idle := []\<rparr>"
  show ?thesis
    using assms
    by (auto simp: closePool_def Let_def closeAll_returns collectAll_def implOf_def)
qed

section \<open>NewPool\<close>

lemma newPool_ok:
  assumes "o_User o' \<noteq> ''''" and "normalize c = Inr c'"
    and "\<forall>j < nat (c_Min c'). newImplFor mkD mkK o' j = None"
  shows "newPool mkD mkK order ans t o' c = Returns (PoolOk (warmPool o' c' t (nat (c_Min c'))))"
proof -
  have "newPoolLoop (newImplFor mkD mkK o') 0 (nat (c_Min c')) (warmPool o' c' t 0)
      = Returns (None, warmPool o' c' t (0 + nat (c_Min c')))"
    using assms(3) normalize_bounds [OF assms(2)] by (intro newPoolLoop_ok) auto
  then show ?thesis using assms(1,2) by (simp add: newPool_def warmPool_0)
qed

lemma newPool_fail:
  assumes "o_User o' \<noteq> ''''" and "normalize c = Inr c'" and "j < nat (c_Min c')"
    and "\<forall>i < j. newImplFor mkD mkK o' i = None" and "newImplFor mkD mkK o' j = Some e"
    and "\<And>A. finite A \<Longrightarrow> set (order A) = A"
  shows "\<exists>p'. newPool mkD mkK order ans t o' c
      = Returns (PoolErr (Wrap (''pool: creating min holder '' @ showInt (int j + 1) @ ''/''
          @ showInt (c_Min c') @ '': '') e) (Some p'))
    \<and> p_closed p' \<and> p_all p' = {} \<and> p_idle p' = [] \<and> set (e_torn p') = {0..<e_nextImpl p'}
    \<and> e_nextImpl p' = j"
proof -
  let ?w = "warmPool o' c' t j"
  let ?msg = "Wrap (''pool: creating min holder '' @ showInt (int j + 1) @ ''/''
          @ showInt (c_Min c') @ '': '') e"
  have "newPoolLoop (newImplFor mkD mkK o') 0 (nat (c_Min c')) (warmPool o' c' t 0)
      = Returns (Some ?msg, warmPool o' c' t (0 + j))"
    using assms normalize_bounds [OF assms(2)]
      newPoolLoop_fail [of 0 j "newImplFor mkD mkK o'" e "nat (c_Min c')" 0 c' o' t] by simp
  moreover have "0 < c_IdleTimeout c' \<or> c_IdleTimeout c' \<le> 0" by linarith
  then obtain p' where p': "closePool order ans ?w = Returns (firstError ans (order (p_all ?w)), p')"
    "p_closed p'" "p_all p' = {}" "p_idle p' = []" "e_nextImpl p' = e_nextImpl ?w"
    "e_torn p' = e_torn ?w @ map (implOf ?w) (order (p_all ?w))"
    using closePool_returns [of ?w order ans] assms(6) [of "{0..<j}"]
    by (auto simp: warmPool_heap)
  moreover have "set (e_torn p') = {0..<e_nextImpl p'}"
    using p' assms(6) [of "{0..<j}"] by (auto simp: warmPool_heap implOf_def image_iff)
  ultimately show ?thesis using assms(1,2) by (simp add: newPool_def warmPool_0)
qed

text \<open>A pool that \<open>NewPool\<close> returns is a warm pool of \<open>Min\<close> holders.\<close>

lemma newPool_PoolOk:
  assumes "newPool mkD mkK order ans t o' c = Returns (PoolOk p)"
  obtains c' where "normalize c = Inr c'" "p = warmPool o' c' t (nat (c_Min c'))" "o_User o' \<noteq> ''''"
proof -
  have u: "o_User o' \<noteq> ''''" using assms by (auto simp: newPool_def)
  then obtain c' where c': "normalize c = Inr c'"
    using assms by (cases "normalize c") (auto simp: newPool_def)
  show ?thesis
  proof (cases "\<forall>j < nat (c_Min c'). newImplFor mkD mkK o' j = None")
    case True
    from newPool_ok [OF u c' True, of order ans t] show ?thesis using assms that c' u by simp
  next
    case False
    define j where "j = (LEAST j. j < nat (c_Min c') \<and> newImplFor mkD mkK o' j \<noteq> None)"
    have j: "j < nat (c_Min c') \<and> newImplFor mkD mkK o' j \<noteq> None"
      unfolding j_def by (rule LeastI_ex) (use False in blast)
    have before: "\<forall>i < j. newImplFor mkD mkK o' i = None"
      using not_less_Least [of _ "\<lambda>j. j < nat (c_Min c') \<and> newImplFor mkD mkK o' j \<noteq> None"] j
      unfolding j_def by (metis (mono_tags, lifting) less_trans)
    from j obtain e where e: "newImplFor mkD mkK o' j = Some e" by auto
    let ?msg = "Wrap (''pool: creating min holder '' @ showInt (int j + 1) @ ''/''
          @ showInt (c_Min c') @ '': '') e"
    have "newPoolLoop (newImplFor mkD mkK o') 0 (nat (c_Min c')) (emptyPool o' c' t)
        = Returns (Some ?msg, warmPool o' c' t j)"
      using j before e normalize_bounds [OF c'] newPoolLoop_fail [of 0 j "newImplFor mkD mkK o'" e
          "nat (c_Min c')" 0 c' o' t] by (simp add: warmPool_0)
    then show ?thesis using assms u c' by (auto simp: newPool_def split: exec.splits)
  qed
qed

section \<open>One caller at a time\<close>

text \<open>The pool between the calls of a single caller: every registered holder is parked and usable.\<close>

definition quiet :: "pstate \<Rightarrow> bool" where
  "quiet p \<longleftrightarrow> \<not> p_closed p \<and> distinct (p_idle p) \<and> set (p_idle p) = p_all p
     \<and> int (length (p_idle p)) \<le> c_Max (p_cfg p) \<and> 1 \<le> c_Max (p_cfg p)
     \<and> (\<forall>h \<in> p_all p. h < e_nextHid p \<and> h_impl (e_heap p h) \<noteq> None
          \<and> h_dead (e_heap p h) = None \<and> \<not> h_mu (e_heap p h))"

lemma quiet_warmPool:
  "normalize c = Inr c' \<Longrightarrow> int n \<le> c_Max c' \<Longrightarrow> quiet (warmPool o' c' t n)"
  using normalize_bounds [of c c'] by (auto simp: quiet_def warmPool_heap)

lemma quiet_card: "quiet p \<Longrightarrow> card (p_all p) = length (p_idle p)"
  by (metis distinct_card quiet_def)

lemma acquire_parked: "p_idle p = h # hs \<Longrightarrow> acquire a p = Returns (Inr h, p\<lparr>p_idle := hs\<rparr>)"
  by (simp add: acquire_def recvIdle_def)

text \<open>The caller got a usable holder \<open>h\<close> that is out of the channel.\<close>

lemma poolRun_holder:
  assumes "acquire a p = Returns (Inr h, p1)" and "\<not> h_mu (e_heap p1 h)" and "h_dead (e_heap p1 h) = None"
    and "h_impl (e_heap p1 h) = Some i" and "h \<in> p_all p1" and "\<not> p_closed p1" and "\<not> idleFull p1"
  shows "a_check a = None \<Longrightarrow> \<exists>p'. poolRun a p = Returns (a_run a, p')
           \<and> p_idle p' = p_idle p1 @ [h] \<and> p_all p' = p_all p1 \<and> e_torn p' = e_torn p1
           \<and> p_cfg p' = p_cfg p1 \<and> \<not> p_closed p' \<and> e_nextHid p' = e_nextHid p1
           \<and> e_heap p' = (e_heap p1)(h := (e_heap p1 h)\<lparr>h_lastUsed := e_now p1\<rparr>)"
    and "a_check a = Some e \<Longrightarrow> \<exists>p'. poolRun a p
             = Returns ((fst (a_run a), diedErr (snd (a_run a)) e), p')
           \<and> p_idle p' = p_idle p1 \<and> p_all p' = p_all p1 - {h} \<and> e_torn p' = e_torn p1 @ [i]
           \<and> p_cfg p' = p_cfg p1 \<and> \<not> p_closed p' \<and> e_nextHid p' = e_nextHid p1
           \<and> (\<forall>g. g \<noteq> h \<longrightarrow> e_heap p' g = e_heap p1 g)"
proof -
  obtain h0 where heap: "e_heap p1 h = h0" by simp
  have h0: "h0\<lparr>h_mu := True, h_lastUsed := e_now p1, h_mu := False\<rparr> = h0\<lparr>h_lastUsed := e_now p1\<rparr>"
    using assms(2) heap by (cases h0) simp
  show "a_check a = None \<Longrightarrow> \<exists>p'. poolRun a p = Returns (a_run a, p')
           \<and> p_idle p' = p_idle p1 @ [h] \<and> p_all p' = p_all p1 \<and> e_torn p' = e_torn p1
           \<and> p_cfg p' = p_cfg p1 \<and> \<not> p_closed p' \<and> e_nextHid p' = e_nextHid p1
           \<and> e_heap p' = (e_heap p1)(h := (e_heap p1 h)\<lparr>h_lastUsed := e_now p1\<rparr>)"
    using assms heap h0
    by (cases "a_run a") (auto simp: poolRun_def release_def pool_defs Let_def split: prod.splits)
  show "a_check a = Some e \<Longrightarrow> \<exists>p'. poolRun a p
             = Returns ((fst (a_run a), diedErr (snd (a_run a)) e), p')
           \<and> p_idle p' = p_idle p1 \<and> p_all p' = p_all p1 - {h} \<and> e_torn p' = e_torn p1 @ [i]
           \<and> p_cfg p' = p_cfg p1 \<and> \<not> p_closed p' \<and> e_nextHid p' = e_nextHid p1
           \<and> (\<forall>g. g \<noteq> h \<longrightarrow> e_heap p' g = e_heap p1 g)"
    using assms heap
    by (cases "a_run a") (auto simp: poolRun_def dropHolder_def pool_defs Let_def split: prod.splits)
qed

lemma acquire_cold:
  assumes "quiet p" and "p_idle p = []"
  shows "acquire a p = (case a_newImpl a of
     Some e \<Rightarrow> Returns (Inl (Wrap ''pool: scaling up: '' e), unregister (e_nextHid p) (snd (register None p)))
   | None \<Rightarrow> Returns (Inr (e_nextHid p), installImpl (e_nextHid p) (snd (register None p))))"
proof -
  have "p_all p = {}" "\<not> p_closed p" "0 < c_Max (p_cfg p)" using assms by (auto simp: quiet_def)
  then show ?thesis
    using assms(2) by (simp add: acquire_def recvIdle_def acquireReserve_def register_def Let_def
        split: option.split)
qed

lemma quiet_run_warm:
  assumes q: "quiet p" and idle: "p_idle p = h # hs"
  shows "a_check a = None \<Longrightarrow> \<exists>p'. poolRun a p = Returns (a_run a, p') \<and> quiet p'
           \<and> p_idle p' = hs @ [h] \<and> p_all p' = p_all p \<and> e_torn p' = e_torn p
           \<and> h_lastUsed (e_heap p' h) = e_now p"
    and "a_check a = Some e \<Longrightarrow> \<exists>p'. poolRun a p
             = Returns ((fst (a_run a), diedErr (snd (a_run a)) e), p') \<and> quiet p'
           \<and> p_idle p' = hs \<and> p_all p' = p_all p - {h} \<and> e_torn p' = e_torn p @ [implOf p h]"
proof -
  let ?p1 = "p\<lparr>p_idle := hs\<rparr>"
  have h: "h \<in> p_all p" "h \<notin> set hs" using q idle by (auto simp: quiet_def)
  then obtain i where i: "h_impl (e_heap p h) = Some i" using q by (auto simp: quiet_def)
  have pre: "\<not> h_mu (e_heap ?p1 h)" "h_dead (e_heap ?p1 h) = None" "h_impl (e_heap ?p1 h) = Some i"
      "h \<in> p_all ?p1" "\<not> p_closed ?p1" "\<not> idleFull ?p1"
    using q h i idle by (auto simp: quiet_def idleFull_def)
  note ph = poolRun_holder [OF acquire_parked [OF idle] pre]
  have fin: "distinct (hs @ [h])" "set hs = p_all p - {h}" "int (length hs) < c_Max (p_cfg p)"
    using q idle h by (auto simp: quiet_def)
  show "\<exists>p'. poolRun a p = Returns (a_run a, p') \<and> quiet p'
           \<and> p_idle p' = hs @ [h] \<and> p_all p' = p_all p \<and> e_torn p' = e_torn p
           \<and> h_lastUsed (e_heap p' h) = e_now p" if c: "a_check a = None"
  proof -
    obtain p' where p': "poolRun a p = Returns (a_run a, p')" "p_idle p' = hs @ [h]"
        "p_all p' = p_all p" "e_torn p' = e_torn p" "p_cfg p' = p_cfg p" "\<not> p_closed p'"
        "e_nextHid p' = e_nextHid p"
        "e_heap p' = (e_heap p)(h := (e_heap p h)\<lparr>h_lastUsed := e_now p\<rparr>)"
      using ph(1) [OF c] by auto
    have "quiet p'" unfolding quiet_def p' using p'(6) q fin h by (auto simp: quiet_def)
    then show ?thesis using p' by auto
  qed
  show "\<exists>p'. poolRun a p = Returns ((fst (a_run a), diedErr (snd (a_run a)) e), p') \<and> quiet p'
           \<and> p_idle p' = hs \<and> p_all p' = p_all p - {h} \<and> e_torn p' = e_torn p @ [implOf p h]"
    if c: "a_check a = Some e"
  proof -
    obtain p' where p': "poolRun a p = Returns ((fst (a_run a), diedErr (snd (a_run a)) e), p')"
        "p_idle p' = hs" "p_all p' = p_all p - {h}" "e_torn p' = e_torn p @ [i]"
        "p_cfg p' = p_cfg p" "\<not> p_closed p'" "e_nextHid p' = e_nextHid p"
        "\<forall>g. g \<noteq> h \<longrightarrow> e_heap p' g = e_heap p g"
      using ph(2) [OF c] by auto
    have "quiet p'" unfolding quiet_def p' using p'(6,8) q fin by (auto simp: quiet_def)
    then show ?thesis using p' i by (auto simp: implOf_def)
  qed
qed

lemma quiet_run_cold:
  assumes q: "quiet p" and idle: "p_idle p = []"
  shows "a_newImpl a = Some e \<Longrightarrow> \<exists>p'. poolRun a p
             = Returns ((zeroResult, Some (Wrap ''pool: scaling up: '' e)), p') \<and> quiet p'
           \<and> p_idle p' = [] \<and> p_all p' = {} \<and> e_nextImpl p' = e_nextImpl p \<and> e_torn p' = e_torn p"
    and "a_newImpl a = None \<Longrightarrow> a_check a = None \<Longrightarrow> \<exists>p'. poolRun a p = Returns (a_run a, p') \<and> quiet p'
           \<and> p_idle p' = [e_nextHid p] \<and> p_all p' = {e_nextHid p} \<and> e_torn p' = e_torn p"
    and "a_newImpl a = None \<Longrightarrow> a_check a = Some e' \<Longrightarrow> \<exists>p'. poolRun a p
             = Returns ((fst (a_run a), diedErr (snd (a_run a)) e'), p') \<and> quiet p'
           \<and> p_idle p' = [] \<and> p_all p' = {} \<and> e_torn p' = e_torn p @ [e_nextImpl p]"
proof -
  let ?h = "e_nextHid p"
  have all: "p_all p = {}" using q idle by (auto simp: quiet_def)
  show "a_newImpl a = Some e \<Longrightarrow> \<exists>p'. poolRun a p
             = Returns ((zeroResult, Some (Wrap ''pool: scaling up: '' e)), p') \<and> quiet p'
           \<and> p_idle p' = [] \<and> p_all p' = {} \<and> e_nextImpl p' = e_nextImpl p \<and> e_torn p' = e_torn p"
    using acquire_cold [OF q idle, of a] q idle all
    by (auto simp: poolRun_def quiet_def unregister_def register_def Let_def)
  let ?p1 = "installImpl ?h (snd (register None p))"
  have acq: "a_newImpl a = None \<Longrightarrow> acquire a p = Returns (Inr ?h, ?p1)"
    using acquire_cold [OF q idle, of a] by simp
  have pre: "\<not> h_mu (e_heap ?p1 ?h)" "h_dead (e_heap ?p1 ?h) = None"
      "h_impl (e_heap ?p1 ?h) = Some (e_nextImpl p)" "?h \<in> p_all ?p1" "\<not> p_closed ?p1" "\<not> idleFull ?p1"
    using q idle by (auto simp: quiet_def pool_defs Let_def)
  have p1: "p_idle ?p1 = []" "p_all ?p1 = {?h}" "e_torn ?p1 = e_torn p" "p_cfg ?p1 = p_cfg p"
      "e_nextHid ?p1 = Suc ?h"
    using idle all by (auto simp: pool_defs Let_def)
  have max: "1 \<le> c_Max (p_cfg p)" using q by (simp add: quiet_def)
  show "\<exists>p'. poolRun a p = Returns (a_run a, p') \<and> quiet p'
           \<and> p_idle p' = [?h] \<and> p_all p' = {?h} \<and> e_torn p' = e_torn p"
    if n: "a_newImpl a = None" and c: "a_check a = None"
  proof -
    obtain p' where p': "poolRun a p = Returns (a_run a, p')" "p_idle p' = [?h]"
        "p_all p' = {?h}" "e_torn p' = e_torn p" "p_cfg p' = p_cfg p" "\<not> p_closed p'"
        "e_nextHid p' = Suc ?h" "e_heap p' = (e_heap ?p1)(?h := (e_heap ?p1 ?h)\<lparr>h_lastUsed := e_now ?p1\<rparr>)"
      using poolRun_holder(1) [OF acq [OF n] pre c] p1 by auto
    have "quiet p'" unfolding quiet_def p' using p'(6) max pre by auto
    then show ?thesis using p' by auto
  qed
  show "\<exists>p'. poolRun a p = Returns ((fst (a_run a), diedErr (snd (a_run a)) e'), p') \<and> quiet p'
           \<and> p_idle p' = [] \<and> p_all p' = {} \<and> e_torn p' = e_torn p @ [e_nextImpl p]"
    if n: "a_newImpl a = None" and c: "a_check a = Some e'"
  proof -
    obtain p' where p': "poolRun a p = Returns ((fst (a_run a), diedErr (snd (a_run a)) e'), p')"
        "p_idle p' = []" "p_all p' = {}" "e_torn p' = e_torn p @ [e_nextImpl p]"
        "p_cfg p' = p_cfg p" "\<not> p_closed p'"
      using poolRun_holder(2) [OF acq [OF n] pre c] p1 by auto
    have "quiet p'" unfolding quiet_def p' using p'(6) max by auto
    then show ?thesis using p' by auto
  qed
qed

text \<open>A caller that runs alone never blocks, never panics, and leaves a quiet pool.\<close>

lemma poolRun_quiet:
  assumes "quiet p"
  shows "\<exists>out p'. poolRun a p = Returns (out, p') \<and> quiet p'"
proof (cases "p_idle p")
  case Nil
  then show ?thesis
    using quiet_run_cold [OF assms Nil, of a] by (cases "a_newImpl a"; cases "a_check a") blast+
next
  case (Cons h hs)
  then show ?thesis
    using quiet_run_warm [OF assms Cons, of a] by (cases "a_check a") blast+
qed

section \<open>The reaper\<close>

definition expired :: "int \<Rightarrow> pstate \<Rightarrow> hid \<Rightarrow> bool" where
  "expired t p h \<longleftrightarrow> c_IdleTimeout (p_cfg p) \<le> t - h_lastUsed (e_heap p h)"

lemma drop_parked:
  assumes "quiet p" and "p_idle p = h # hs"
  shows "\<exists>p2. dropHolder h (p\<lparr>p_idle := hs\<rparr>) = Returns p2 \<and> quiet p2 \<and> p_idle p2 = hs
    \<and> p_all p2 = p_all p - {h} \<and> e_torn p2 = e_torn p @ [implOf p h] \<and> e_heap p2 = e_heap p
    \<and> p_cfg p2 = p_cfg p"
proof -
  have h: "h \<in> p_all p" "distinct hs" "set hs = p_all p - {h}" "int (length hs) \<le> c_Max (p_cfg p)"
    using assms by (auto simp: quiet_def)
  then obtain i where i: "h_impl (e_heap p h) = Some i" using assms by (auto simp: quiet_def)
  let ?p2 = "p\<lparr>p_idle := hs, p_all := p_all p - {h}, e_torn := e_torn p @ [i]\<rparr>"
  have "dropHolder h (p\<lparr>p_idle := hs\<rparr>) = Returns ?p2"
    using h(1) i by (simp add: dropHolder_def dropLocked_def unregister_def closeImpl_def)
  moreover have "quiet ?p2" using assms(1) h by (auto simp: quiet_def)
  ultimately show ?thesis using i by (intro exI [of _ ?p2]) (simp add: implOf_def)
qed

text \<open>
  What \<open>reapIdle\<close> does to a quiet pool: it tears down a prefix \<open>ds\<close> of the channel, all of it
  past the timeout, never goes below \<open>Min\<close>, and stops at \<open>Min\<close> or at the first holder that is
  young enough, which it puts back at the end of the channel.
\<close>

definition reaped :: "int \<Rightarrow> pstate \<Rightarrow> hid list \<Rightarrow> hid list \<Rightarrow> pstate \<Rightarrow> bool" where
  "reaped t p ds rest p' \<longleftrightarrow> quiet p' \<and> p_idle p = ds @ rest
     \<and> (\<forall>h \<in> set ds. expired t p h) \<and> p_all p' = p_all p - set ds
     \<and> e_torn p' = e_torn p @ map (implOf p) ds \<and> e_heap p' = e_heap p
     \<and> (ds \<noteq> [] \<longrightarrow> c_Min (p_cfg p) \<le> int (card (p_all p')))
     \<and> ((int (card (p_all p')) \<le> c_Min (p_cfg p) \<and> p_idle p' = rest)
        \<or> (\<exists>h r. rest = h # r \<and> \<not> expired t p h \<and> p_idle p' = r @ [h]))"

lemma reapLoop_quiet:
  "quiet p \<Longrightarrow> 0 \<le> c_Min (p_cfg p) \<Longrightarrow>
     \<exists>ds rest p'. reapLoop t p = Returns p' \<and> reaped t p ds rest p'"
proof (induction t p rule: reapLoop.induct)
  case (1 t p)
  show ?case
  proof (cases "int (card (p_all p)) \<le> c_Min (p_cfg p)")
    case True
    then show ?thesis using "1.prems"
      by (intro exI [of _ "[]"] exI [of _ "p_idle p"] exI [of _ p]) (simp add: reaped_def reapLoop.simps [of t p])
  next
    case False
    then have "p_idle p \<noteq> []" using "1.prems" quiet_card [of p] by auto
    then obtain h hs where idle: "p_idle p = h # hs" by (cases "p_idle p") auto
    let ?p1 = "p\<lparr>p_idle := hs\<rparr>"
    have recv: "recvIdle p = Some (h, ?p1)" by (simp add: recvIdle_def idle)
    have room: "\<not> idleFull ?p1" using "1.prems" idle by (simp add: idleFull_def quiet_def)
    show ?thesis
    proof (cases "expired t p h")
      case young: False
      let ?p' = "sendIdle h ?p1"
      have "reapLoop t p = Returns ?p'"
        using False recv young room by (simp add: reapLoop.simps [of t p] expired_def)
      moreover have "quiet ?p'" using "1.prems" idle by (auto simp: quiet_def sendIdle_def)
      ultimately show ?thesis using young idle
        by (intro exI [of _ "[]"] exI [of _ "p_idle p"] exI [of _ ?p']) (simp add: reaped_def sendIdle_def)
    next
      case old: True
      obtain p2 where p2: "dropHolder h ?p1 = Returns p2" "quiet p2" "p_idle p2 = hs"
        "p_all p2 = p_all p - {h}" "e_torn p2 = e_torn p @ [implOf p h]" "e_heap p2 = e_heap p"
        "p_cfg p2 = p_cfg p"
        using drop_parked [OF "1.prems"(1) idle] by auto
      have eq: "reapLoop t p = reapLoop t p2"
        using False recv old p2(1) by (simp add: reapLoop.simps [of t p] expired_def)
      have same: "expired t p2 = expired t p" "implOf p2 = implOf p"
        using p2 by (auto simp: expired_def implOf_def fun_eq_iff)
      have big: "c_Min (p_cfg p) \<le> int (card (p_all p2))"
        using False quiet_card [OF p2(2)] quiet_card [OF "1.prems"(1)] idle p2(3) by simp
      obtain ds rest p' where IH: "reapLoop t p2 = Returns p'" "reaped t p2 ds rest p'"
        using "1.IH" [OF False recv refl] old p2 "1.prems" by (auto simp: expired_def not_less)
      have "reaped t p (h # ds) rest p'"
        using IH(2) idle old p2 big same unfolding reaped_def by (cases "ds = []") auto
      then show ?thesis using eq IH(1) by auto
    qed
  qed
qed

end
