(* ===== verification/Pool_Reach.thy ===== *)
theory Pool_Reach
  imports Pool_Ledger Pool_Facts
begin

text \<open>
  The invariant of the interleaved pool in one piece, its interpretation as an
  \<open>invariant_system\<close>, and the facts about reachable states that the properties of the pool
  rest on.
\<close>

section \<open>Reaper and Close\<close>

text \<open>Where a call of \<open>Close\<close> has passed its wait for the reaper.\<close>

fun past_await :: "close_pc \<Rightarrow> bool" where
  "past_await ClEnter = False"
| "past_await ClStop = False"
| "past_await ClAwait = False"
| "past_await ClNoop = False"
| "past_await _ = True"

text \<open>\<open>reaperDone\<close> is closed exactly when the reaper has left; \<open>Close\<close> asks it to leave first.\<close>

definition inv_proto :: "sys \<Rightarrow> bool" where
  "inv_proto s \<longleftrightarrow> (p_reaperDone (s_pool s) \<longleftrightarrow> s_reap s = RpExit)
     \<and> (s_reap s \<noteq> RpExit \<longrightarrow> 0 < c_IdleTimeout (p_cfg (s_pool s)))
     \<and> (\<forall>i. s_thr s i = TClose ClAwait \<longrightarrow>
          p_reaperStop (s_pool s) \<or> c_IdleTimeout (p_cfg (s_pool s)) \<le> 0)
     \<and> (\<forall>i pc. s_thr s i = TClose pc \<longrightarrow> past_await pc \<longrightarrow> p_reaperDone (s_pool s))"

lemma run_step_reaper:
  "run_step pc a p = Some (pc', p') \<Longrightarrow>
     p_reaperDone p' = p_reaperDone p \<and> p_reaperStop p' = p_reaperStop p"
  by (cases pc) (auto simp: pool_defs Let_def split: pool_splits)

lemma reap_step_done:
  assumes "reap_step pc a p = Some (pc', p')" and "p_reaperDone p \<longleftrightarrow> pc = RpExit"
  shows "p_reaperDone p' \<longleftrightarrow> pc' = RpExit" and "p_reaperStop p' = p_reaperStop p" and "pc \<noteq> RpExit"
  using assms by (cases pc; auto simp: pool_defs split: pool_splits; fail)+

lemma close_step_reaper:
  assumes "close_step pc a p = Some (pc', p')"
  shows "p_reaperDone p' = p_reaperDone p \<and> (p_reaperStop p \<longrightarrow> p_reaperStop p')
    \<and> (past_await pc' \<longrightarrow> past_await pc \<or> p_reaperDone p)
    \<and> (pc' = ClAwait \<longrightarrow> p_reaperStop p' \<or> c_IdleTimeout (p_cfg p') \<le> 0)"
proof (cases pc)
  case ClCollect
  then obtain hs where "pc' = ClDrain hs" "p' = collectAll p"
    using assms by (cases a) (auto split: if_splits)
  then show ?thesis using ClCollect by (simp add: collectAll_def)
next
  case (ClEach hs e)
  then show ?thesis
    using assms by (cases hs) (auto simp: closeImpl_def split: answer.splits option.splits)
qed (use assms in \<open>auto simp: recvIdle_Some split: answer.splits if_splits option.splits\<close>)

lemma sys_step_proto:
  assumes "sys_step s t" and inv: "inv_proto s"
  shows "inv_proto t"
  using assms(1)
proof cases
  case (run i pc a pc' p')
  then show ?thesis
    using inv run_step_reaper [OF run(4)] run_step_cfg [OF run(4)] by (auto simp: inv_proto_def)
next
  case (close i pc a pc' p')
  then show ?thesis
    using inv close_step_reaper [OF close(4)] close_step_cfg [OF close(4)]
    by (auto simp: inv_proto_def)
next
  case (reap a pc' p')
  then show ?thesis
    using inv reap_step_done [OF reap(3)] reap_step_cfg [OF reap(3)] by (auto simp: inv_proto_def)
qed (use inv in \<open>auto simp: inv_proto_def\<close>)

section \<open>The invariant\<close>

definition sys_inv :: "sys \<Rightarrow> bool" where
  "sys_inv s \<longleftrightarrow> own_inv (maxOf s) (sys_own s) \<and> inv_reg s \<and> inv_heap s \<and> inv_ledger s \<and> inv_proto s
     \<and> 0 \<le> c_Min (p_cfg (s_pool s)) \<and> c_Min (p_cfg (s_pool s)) \<le> maxOf s"

lemma sys_invD:
  assumes "sys_inv s"
  shows "own_inv (maxOf s) (sys_own s)" "own_disjoint (sys_own s)" "inv_reg s" "inv_heap s"
    "inv_ledger s" "inv_proto s" "\<forall>h \<in> tokens s. h < e_nextHid (s_pool s)"
  using assms by (auto simp: sys_inv_def own_inv_def inv_reg_def)

lemma sys_inv_step:
  assumes inv: "sys_inv s" and step: "sys_step s t"
  shows "sys_inv t"
proof -
  note d = sys_invD [OF inv]
  have "own_inv (maxOf s) (sys_own t)"
    using sys_step_refines [OF step d(3)] d(1) by (auto intro: own_step_inv)
  then show ?thesis
    using sys_step_cfg [OF step] inv sys_step_reg [OF step d(3) d(2)]
      sys_step_heap [OF step d(4) d(2) d(7)] sys_step_ledger [OF step d(5) d(4) d(2) d(7)]
      sys_step_proto [OF step d(6)]
    by (simp add: sys_inv_def)
qed

lemma sys_inv_warm:
  assumes "normalize c0 = Inr c" and "int n \<le> c_Max c"
  shows "sys_inv (sys_of (warmPool o' c t n))"
proof -
  let ?s = "sys_of (warmPool o' c t n)"
  have own: "sys_own ?s = \<lparr>w_idle = [0..<n], w_held = (\<lambda>_. {})\<rparr>"
    by (auto simp: sys_own_def sys_of_def fun_eq_iff split: option.splits)
  have tok: "tokens ?s = {0..<n}" by (simp add: own own_tokens_def)
  have max: "maxOf ?s = c_Max c" by (simp add: sys_of_def)
  have "own_inv (maxOf ?s) (sys_own ?s)"
    unfolding own_inv_def tok max using assms(2) by (simp add: own_disjoint_def own)
  moreover have "inv_reg ?s" by (simp add: inv_reg_def tok) (simp add: sys_of_def)
  moreover have "inv_heap ?s"
    by (auto simp: inv_heap_def sys_of_def warmPool_heap ready_def split: if_splits)
  moreover have "inv_ledger ?s"
    by (auto simp: inv_ledger_def sys_of_def warmPool_heap split: if_splits)
  moreover have "inv_proto ?s" by (auto simp: inv_proto_def sys_of_def)
  ultimately show ?thesis
    using normalize_bounds [OF assms(1)] by (simp add: sys_inv_def sys_of_def)
qed

lemma sys_inv_start: "sys_start s \<Longrightarrow> sys_inv s"
proof -
  assume "sys_start s"
  then obtain mkD mkK ord ans t o' c p
    where p: "newPool mkD mkK ord ans t o' c = Returns (PoolOk p)" and s: "s = sys_of p"
    by (auto simp: sys_start_def)
  obtain c' where c': "normalize c = Inr c'" "p = warmPool o' c' t (nat (c_Min c'))"
    using newPool_PoolOk [OF p] by metis
  show "sys_inv s"
    unfolding s c'(2) using normalize_bounds [OF c'(1)] by (intro sys_inv_warm [OF c'(1)]) simp
qed

interpretation pool_sys: invariant_system sys_start sys_step sys_inv
  by unfold_locales (auto intro: sys_inv_start sys_inv_step)

interpretation own_sys: invariant_system "own_inv M" "own_step M" "own_inv M" for M
  by unfold_locales (auto intro: own_step_inv)

end
