(* ===== verification/Pool_Play.thy ===== *)
theory Pool_Play
  imports Pool_Reach
begin

text \<open>
  Schedules: an executable reading of \<open>sys_step\<close>. A schedule names, for each step, the goroutine
  and the environment's answer; playing it gives the state it leads to, which is reachable.
\<close>

datatype act =
    SpawnRun nat
  | SpawnClose nat
  | RunAct nat answer
  | CloseAct nat answer
  | ReapAct answer
  | Pass int

fun act_step :: "act \<Rightarrow> sys \<Rightarrow> sys option" where
  "act_step (SpawnRun i) s =
     (if s_thr s i = Vacant then Some (s\<lparr>s_thr := (s_thr s)(i := TRun AcqTry)\<rparr>) else None)"
| "act_step (SpawnClose i) s =
     (if s_thr s i = Vacant then Some (s\<lparr>s_thr := (s_thr s)(i := TClose ClEnter)\<rparr>) else None)"
| "act_step (RunAct i a) s =
     (case s_thr s i of
        TRun pc \<Rightarrow>
          map_option (\<lambda>(pc', p'). s\<lparr>s_pool := p', s_thr := (s_thr s)(i := TRun pc')\<rparr>)
            (run_step pc a (s_pool s))
      | _ \<Rightarrow> None)"
| "act_step (CloseAct i a) s =
     (case s_thr s i of
        TClose pc \<Rightarrow>
          map_option (\<lambda>(pc', p'). s\<lparr>s_pool := p', s_thr := (s_thr s)(i := TClose pc')\<rparr>)
            (close_step pc a (s_pool s))
      | _ \<Rightarrow> None)"
| "act_step (ReapAct a) s =
     map_option (\<lambda>(pc', p'). s\<lparr>s_pool := p', s_reap := pc'\<rparr>) (reap_step (s_reap s) a (s_pool s))"
| "act_step (Pass d) s =
     (if 0 \<le> d then Some (s\<lparr>s_pool := (s_pool s)\<lparr>e_now := e_now (s_pool s) + d\<rparr>\<rparr>) else None)"

text \<open>Did the goroutine of the step panic?\<close>

fun thread_fine :: "thread \<Rightarrow> bool" where
  "thread_fine (TRun (RunPanic X)) = False"
| "thread_fine (TClose (ClPanic hs)) = False"
| "thread_fine _ = True"

fun act_fine :: "act \<Rightarrow> sys \<Rightarrow> bool" where
  "act_fine (RunAct i a) s = thread_fine (s_thr s i)"
| "act_fine (CloseAct i a) s = thread_fine (s_thr s i)"
| "act_fine (ReapAct a) s = (s_reap s \<noteq> RpPanic)"
| "act_fine _ s = True"

fun play :: "act list \<Rightarrow> sys \<Rightarrow> sys option" where
  "play [] s = Some s"
| "play (a # as) s =
     (case act_step a s of
        None \<Rightarrow> None
      | Some t \<Rightarrow> (case as of [] \<Rightarrow> Some t | _ # _ \<Rightarrow> if act_fine a t then play as t else None))"

lemma crashed_fine: "crashed s \<longleftrightarrow> (\<exists>i. \<not> thread_fine (s_thr s i)) \<or> s_reap s = RpPanic"
proof -
  have "\<not> thread_fine x \<longleftrightarrow> (\<exists>X. x = TRun (RunPanic X)) \<or> (\<exists>hs. x = TClose (ClPanic hs))" for x
    by (cases x rule: thread_fine.cases) auto
  then show ?thesis by (auto simp: crashed_def)
qed

lemma act_step_sys: "\<not> crashed s \<Longrightarrow> act_step a s = Some t \<Longrightarrow> sys_step s t"
  by (cases a) (auto split: thread.splits if_splits intro: sys_step.intros)

lemma act_step_fine: "\<not> crashed s \<Longrightarrow> act_step a s = Some t \<Longrightarrow> act_fine a t \<Longrightarrow> \<not> crashed t"
  by (cases a) (auto simp: crashed_fine split: thread.splits if_splits)

lemma play_reach: "\<not> crashed s \<Longrightarrow> play as s = Some t \<Longrightarrow> sys_step\<^sup>*\<^sup>* s t"
proof (induction as s rule: play.induct)
  case (1 s)
  then show ?case by simp
next
  case (2 a as s)
  then obtain u where u: "act_step a s = Some u" by (auto split: option.splits)
  then have su: "sys_step s u" using "2.prems"(1) by (rule act_step_sys [rotated])
  show ?case
  proof (cases as)
    case Nil
    then show ?thesis using 2 u su by simp
  next
    case (Cons b bs)
    then have fine: "act_fine a u" and rest: "play as u = Some t"
      using "2.prems"(2) u by (auto split: if_splits)
    from "2.IH" [OF u Cons fine act_step_fine [OF "2.prems"(1) u fine]] rest Cons
    show ?thesis using su by (auto intro: converse_rtranclp_into_rtranclp)
  qed
qed

text \<open>What \<open>NewPool\<close> returns has not crashed, so every schedule played on it is a run of the system.\<close>

lemma sys_of_fine: "\<not> crashed (sys_of p)"
  by (simp add: crashed_def sys_of_def)

lemma play_start: "play as (sys_of p) = Some t \<Longrightarrow> sys_step\<^sup>*\<^sup>* (sys_of p) t"
  by (rule play_reach [OF sys_of_fine])

lemma startPool_start:
  assumes "0 \<le> mn" and "mn \<le> mx" and "1 \<le> mx"
  shows "sys_start (sys_of (startPool mn mx idle))"
proof -
  let ?c = "\<lparr>c_Min = mn, c_Max = mx, c_IdleTimeout = idle\<rparr>"
  have "normalize ?c = Inr ?c" using assms by (simp add: normalize_Inr)
  moreover have "o_User startOpts \<noteq> ''''" by (simp add: startOpts_def)
  ultimately have "newPool (\<lambda>_. None) (\<lambda>_. None) (\<lambda>_. []) (\<lambda>_. None) 0 startOpts ?c
      = Returns (PoolOk (startPool mn mx idle))"
    by (simp add: newPool_ok startPool_def newImplFor_def startOpts_def)
  then show ?thesis unfolding sys_start_def by blast
qed

end
