(* ===== verification/Pool_Props.thy ===== *)
theory Pool_Props
  imports Pool_Play
begin

text \<open>
  The properties of the interleaved pool: what holds in every reachable state, and, by
  schedules, what the code allows although its comments say otherwise.
\<close>

section \<open>Facts about reachable states\<close>

lemma reach_sys_inv: "sys_start s0 \<Longrightarrow> sys_step\<^sup>*\<^sup>* s0 s \<Longrightarrow> sys_inv s"
  by (rule pool_sys.reach_inv)

lemma reach_cfg: "sys_step\<^sup>*\<^sup>* s0 s \<Longrightarrow> p_cfg (s_pool s) = p_cfg (s_pool s0)"
  by (induction rule: rtranclp_induct) (auto dest: sys_step_cfg)

lemma play_reachable:
  "sys_start (sys_of p) \<Longrightarrow> play as (sys_of p) = Some t \<Longrightarrow> \<exists>s0. sys_start s0 \<and> sys_step\<^sup>*\<^sup>* s0 t"
  by (blast intro: play_start)

lemmas play_simps = pool_defs startPool_def sys_of_def warmPool_def emptyPool_def Let_def

text \<open>Holders a goroutine works on, by number.\<close>

lemma inv_disjoint:
  assumes "sys_inv s" and "i \<noteq> j"
  shows "thread_holds (s_thr s i) \<inter> thread_holds (s_thr s j) = {}"
    and "thread_holds (s_thr s i) \<inter> reap_holds (s_reap s) = {}"
    and "thread_holds (s_thr s i) \<inter> set (p_idle (s_pool s)) = {}"
    and "reap_holds (s_reap s) \<inter> set (p_idle (s_pool s)) = {}"
proof -
  have d: "own_disjoint (sys_own s)" using assms(1) by (rule sys_invD(2))
  have q: "x \<noteq> y \<Longrightarrow> w_held (sys_own s) x \<inter> w_held (sys_own s) y = {}" for x y
    using d by (simp add: own_disjoint_def)
  have p: "w_held (sys_own s) x \<inter> set (p_idle (s_pool s)) = {}" for x
    using d by (simp add: own_disjoint_def)
  show "thread_holds (s_thr s i) \<inter> thread_holds (s_thr s j) = {}"
    using q [of "Some i" "Some j"] assms(2) by simp
  show "thread_holds (s_thr s i) \<inter> reap_holds (s_reap s) = {}"
    using q [of "Some i" None] by simp
  show "thread_holds (s_thr s i) \<inter> set (p_idle (s_pool s)) = {}"
    using p [of "Some i"] by simp
  show "reap_holds (s_reap s) \<inter> set (p_idle (s_pool s)) = {}"
    using p [of None] by simp
qed

lemma inv_all_finite:
  assumes "sys_inv s"
  shows "finite (p_all (s_pool s))" and "int (card (p_all (s_pool s))) \<le> maxOf s"
    and "int (length (p_idle (s_pool s))) \<le> maxOf s"
proof -
  have inv: "own_inv (maxOf s) (sys_own s)" and sub: "p_all (s_pool s) \<subseteq> tokens s"
    using sys_invD(1,3) [OF assms] by (auto simp: inv_reg_def)
  then have fin: "finite (tokens s)" and le: "int (card (tokens s)) \<le> maxOf s"
    by (auto simp: own_inv_def)
  show "finite (p_all (s_pool s))" by (rule finite_subset [OF sub fin])
  show "int (card (p_all (s_pool s))) \<le> maxOf s" using card_mono [OF fin sub] le by linarith
  have "card (set (p_idle (s_pool s))) \<le> card (tokens s)"
    using idle_subset_tokens [of "sys_own s"] by (intro card_mono [OF fin]) simp
  moreover have "distinct (p_idle (s_pool s))" using inv by (simp add: own_inv_def own_disjoint_def)
  ultimately show "int (length (p_idle (s_pool s))) \<le> maxOf s"
    using le by (simp add: distinct_card)
qed

lemma inv_room:
  assumes "sys_inv s" and "h \<in> w_held (sys_own s) x"
  shows "\<not> idleFull (s_pool s)"
  using own_room [OF sys_invD(1) [OF assms(1)] assms(2)] by (simp add: idleFull_def)

section \<open>Safety\<close>

text \<open>
  C1. However the callers of \<open>Run\<close> and \<open>Close\<close> and the reaper interleave, the pool never has
  more than \<open>Max\<close> holders registered, and never more than \<open>Max\<close> parked in the channel.
\<close>

theorem live_bounded:
  assumes "sys_start s0" and "sys_step\<^sup>*\<^sup>* s0 s"
  shows "finite (p_all (s_pool s)) \<and> int (card (p_all (s_pool s))) \<le> c_Max (p_cfg (s_pool s0))
    \<and> int (length (p_idle (s_pool s))) \<le> c_Max (p_cfg (s_pool s0))
    \<and> (\<not> p_closed (s_pool s) \<longrightarrow> set (p_idle (s_pool s)) \<subseteq> p_all (s_pool s))"
  using inv_all_finite [OF reach_sys_inv [OF assms]] reach_cfg [OF assms(2)]
    sys_invD(3) [OF reach_sys_inv [OF assms]] idle_subset_tokens [of "sys_own s"]
  by (auto simp: inv_reg_def)

theorem live_bounded_witness:
  "\<exists>t. play [SpawnRun 0, RunAct 0 Go, RunAct 0 Go, RunAct 0 (NewImpl None)]
         (sys_of (startPool 0 1 0)) = Some t
     \<and> p_all (s_pool t) = {0} \<and> int (card (p_all (s_pool t))) \<le> 1"
proof -
  obtain t where t: "play [SpawnRun 0, RunAct 0 Go, RunAct 0 Go, RunAct 0 (NewImpl None)]
         (sys_of (startPool 0 1 0)) = Some t" "p_all (s_pool t) = {0}"
    by (simp add: play_simps)
  have "sys_start (sys_of (startPool 0 1 0))" by (rule startPool_start) simp_all
  from live_bounded [OF this play_start [OF t(1)]]
  have "int (card (p_all (s_pool t))) \<le> c_Max (p_cfg (s_pool (sys_of (startPool 0 1 0))))" by blast
  then show ?thesis using t by (auto simp: sys_of_def startPool_def)
qed



text \<open>
  C7. The sends into the channel that the code makes without a \<open>select\<close> (a call that returns its
  holder, and the reaper that puts one back) never block: the channel has room.
\<close>

theorem sends_never_block:
  assumes "sys_start s0" and "sys_step\<^sup>*\<^sup>* s0 s"
  shows "(s_thr s i = TRun (RunSend h out) \<longrightarrow>
           run_step (RunSend h out) Go (s_pool s) = Some (RunUnlock h out, sendIdle h (s_pool s)))
    \<and> (s_reap s = RpPut g \<longrightarrow> reap_step (RpPut g) Go (s_pool s) = Some (RpSelect, sendIdle g (s_pool s)))"
proof -
  have inv: "sys_inv s" by (rule reach_sys_inv [OF assms])
  show ?thesis
    using inv_room [OF inv, of h "Some i"] inv_room [OF inv, of g None] by auto
qed

theorem sends_never_block_witness:
  "\<exists>t. play [SpawnRun 0, RunAct 0 Go, RunAct 0 Go, RunAct 0 (RunReturns (zeroResult, None)),
          RunAct 0 (Checked None), RunAct 0 Go] (sys_of (startPool 1 1 0)) = Some t
     \<and> s_thr t 0 = TRun (RunSend 0 (zeroResult, None))
     \<and> run_step (RunSend 0 (zeroResult, None)) Go (s_pool t) \<noteq> None"
proof -
  obtain t where t: "play [SpawnRun 0, RunAct 0 Go, RunAct 0 Go, RunAct 0 (RunReturns (zeroResult, None)),
          RunAct 0 (Checked None), RunAct 0 Go] (sys_of (startPool 1 1 0)) = Some t"
    "s_thr t 0 = TRun (RunSend 0 (zeroResult, None))"
    by (simp add: play_simps upt_rec)
  have "sys_start (sys_of (startPool 1 1 0))" by (rule startPool_start) simp_all
  from sends_never_block [OF this play_start [OF t(1)], of 0 0 "(zeroResult, None)" 0]
  show ?thesis using t by simp
qed

text \<open>
  C8. A call runs its command only in a usable holder: the backend instance is there, the
  holder was never found dead, this call has its mutex, and the holder is not parked.
\<close>

theorem dispatch_usable:
  assumes "sys_start s0" and "sys_step\<^sup>*\<^sup>* s0 s" and "s_thr s i = TRun (RunExec h)"
  shows "h_impl (e_heap (s_pool s) h) \<noteq> None \<and> h_dead (e_heap (s_pool s) h) = None
    \<and> h_mu (e_heap (s_pool s) h) \<and> h \<notin> set (p_idle (s_pool s))"
proof -
  have inv: "sys_inv s" by (rule reach_sys_inv [OF assms(1,2)])
  then have "run_ok (s_pool s) (RunExec h)"
    using sys_invD(4) [OF inv] assms(3) unfolding inv_heap_def by blast
  moreover have "h \<notin> set (p_idle (s_pool s))"
    using own_disjoint_idle [OF sys_invD(2) [OF inv], of h "Some i"] assms(3) by simp
  ultimately show ?thesis by (simp add: ready_def locked_def)
qed

theorem dispatch_usable_witness:
  "\<exists>t. play [SpawnRun 0, RunAct 0 Go, RunAct 0 Go] (sys_of (startPool 1 1 0)) = Some t
     \<and> s_thr t 0 = TRun (RunExec 0) \<and> h_impl (e_heap (s_pool t) 0) \<noteq> None"
proof -
  obtain t where t: "play [SpawnRun 0, RunAct 0 Go, RunAct 0 Go] (sys_of (startPool 1 1 0)) = Some t"
    "s_thr t 0 = TRun (RunExec 0)"
    by (simp add: play_simps upt_rec)
  have "sys_start (sys_of (startPool 1 1 0))" by (rule startPool_start) simp_all
  from dispatch_usable [OF this play_start [OF t(1)] t(2)] show ?thesis using t by simp
qed



definition settled :: "thread \<Rightarrow> bool" where
  "settled x \<longleftrightarrow> (case x of Vacant \<Rightarrow> True
     | TRun pc \<Rightarrow> (\<exists>out. pc = RunRet out)
     | TClose pc \<Rightarrow> pc = ClNoop \<or> (\<exists>e. pc = ClRet e))"

text \<open>
  C3. Nothing leaks through \<open>Close\<close>: when one \<open>Close\<close> has returned from its teardown and the
  calls of \<open>Run\<close> have returned, every backend instance that was ever made has been closed,
  those made while \<open>Close\<close> was running included, and no holder is registered.
\<close>

theorem close_leaks_nothing:
  assumes "sys_start s0" and "sys_step\<^sup>*\<^sup>* s0 s" and "s_thr s k = TClose (ClRet e)"
    and "\<forall>i. settled (s_thr s i)"
  shows "{0..<e_nextImpl (s_pool s)} \<subseteq> set (e_torn (s_pool s)) \<and> p_all (s_pool s) = {} \<and> p_closed (s_pool s)"
proof -
  have inv: "sys_inv s" by (rule reach_sys_inv [OF assms(1,2)])
  have cl: "p_closed (s_pool s) \<and> p_all (s_pool s) = {}"
    using sys_invD(3) [OF inv] assms(3) unfolding inv_reg_def by fastforce
  have "p_reaperDone (s_pool s)"
    using sys_invD(6) [OF inv] assms(3) unfolding inv_proto_def by fastforce
  then have "s_reap s = RpExit" using sys_invD(6) [OF inv] by (simp add: inv_proto_def)
  moreover have "settled x \<Longrightarrow> thread_pending x = {}" for x
    by (cases x) (auto simp: settled_def)
  then have "thread_pending (s_thr s i) = {}" for i using assms(4) by blast
  ultimately have pend: "pending s = {}" by (simp add: pending_def)
  have led: "i < e_nextImpl (s_pool s) \<Longrightarrow> i \<in> set (e_torn (s_pool s))" for i
    using sys_invD(5) [OF inv] cl pend unfolding inv_ledger_def by blast
  then show ?thesis using cl by auto
qed

theorem close_leaks_nothing_witness:
  "\<exists>t. play [SpawnRun 0, RunAct 0 Go, SpawnClose 1, CloseAct 1 Go, CloseAct 1 Go, CloseAct 1 (Order [0]),
          CloseAct 1 Go, CloseAct 1 (CloseReturns None), CloseAct 1 Go,
          RunAct 0 Go, RunAct 0 (RunReturns (zeroResult, None)), RunAct 0 (Checked None),
          RunAct 0 Go, RunAct 0 (CloseReturns None), RunAct 0 Go] (sys_of (startPool 1 1 0)) = Some t
     \<and> e_nextImpl (s_pool t) = 1 \<and> 0 \<in> set (e_torn (s_pool t))"
proof -
  obtain t where t: "play [SpawnRun 0, RunAct 0 Go, SpawnClose 1, CloseAct 1 Go, CloseAct 1 Go, CloseAct 1 (Order [0]),
          CloseAct 1 Go, CloseAct 1 (CloseReturns None), CloseAct 1 Go,
          RunAct 0 Go, RunAct 0 (RunReturns (zeroResult, None)), RunAct 0 (Checked None),
          RunAct 0 Go, RunAct 0 (CloseReturns None), RunAct 0 Go] (sys_of (startPool 1 1 0)) = Some t"
    "s_thr t 1 = TClose (ClRet None)" "s_thr t 0 = TRun (RunRet (zeroResult, None))"
    "\<forall>i. i \<notin> {0, 1} \<longrightarrow> s_thr t i = Vacant" "e_nextImpl (s_pool t) = 1"
    by (simp add: play_simps upt_rec)
  have s0: "sys_start (sys_of (startPool 1 1 0))" by (rule startPool_start) simp_all
  have "settled (s_thr t i)" for i using t(2-4) by (cases "i = 0"; cases "i = 1") (auto simp: settled_def)
  then have "\<forall>i. settled (s_thr t i)" ..
  from close_leaks_nothing [OF s0 play_start [OF t(1)] t(2) this] show ?thesis using t(1,5) by auto
qed

lemma closed_step:
  assumes "sys_step s t" and "p_closed (s_pool s)"
  shows "p_closed (s_pool t) \<and> p_all (s_pool t) \<subseteq> p_all (s_pool s)
    \<and> e_nextHid (s_pool t) = e_nextHid (s_pool s)"
  using assms(1)
proof cases
  case (run i pc a pc' p')
  then show ?thesis
    using run_step_eff [OF run(4)] run_step_closed [OF run(4)] assms(2)
    by (auto elim: tok_eff.cases)
next
  case (reap a pc' p')
  then show ?thesis
    using reap_step_eff [OF reap(3)] reap_step_closed [OF reap(3)] assms(2)
    by (auto elim: tok_eff.cases)
next
  case (close i pc a pc' p')
  then show ?thesis using close_step_eff [OF close(4)] assms(2) by auto
qed (use assms(2) in simp_all)

text \<open>
  A closed pool never grows: no holder is registered or made any more, whatever the
  goroutines that are still inside the pool do.
\<close>

theorem closed_pool_never_grows:
  assumes "sys_step\<^sup>*\<^sup>* s t" and "p_closed (s_pool s)"
  shows "p_closed (s_pool t) \<and> p_all (s_pool t) \<subseteq> p_all (s_pool s)
    \<and> e_nextHid (s_pool t) = e_nextHid (s_pool s)"
  using assms by (induction rule: rtranclp_induct) (auto dest: closed_step)

theorem closed_pool_never_grows_witness:
  "\<exists>s t. play [SpawnClose 0, CloseAct 0 Go] (sys_of (startPool 0 1 0)) = Some s
     \<and> play [SpawnRun 1, RunAct 1 Go, RunAct 1 Go] s = Some t \<and> p_all (s_pool t) = {}
     \<and> s_thr t 1 = TRun (RunRet (zeroResult, Some (Errorf ''pool: closed'')))"
proof -
  obtain s t where s: "play [SpawnClose 0, CloseAct 0 Go] (sys_of (startPool 0 1 0)) = Some s"
    "p_closed (s_pool s)" "p_all (s_pool s) = {}" "s_reap s = RpExit"
    "\<forall>i. thread_fine (s_thr s i)"
    and t: "play [SpawnRun 1, RunAct 1 Go, RunAct 1 Go] s = Some t"
      "s_thr t 1 = TRun (RunRet (zeroResult, Some (Errorf ''pool: closed'')))"
    by (simp add: play_simps)
  have "\<not> crashed s" using s(4,5) by (simp add: crashed_fine)
  from closed_pool_never_grows [OF play_reach [OF this t(1)] s(2)] show ?thesis using s t by auto
qed

section \<open>Refinement and progress\<close>

lemma step_refines:
  assumes "sys_inv s" and "sys_step s t"
  shows "(own_step (maxOf s))\<^sup>*\<^sup>* (sys_own s) (sys_own t)"
  using sys_step_refines [OF assms(2) sys_invD(3) [OF assms(1)]] by auto



definition run_ready :: "pstate \<Rightarrow> run_pc \<Rightarrow> bool" where
  "run_ready p pc \<longleftrightarrow> (\<exists>a. (\<forall>e. a \<noteq> CtxDone e) \<and> run_step pc a p \<noteq> None)"

definition close_ready :: "pstate \<Rightarrow> close_pc \<Rightarrow> bool" where
  "close_ready p pc \<longleftrightarrow> (\<exists>a. close_step pc a p \<noteq> None)"

definition reap_ready :: "pstate \<Rightarrow> reap_pc \<Rightarrow> bool" where
  "reap_ready p pc \<longleftrightarrow> (\<exists>a. reap_step pc a p \<noteq> None)"

lemma readyI:
  "run_step pc a p = Some x \<Longrightarrow> \<forall>e. a \<noteq> CtxDone e \<Longrightarrow> run_ready p pc"
  "close_step cpc a p = Some y \<Longrightarrow> close_ready p cpc"
  "reap_step rpc a p = Some z \<Longrightarrow> reap_ready p rpc"
  unfolding run_ready_def close_ready_def reap_ready_def by (metis option.distinct(1))+

lemma run_ready_or:
  assumes "\<forall>h out. pc = RunSend h out \<longrightarrow> \<not> idleFull p" and "\<forall>h. pc = RunLock h \<longrightarrow> \<not> h_mu (e_heap p h)"
    and "pc = AcqWait \<longrightarrow> p_idle p \<noteq> []" and "\<forall>out. pc \<noteq> RunRet out" and "\<forall>X. pc \<noteq> RunPanic X"
  shows "run_ready p pc"
proof -
  have "\<exists>a x. run_step pc a p = Some x \<and> (\<forall>e. a \<noteq> CtxDone e)"
  proof (cases pc)
    case (AcqBuild h)
    then show ?thesis by (intro exI [of _ "NewImpl None"]) simp
  next
    case (RunExec h)
    then show ?thesis by (intro exI [of _ "RunReturns (zeroResult, None)"]) simp
  next
    case (RunProbe h out)
    then show ?thesis by (intro exI [of _ "Checked None"]) simp
  next
    case (RunTear h out)
    then show ?thesis by (intro exI [of _ "CloseReturns None"]) (simp split: option.split)
  qed (use assms in \<open>auto simp: Let_def recvIdle_None intro!: exI [of _ Go]
      split: option.split prod.split bool.split reservation.split\<close>)
  then show ?thesis by (auto intro: readyI)
qed

lemma reap_ready_or:
  assumes "\<forall>h. pc = RpPut h \<longrightarrow> \<not> idleFull p" and "pc \<noteq> RpExit" and "pc \<noteq> RpPanic"
  shows "reap_ready p pc"
proof -
  have "\<exists>a x. reap_step pc a p = Some x"
  proof (cases pc)
    case RpSelect
    then show ?thesis by (intro exI [of _ Tick]) simp
  next
    case (RpTear t h)
    then show ?thesis by (intro exI [of _ "CloseReturns None"]) (simp split: option.split)
  qed (use assms in \<open>auto intro!: exI [of _ Go] split: option.split prod.split bool.split\<close>)
  then show ?thesis by (auto intro: readyI)
qed

lemma close_ready_or:
  assumes "pc = ClAwait \<longrightarrow> p_reaperDone p" and "finite (p_all p)" and "pc \<noteq> ClNoop"
    and "\<forall>e. pc \<noteq> ClRet e" and "\<forall>hs. pc \<noteq> ClPanic hs"
  shows "close_ready p pc"
proof -
  have "\<exists>a x. close_step pc a p = Some x"
  proof (cases pc)
    case ClCollect
    obtain hs where "set hs = p_all p" "distinct hs" using finite_distinct_list [OF assms(2)] by blast
    then show ?thesis using ClCollect by (intro exI [of _ "Order hs"]) simp
  next
    case (ClEach hs e)
    show ?thesis
    proof (cases hs)
      case Nil
      then show ?thesis using ClEach by (intro exI [of _ Go]) simp
    next
      case (Cons h hs')
      then show ?thesis using ClEach
        by (intro exI [of _ "CloseReturns None"]) (simp split: option.split)
    qed
  qed (use assms in \<open>auto intro!: exI [of _ Go] split: option.split prod.split\<close>)
  then show ?thesis by (auto intro: readyI)
qed



section \<open>What the interleavings allow\<close>

lemma cold_start:
  assumes "newPool mkD mkK ord ans t o' c = Returns (PoolOk p)" and "c_Min c = 0"
  shows "p = emptyPool o' (p_cfg p) t \<and> 1 \<le> c_Max (p_cfg p) \<and> sys_start (sys_of p)"
proof -
  obtain c' where c': "normalize c = Inr c'" "p = warmPool o' c' t (nat (c_Min c'))"
    using newPool_PoolOk [OF assms(1)] by metis
  have "sys_start (sys_of p)" unfolding sys_start_def using assms(1) by blast
  then show ?thesis using normalize_bounds [OF c'(1)] c'(2) assms(2)
    by (simp add: warmPool_0) (simp add: emptyPool_def)
qed

text \<open>
  C38. A pool without warm holders can be crashed by closing it: from every pool that
  \<open>NewPool\<close> returns with \<open>Min = 0\<close>, a \<open>Close\<close> that overlaps the first \<open>Run\<close> can find the slot
  that \<open>Run\<close> has reserved but not built, and calls \<open>close\<close> through its nil interface.
\<close>

theorem close_crash_reachable:
  assumes "newPool mkD mkK ord ans t o' c = Returns (PoolOk p)" and "c_Min c = 0"
  shows "\<exists>s. sys_step\<^sup>*\<^sup>* (sys_of p) s \<and> crashed s \<and> s_thr s 0 = TRun (AcqBuild 0)
    \<and> s_thr s 1 = TClose (ClPanic [0])"
proof -
  obtain c' where p: "p = emptyPool o' c' t" and max: "1 \<le> c_Max c'"
    using cold_start [OF assms] by blast
  let ?bad = "\<lambda>s. crashed s \<and> s_thr s 0 = TRun (AcqBuild 0) \<and> s_thr s 1 = TClose (ClPanic [0])"
  have "\<exists>as s. play as (sys_of p) = Some s \<and> ?bad s"
  proof (cases "0 < c_IdleTimeout c'")
    case True
    then have "\<exists>s. play [SpawnRun 0, RunAct 0 Go, RunAct 0 Go, SpawnClose 1, CloseAct 1 Go,
        CloseAct 1 Go, ReapAct Stop, CloseAct 1 Go, CloseAct 1 (Order [0]), CloseAct 1 Go,
        CloseAct 1 (CloseReturns None)] (sys_of p) = Some s \<and> ?bad s"
      using max by (simp add: p play_simps crashed_fine) (rule exI [of _ 1]; simp)
    then show ?thesis by blast
  next
    case False
    then have "\<exists>s. play [SpawnRun 0, RunAct 0 Go, RunAct 0 Go, SpawnClose 1, CloseAct 1 Go,
        CloseAct 1 Go, CloseAct 1 (Order [0]), CloseAct 1 Go,
        CloseAct 1 (CloseReturns None)] (sys_of p) = Some s \<and> ?bad s"
      using max by (simp add: p play_simps crashed_fine) (rule exI [of _ 1]; simp)
    then show ?thesis by blast
  qed
  then show ?thesis by (blast intro: play_start)
qed

lemma start_newPool:
  assumes "0 \<le> mn" and "mn \<le> mx" and "1 \<le> mx"
  shows "newPool (\<lambda>_. None) (\<lambda>_. None) (\<lambda>_. []) (\<lambda>_. None) 0 startOpts
      \<lparr>c_Min = mn, c_Max = mx, c_IdleTimeout = idle\<rparr> = Returns (PoolOk (startPool mn mx idle))"
  using assms by (simp add: newPool_ok startPool_def newImplFor_def startOpts_def normalize_Inr)

theorem close_crash_reachable_witness:
  "\<exists>s. sys_step\<^sup>*\<^sup>* (sys_of (startPool 0 4 Minute)) s \<and> crashed s"
  using close_crash_reachable [OF start_newPool [of 0 4 Minute]] by auto

text \<open>
  C39. A lost wakeup: a call that waits at \<open>Max\<close> can be left waiting although the pool is open
  and empty. With \<open>Min = 0\<close> and \<open>Max = 1\<close>, when the holder that the first call builds fails to
  come up, the second call waits for a parked holder that nobody will park: the only other
  goroutine has returned, a new holder could be made, and the waiting call can only be ended
  by its context.
\<close>

theorem waiter_stranded:
  assumes "newPool mkD mkK ord ans t o' c = Returns (PoolOk p)" and "c_Min c = 0" and "c_Max c = 1"
  shows "\<exists>s. sys_step\<^sup>*\<^sup>* (sys_of p) s \<and> \<not> crashed s \<and> \<not> p_closed (s_pool s)
    \<and> s_thr s 0 = TRun (RunRet (zeroResult, Some (Wrap ''pool: scaling up: '' e)))
    \<and> s_thr s 1 = TRun AcqWait \<and> (\<forall>i. i \<notin> {0, 1} \<longrightarrow> s_thr s i = Vacant)
    \<and> p_idle (s_pool s) = [] \<and> int (card (p_all (s_pool s))) < c_Max (p_cfg (s_pool s))
    \<and> \<not> run_ready (s_pool s) AcqWait"
proof -
  obtain c' where c': "normalize c = Inr c'" "p = warmPool o' c' t (nat (c_Min c'))"
    using newPool_PoolOk [OF assms(1)] by metis
  then have p: "p = emptyPool o' c' t" and max: "c_Max c' = 1"
    using normalize_bounds [OF c'(1)] assms(2,3) by (auto simp: warmPool_0 normalize_Inr)
  let ?as = "[SpawnRun 0, RunAct 0 Go, RunAct 0 Go, SpawnRun 1, RunAct 1 Go, RunAct 1 Go,
    RunAct 0 (NewImpl (Some e)), RunAct 0 Go]"
  have "\<exists>s. play ?as (sys_of p) = Some s \<and> \<not> crashed s \<and> \<not> p_closed (s_pool s)
    \<and> s_thr s 0 = TRun (RunRet (zeroResult, Some (Wrap ''pool: scaling up: '' e)))
    \<and> s_thr s 1 = TRun AcqWait \<and> (\<forall>i. i \<notin> {0, 1} \<longrightarrow> s_thr s i = Vacant)
    \<and> p_idle (s_pool s) = [] \<and> int (card (p_all (s_pool s))) < c_Max (p_cfg (s_pool s))"
    by (simp add: p max play_simps crashed_fine)
  moreover have "p_idle q = [] \<Longrightarrow> \<not> run_ready q AcqWait" for q
    by (auto simp: run_ready_def recvIdle_def split: answer.splits)
  ultimately show ?thesis by (blast intro: play_start)
qed

theorem waiter_stranded_witness:
  "\<exists>s. sys_step\<^sup>*\<^sup>* (sys_of (startPool 0 1 0)) s \<and> s_thr s 1 = TRun AcqWait
     \<and> p_idle (s_pool s) = [] \<and> \<not> p_closed (s_pool s)"
  using waiter_stranded [OF start_newPool [of 0 1 0], of EOF] by auto


text \<open>
  \<open>Close\<close> does not wait for the calls in flight: it calls \<open>close\<close> on the backend instance
  of a holder while another goroutine is inside \<open>run\<close> of that instance, with the holder's
  mutex locked by that goroutine.
\<close>

theorem close_enters_running_holder:
  "\<exists>s t. sys_step\<^sup>*\<^sup>* (sys_of (startPool 1 1 0)) s \<and> sys_step s t
     \<and> s_thr s 0 = TRun (RunExec 0) \<and> h_mu (e_heap (s_pool s) 0)
     \<and> s_thr s 1 = TClose (ClEach [0] None) \<and> s_thr t 0 = TRun (RunExec 0)
     \<and> h_impl (e_heap (s_pool s) 0) = Some 0 \<and> e_torn (s_pool s) = [] \<and> e_torn (s_pool t) = [0]"
proof -
  obtain s t where s: "play [SpawnRun 0, RunAct 0 Go, RunAct 0 Go, SpawnClose 1, CloseAct 1 Go,
      CloseAct 1 Go, CloseAct 1 (Order [0]), CloseAct 1 Go] (sys_of (startPool 1 1 0)) = Some s"
    "\<forall>i. thread_fine (s_thr s i)" "s_reap s = RpExit"
    and st: "act_step (CloseAct 1 (CloseReturns None)) s = Some t"
    and rest: "s_thr s 0 = TRun (RunExec 0) \<and> h_mu (e_heap (s_pool s) 0)
     \<and> s_thr s 1 = TClose (ClEach [0] None) \<and> s_thr t 0 = TRun (RunExec 0)
     \<and> h_impl (e_heap (s_pool s) 0) = Some 0 \<and> e_torn (s_pool s) = [] \<and> e_torn (s_pool t) = [0]"
    by (simp add: play_simps upt_rec)
  have "\<not> crashed s" using s(2,3) by (simp add: crashed_fine)
  from act_step_sys [OF this st] play_start [OF s(1)] rest show ?thesis by blast
qed

end
