(* ===== verification/Pool_Seq.thy ===== *)
theory Pool_Seq
  imports Pool_Facts Pool_Conc
begin

text \<open>
  The pool seen by a caller that runs alone: the composed operations of \<open>Pool\<close> are the steps of
  \<open>Pool_Conc\<close> without interference, and what they return.
\<close>

section \<open>The steps of one goroutine, run to the end\<close>

text \<open>The answer that the environment of a lone \<open>Run\<close> gives at each program counter.\<close>

fun envAnswer :: "run_env \<Rightarrow> run_pc \<Rightarrow> answer" where
  "envAnswer a (AcqBuild h) = NewImpl (a_newImpl a)"
| "envAnswer a AcqWait = (case a_ctxEnd a of Some e \<Rightarrow> CtxDone e | None \<Rightarrow> Go)"
| "envAnswer a (RunExec h) = RunReturns (a_run a)"
| "envAnswer a (RunProbe h out) = Checked (a_check a)"
| "envAnswer a (RunTear h out) = CloseReturns None"
| "envAnswer a pc = Go"

text \<open>The number of steps left bounds the loop; \<open>None\<close> is a run that is cut off.\<close>

fun soloRun :: "nat \<Rightarrow> run_env \<Rightarrow> run_pc \<Rightarrow> pstate \<Rightarrow> (outcome \<times> pstate) exec option" where
  "soloRun 0 a pc p = None"
| "soloRun (Suc n) a pc p =
     (case pc of
        RunRet out \<Rightarrow> Some (Returns (out, p))
      | RunPanic X \<Rightarrow> Some Panics
      | _ \<Rightarrow> (case run_step pc (envAnswer a pc) p of
                None \<Rightarrow> Some Blocks
              | Some (pc', p') \<Rightarrow> soloRun n a pc' p'))"

declare soloRun.simps [simp del]

text \<open>One step of the loop at a given program counter.\<close>

lemmas solo_at = soloRun.simps(2) [of _ _ "RunUnlock h out" for h out]
  soloRun.simps(2) [of _ _ "RunRet out" for out] soloRun.simps(2) [of _ _ "RunPanic X" for X]
  soloRun.simps(2) [of _ _ "RunTear h out" for h out] soloRun.simps(2) [of _ _ "RunSend h out" for h out]

lemma solo_drop:
  "soloRun (Suc (Suc (Suc (Suc n)))) a (RunDrop h out) p =
     Some (case dropHolder h p of Returns p' \<Rightarrow> Returns (out, unlockHolder h p')
           | Blocks \<Rightarrow> Blocks | Panics \<Rightarrow> Panics)"
  by (auto simp: soloRun.simps(2) [of _ _ "RunDrop h out"] solo_at dropHolder_def
      split: prod.splits bool.splits option.splits)

lemma solo_release:
  "soloRun (Suc (Suc (Suc (Suc n)))) a (RunRelease h out) p =
     Some (case release h p of Returns p' \<Rightarrow> Returns (out, unlockHolder h p')
           | Blocks \<Rightarrow> Blocks | Panics \<Rightarrow> Panics)"
  by (auto simp: soloRun.simps(2) [of _ _ "RunRelease h out"] solo_at release_def
      split: prod.splits bool.splits option.splits)

lemma solo_lock:
  "soloRun (Suc (Suc (Suc (Suc (Suc (Suc (Suc n))))))) a (RunLock h) p =
     Some (if h_mu (e_heap p h) then Blocks
       else let p2 = lockHolder h p in
         (case h_dead (e_heap p2 h) of
            Some d \<Rightarrow>
              (case dropHolder h p2 of
                 Returns p3 \<Rightarrow> Returns ((zeroResult, Some (Wrap ''pool: acquired holder is dead: '' d)),
                                       unlockHolder h p3)
               | Blocks \<Rightarrow> Blocks | Panics \<Rightarrow> Panics)
          | None \<Rightarrow>
              if h_impl (e_heap p2 h) = None then Panics
              else let (res, runErr) = a_run a in
                (case a_check a of
                   Some e \<Rightarrow>
                     (case dropHolder h (markDead h e p2) of
                        Returns p3 \<Rightarrow> Returns ((res, diedErr runErr e), unlockHolder h p3)
                      | Blocks \<Rightarrow> Blocks | Panics \<Rightarrow> Panics)
                 | None \<Rightarrow>
                     (case release h p2 of
                        Returns p3 \<Rightarrow> Returns ((res, runErr), unlockHolder h p3)
                      | Blocks \<Rightarrow> Blocks | Panics \<Rightarrow> Panics))))"
  by (cases "a_run a") (auto simp: soloRun.simps(2) [of _ _ "RunLock h"] soloRun.simps(2) [of _ _ "RunExec h"]
      soloRun.simps(2) [of _ _ "RunProbe h out" for out] solo_at Let_def solo_drop solo_release
      split: option.split)


section \<open>NewPool\<close>

lemma first_failure:
  fixes n :: nat
  obtains (all) "\<forall>j < n. f j = None"
    | (fail) j e where "j < n" "\<forall>i < j. f i = None" "f j = Some e"
proof (cases "\<exists>j < n. f j \<noteq> None")
  case True
  then obtain k where ex: "k < n \<and> f k \<noteq> None" by blast
  define j where "j = (LEAST j. j < n \<and> f j \<noteq> None)"
  have j: "j < n \<and> f j \<noteq> None" unfolding j_def by (rule LeastI [of _ k]) (rule ex)
  moreover have "f i = None" if "i < j" for i
    using not_less_Least [of i "\<lambda>j. j < n \<and> f j \<noteq> None"] that j unfolding j_def by auto
  ultimately show ?thesis using fail by blast
qed (use all in blast)

text \<open>
  C30. \<open>NewPool\<close> is all or nothing. It neither blocks nor panics. It returns a pool with exactly
  \<open>Min\<close> holders, all parked, usable and distinct; or an error. An error of the arguments makes
  nothing; an error of the backend comes from the first holder that could not be made, and then
  the instances that were made before it have all been closed again.
\<close>

theorem new_pool_all_or_nothing:
  assumes "\<And>A. finite A \<Longrightarrow> set (order A) = A"
  shows "case newPool mkD mkK order ans t o' c of
      Returns (PoolOk p) \<Rightarrow> quiet p \<and> int (length (p_idle p)) = c_Min c \<and> c_Min (p_cfg p) = c_Min c
        \<and> e_nextImpl p = length (p_idle p) \<and> e_torn p = []
    | Returns (PoolErr e None) \<Rightarrow> o_User o' = '''' \<or> normalize c = Inl e
    | Returns (PoolErr e (Some p)) \<Rightarrow>
        (\<exists>j x. j < nat (c_Min c) \<and> newImplFor mkD mkK o' j = Some x
           \<and> (\<forall>i < j. newImplFor mkD mkK o' i = None) \<and> e_nextImpl p = j
           \<and> e = Wrap (''pool: creating min holder '' @ showInt (int j + 1) @ ''/''
                      @ showInt (c_Min c) @ '': '') x)
        \<and> set (e_torn p) = {0..<e_nextImpl p} \<and> p_closed p \<and> p_all p = {} \<and> p_idle p = []
    | Blocks \<Rightarrow> False
    | Panics \<Rightarrow> False"
proof (cases "o_User o' = ''''")
  case True
  then show ?thesis by (simp add: newPool_def)
next
  case user: False
  show ?thesis
  proof (cases "normalize c")
    case (Inl e)
    then show ?thesis using user by (simp add: newPool_def)
  next
    case (Inr c')
    then have min: "c_Min c' = c_Min c" "0 \<le> c_Min c" "c_Min c \<le> c_Max c'"
      using normalize_bounds [OF Inr] by simp_all
    show ?thesis
    proof (cases rule: first_failure [of "nat (c_Min c)" "newImplFor mkD mkK o'"])
      case all
      then show ?thesis
        using newPool_ok [OF user Inr, of mkD mkK order ans t] quiet_warmPool [OF Inr] min by simp
    next
      case (fail j x)
      then obtain p' where "newPool mkD mkK order ans t o' c
          = Returns (PoolErr (Wrap (''pool: creating min holder '' @ showInt (int j + 1) @ ''/''
              @ showInt (c_Min c') @ '': '') x) (Some p'))"
          "p_closed p'" "p_all p' = {}" "p_idle p' = []" "set (e_torn p') = {0..<e_nextImpl p'}"
          "e_nextImpl p' = j"
        using newPool_fail [OF user Inr, of j mkD mkK x order ans t] assms min by auto
      then show ?thesis using fail min by auto
    qed
  qed
qed

theorem new_pool_all_or_nothing_witness:
  "\<exists>p. newPool (\<lambda>i. if i = 1 then Some EOF else None) (\<lambda>_. None) sorted_list_of_set (\<lambda>_. None) 0
      startOpts \<lparr>c_Min = 2, c_Max = 2, c_IdleTimeout = 0\<rparr>
    = Returns (PoolErr (Wrap ''pool: creating min holder 2/2: '' EOF) (Some p))
    \<and> set (e_torn p) = {0} \<and> p_all p = {}"
proof -
  let ?f = "\<lambda>i::nat. if i = 1 then Some EOF else None" and ?c = "\<lparr>c_Min = 2, c_Max = 2, c_IdleTimeout = 0\<rparr>"
  let ?r = "newPool ?f (\<lambda>_. None) sorted_list_of_set (\<lambda>_. None) 0 startOpts ?c"
  have n: "newImplFor ?f (\<lambda>_. None) startOpts = ?f"
    by (simp add: newImplFor_def startOpts_def fun_eq_iff)
  have ord: "finite A \<Longrightarrow> set (sorted_list_of_set A) = A" for A :: "hid set" by simp
  note th = new_pool_all_or_nothing [of sorted_list_of_set, OF ord, where mkD = ?f and mkK = "\<lambda>_. None"
      and ans = "\<lambda>_. None" and t = 0 and o' = startOpts and c = ?c]
  obtain p where p: "?r = Returns (PoolErr (Wrap ''pool: creating min holder 2/2: '' EOF) (Some p))"
    by (simp add: newPool_def startOpts_def newImplFor_def normalize_def eval_nat_numeral createHolder_def
        emptyPool_def pool_defs Let_def closePool_def showInt_def digitChar_def showUint.simps [of 2])
  then show ?thesis using th unfolding p n by (auto split: if_splits simp: eval_nat_numeral less_Suc_eq)
qed

section \<open>Run\<close>

text \<open>
  C31. A call that finds holders parked takes the one parked longest and returns what the
  backend's \<open>run\<close> returned; the holder goes to the end of the queue, stamped with the time. If
  the holder fails its check afterwards it is never parked again: it is unregistered, its
  instance is closed, and the call reports an error even when the command had none.
\<close>

theorem run_on_warm_holder:
  assumes "quiet p" and "p_idle p = h # hs"
  shows "\<exists>out p'. poolRun a p = Returns (out, p') \<and> quiet p' \<and>
    (case a_check a of
       None \<Rightarrow> out = a_run a \<and> p_idle p' = hs @ [h] \<and> p_all p' = p_all p
         \<and> h_lastUsed (e_heap p' h) = e_now p \<and> e_torn p' = e_torn p
     | Some e \<Rightarrow> fst out = fst (a_run a) \<and> snd out \<noteq> None \<and> snd out = diedErr (snd (a_run a)) e
         \<and> p_idle p' = hs \<and> p_all p' = p_all p - {h} \<and> e_torn p' = e_torn p @ [implOf p h])"
proof (cases "a_check a")
  case None
  then show ?thesis using quiet_run_warm(1) [OF assms, of a] by (simp del: split_paired_Ex) blast
next
  case (Some e)
  then show ?thesis
    using quiet_run_warm(2) [OF assms Some] by (auto simp: diedErr_def split: option.split)
qed

theorem run_on_warm_holder_witness:
  "\<exists>out p'. poolRun \<lparr>a_newImpl = None, a_ctxEnd = None, a_run = (zeroResult, None), a_check = Some EOF\<rparr>
       (startPool 2 2 0) = Returns (out, p') \<and> p_idle p' = [1] \<and> e_torn p' = [0]
     \<and> snd out = Some (Wrap ''pool: holder died: '' EOF)"
proof -
  have "quiet (startPool 2 2 0)"
    unfolding startPool_def by (rule quiet_warmPool [of "\<lparr>c_Min = 2, c_Max = 2, c_IdleTimeout = 0\<rparr>"])
      (simp_all add: normalize_Inr)
  moreover have "p_idle (startPool 2 2 0) = 0 # [1]" by (simp add: startPool_def upt_rec)
  ultimately show ?thesis
    using run_on_warm_holder [of "startPool 2 2 0" 0 "[1]" "\<lparr>a_newImpl = None, a_ctxEnd = None,
      a_run = (zeroResult, None), a_check = Some EOF\<rparr>"]
    by (fastforce simp: diedErr_def startPool_def warmPool_heap implOf_def)
qed

text \<open>
  A call that finds a pool scaled down to zero makes one holder for itself: if that fails
  the call fails and nothing stays registered, otherwise the command runs in it and the holder
  is parked, or, if it fails its check, closed.
\<close>

theorem run_on_cold_pool:
  assumes "quiet p" and "p_idle p = []"
  shows "\<exists>out p'. poolRun a p = Returns (out, p') \<and> quiet p' \<and>
    (case a_newImpl a of
       Some e \<Rightarrow> out = (zeroResult, Some (Wrap ''pool: scaling up: '' e))
         \<and> p_all p' = {} \<and> e_nextImpl p' = e_nextImpl p \<and> e_torn p' = e_torn p
     | None \<Rightarrow> (case a_check a of
           None \<Rightarrow> out = a_run a \<and> p_all p' = {e_nextHid p} \<and> p_idle p' = [e_nextHid p]
             \<and> e_torn p' = e_torn p
         | Some e \<Rightarrow> out = (fst (a_run a), diedErr (snd (a_run a)) e) \<and> p_all p' = {}
             \<and> e_torn p' = e_torn p @ [e_nextImpl p]))"
  using quiet_run_cold [OF assms, of a] by (cases "a_newImpl a"; cases "a_check a"; fastforce)

theorem run_on_cold_pool_witness:
  "\<exists>out p'. poolRun \<lparr>a_newImpl = Some EOF, a_ctxEnd = None, a_run = (zeroResult, None), a_check = None\<rparr>
       (startPool 0 2 0) = Returns (out, p') \<and> snd out = Some (Wrap ''pool: scaling up: '' EOF)
     \<and> p_all p' = {}"
proof -
  have "quiet (startPool 0 2 0)"
    unfolding startPool_def by (rule quiet_warmPool [of "\<lparr>c_Min = 0, c_Max = 2, c_IdleTimeout = 0\<rparr>"])
      (simp_all add: normalize_Inr)
  moreover have "p_idle (startPool 0 2 0) = []" by (simp add: startPool_def)
  ultimately show ?thesis
    using run_on_cold_pool [of "startPool 0 2 0" "\<lparr>a_newImpl = Some EOF, a_ctxEnd = None,
      a_run = (zeroResult, None), a_check = None\<rparr>"] by fastforce
qed

section \<open>The reaper and Close\<close>

text \<open>
  C32. One tick of the reaper, with nobody else in the pool, ends without blocking; it closes a
  prefix of the queue, every holder of it past the timeout, never goes below \<open>Min\<close>, and stops
  either at \<open>Min\<close> or at the first holder that is not past the timeout, which it parks again at
  the end of the queue.
\<close>

theorem reap_spec:
  assumes "quiet p" and "0 \<le> c_Min (p_cfg p)"
  shows "\<exists>ds rest p'. reapIdle p = Returns p' \<and> quiet p' \<and> p_idle p = ds @ rest
    \<and> (\<forall>h \<in> set ds. c_IdleTimeout (p_cfg p) \<le> e_now p - h_lastUsed (e_heap p h))
    \<and> p_all p' = p_all p - set ds \<and> e_torn p' = e_torn p @ map (implOf p) ds
    \<and> (ds \<noteq> [] \<longrightarrow> c_Min (p_cfg p) \<le> int (card (p_all p')))
    \<and> ((int (card (p_all p')) \<le> c_Min (p_cfg p) \<and> p_idle p' = rest)
       \<or> (\<exists>h r. rest = h # r \<and> e_now p - h_lastUsed (e_heap p h) < c_IdleTimeout (p_cfg p)
             \<and> p_idle p' = r @ [h]))"
proof -
  obtain ds rest p' where "reapLoop (e_now p) p = Returns p'" "reaped (e_now p) p ds rest p'"
    using reapLoop_quiet [OF assms] by blast
  then show ?thesis unfolding reapIdle_def reaped_def expired_def not_le by blast
qed

theorem reap_spec_witness:
  "\<exists>p'. reapIdle ((startPool 2 2 10)\<lparr>p_cfg := \<lparr>c_Min = 1, c_Max = 2, c_IdleTimeout = 10\<rparr>, e_now := 10\<rparr>)
      = Returns p' \<and> c_Min (p_cfg (startPool 1 2 10)) \<le> int (card (p_all p')) \<and> quiet p'"
proof -
  let ?p = "(startPool 2 2 10)\<lparr>p_cfg := \<lparr>c_Min = 1, c_Max = 2, c_IdleTimeout = 10\<rparr>, e_now := 10\<rparr>"
  have q: "quiet ?p" by (simp add: quiet_def startPool_def warmPool_heap)
  from reap_spec [OF this] obtain ds p' where
    p': "reapIdle ?p = Returns p'" "quiet p'" "p_all p' = p_all ?p - set ds"
      "ds \<noteq> [] \<longrightarrow> 1 \<le> int (card (p_all p'))" by (auto simp: startPool_def)
  have "1 \<le> int (card (p_all p'))" using p'(3,4) by (cases "ds = []") (simp_all add: startPool_def)
  then show ?thesis using p' by (auto simp: startPool_def)
qed

text \<open>
  \<open>Close\<close> of an open pool that nobody uses returns, whatever the order of the map, closes
  every registered holder once, returns the first error of a teardown in that order, and goes
  on after an error; a second \<open>Close\<close> does nothing.
\<close>

theorem close_spec:
  assumes "quiet p" and "0 < c_IdleTimeout (p_cfg p) \<or> p_reaperDone p"
    and "set (order (p_all p)) = p_all p" and "distinct (order (p_all p))"
  shows "\<exists>p'. closePool order answers p = Returns (firstError answers (order (p_all p)), p')
    \<and> e_torn p' = e_torn p @ map (implOf p) (order (p_all p))
    \<and> length (e_torn p') = length (e_torn p) + card (p_all p)
    \<and> p_all p' = {} \<and> p_idle p' = [] \<and> closePool order' answers' p' = Returns (None, p')"
proof -
  have "length (order (p_all p)) = card (p_all p)" using assms(3,4) by (metis distinct_card)
  then show ?thesis
    using closePool_returns [of p order answers] assms by (fastforce simp: quiet_def closePool_def)
qed

theorem close_spec_witness:
  "\<exists>p'. closePool (\<lambda>_. [1, 0]) (\<lambda>h. if h = 0 then Some EOF else None) (startPool 2 2 0)
      = Returns (Some EOF, p') \<and> e_torn p' = [1, 0]"
proof -
  have q: "quiet (startPool 2 2 0)"
    unfolding startPool_def by (rule quiet_warmPool [of "\<lparr>c_Min = 2, c_Max = 2, c_IdleTimeout = 0\<rparr>"])
      (simp_all add: normalize_Inr)
  let ?ans = "\<lambda>h::hid. if h = 0 then Some EOF else None"
  have "{1, 0} = {0..<2::hid}" by auto
  then have "\<exists>p'. closePool (\<lambda>_. [1, 0]) ?ans (startPool 2 2 0) = Returns (firstError ?ans [1, 0], p')
      \<and> e_torn p' = e_torn (startPool 2 2 0) @ map (implOf (startPool 2 2 0)) [1, 0]"
    using close_spec [OF q, of "\<lambda>_. [1, 0]" ?ans "\<lambda>_. []" "\<lambda>_. None"] by (fastforce simp: startPool_def)
  then show ?thesis by (simp add: startPool_def firstError_def implOf_def warmPool_heap)
qed

text \<open>
  The configuration: \<open>normalize\<close> accepts exactly the configurations with
  \<open>0 \<le> Min \<le> max 1 Max\<close>, changes nothing but a \<open>Max\<close> below one, and accepts what it returns; the
  reaper's interval is positive and at most 30 seconds for every timeout that enables it.
\<close>

theorem normalize_spec:
  "(normalize c = Inr c' \<longleftrightarrow>
      0 \<le> c_Min c \<and> c_Min c \<le> max 1 (c_Max c) \<and> c' = c\<lparr>c_Max := max 1 (c_Max c)\<rparr>)
   \<and> (normalize c = Inr c' \<longrightarrow> normalize c' = Inr c')
   \<and> (0 < c_IdleTimeout c \<longrightarrow> 0 < reaperInterval c \<and> reaperInterval c \<le> 30 * Second)"
proof (intro conjI impI)
  show "0 < c_IdleTimeout c \<Longrightarrow> 0 < reaperInterval c"
    and "0 < c_IdleTimeout c \<Longrightarrow> reaperInterval c \<le> 30 * Second"
    by (auto simp: reaperInterval_def Let_def duration_units)
qed (use normalize_Inr normalize_idem in blast)+

theorem normalize_spec_witness:
  "normalize \<lparr>c_Min = 0, c_Max = 0, c_IdleTimeout = Minute\<rparr>
     = Inr \<lparr>c_Min = 0, c_Max = 1, c_IdleTimeout = Minute\<rparr>
   \<and> reaperInterval \<lparr>c_Min = 0, c_Max = 0, c_IdleTimeout = Minute\<rparr> \<le> 30 * Second"
  using normalize_spec [of "\<lparr>c_Min = 0, c_Max = 0, c_IdleTimeout = Minute\<rparr>"
      "\<lparr>c_Min = 0, c_Max = 1, c_IdleTimeout = Minute\<rparr>"] by (simp add: duration_units)

end
