(* ===== verification/SyncWriter.thy ===== *)
theory SyncWriter
  imports Prelude
begin

text \<open>
  \<open>pkg/sandbox/syncwriter.go\<close>: the writer that a leaked stream goroutine may still use after
  the run has returned. Each operation runs under the writer's mutex, so a concurrent use is a
  sequence of operations. The wrapped \<open>io.Writer\<close> is a parameter \<open>wr\<close> over its own state.
\<close>

record 'w syncwriter =
  sw_w :: 'w
  sw_closed :: bool

type_synonym 'w writer = "string \<Rightarrow> 'w \<Rightarrow> (int \<times> gerror option) \<times> 'w"

definition newSyncWriter :: "'w \<Rightarrow> 'w syncwriter" where
  "newSyncWriter w = \<lparr>sw_w = w, sw_closed = False\<rparr>"

definition swWrite :: "'w writer \<Rightarrow> string \<Rightarrow> 'w syncwriter \<Rightarrow> (int \<times> gerror option) \<times> 'w syncwriter" where
  "swWrite wr p s =
     (if sw_closed s then ((int (length p), None), s)
      else case wr p (sw_w s) of (r, w') \<Rightarrow> (r, s\<lparr>sw_w := w'\<rparr>))"

definition swClose :: "'w syncwriter \<Rightarrow> 'w syncwriter" where
  "swClose s = s\<lparr>sw_closed := True\<rparr>"

text \<open>Operations of several goroutines in the order in which they take the mutex.\<close>

datatype sw_op = SwWrite string | SwClose

fun swApply :: "'w writer \<Rightarrow> sw_op \<Rightarrow> 'w syncwriter \<Rightarrow> 'w syncwriter" where
  "swApply wr (SwWrite p) s = snd (swWrite wr p s)"
| "swApply wr SwClose s = swClose s"

definition swRun :: "'w writer \<Rightarrow> sw_op list \<Rightarrow> 'w syncwriter \<Rightarrow> 'w syncwriter" where
  "swRun wr ops s = foldl (\<lambda>s op. swApply wr op s) s ops"

definition isWrite :: "sw_op \<Rightarrow> bool" where
  "isWrite op \<longleftrightarrow> op \<noteq> SwClose"

definition wrAll :: "'w writer \<Rightarrow> sw_op list \<Rightarrow> 'w \<Rightarrow> 'w" where
  "wrAll wr ops w = foldl (\<lambda>w op. case op of SwWrite p \<Rightarrow> snd (wr p w) | SwClose \<Rightarrow> w) w ops"

lemma swRun_closed: "sw_closed s \<Longrightarrow> swRun wr ops s = s"
proof (induction ops)
  case (Cons op ops)
  then have "swApply wr op s = s" by (cases s; cases op) (simp_all add: swWrite_def swClose_def)
  then show ?case using Cons by (simp add: swRun_def)
qed (simp add: swRun_def)

lemma swRun_open:
  "\<not> sw_closed s \<Longrightarrow> sw_w (swRun wr ops s) = wrAll wr (takeWhile isWrite ops) (sw_w s)
     \<and> (sw_closed (swRun wr ops s) \<longleftrightarrow> SwClose \<in> set ops)"
proof (induction ops arbitrary: s)
  case (Cons op ops)
  show ?case
  proof (cases op)
    case (SwWrite p)
    let ?s = "s\<lparr>sw_w := snd (wr p (sw_w s))\<rparr>"
    have "swRun wr (op # ops) s = swRun wr ops ?s"
      using Cons.prems SwWrite by (simp add: swRun_def swWrite_def split: prod.split)
    then show ?thesis using Cons.IH [of ?s] Cons.prems SwWrite by (simp add: isWrite_def wrAll_def)
  next
    case SwClose
    have "swRun wr (op # ops) s = swRun wr ops (swClose s)" using SwClose by (simp add: swRun_def)
    then show ?thesis using SwClose by (simp add: swRun_closed swClose_def isWrite_def wrAll_def)
  qed
qed (simp add: swRun_def wrAll_def)

text \<open>
  C37. However the stream goroutines and the caller interleave, the caller's buffer receives
  exactly the writes made before the first \<open>Close\<close>: whatever is written afterwards leaves the
  wrapped writer untouched, and the late writer is told that all its bytes were written.
\<close>

theorem late_writes_dropped:
  "sw_w (swRun wr ops (newSyncWriter w)) = wrAll wr (takeWhile isWrite ops) w
   \<and> swRun wr late (swClose (swRun wr ops (newSyncWriter w))) = swClose (swRun wr ops (newSyncWriter w))
   \<and> swWrite wr p (swClose (swRun wr ops (newSyncWriter w)))
       = ((int (length p), None), swClose (swRun wr ops (newSyncWriter w)))"
  using swRun_open [of "newSyncWriter w" wr ops]
  by (simp add: newSyncWriter_def swRun_closed swClose_def swWrite_def)

end
