(* ===== verification/GoPath.thy ===== *)
theory GoPath
  imports Prelude
begin

text \<open>
  \<open>strings.Split\<close> with a one-byte separator and \<open>filepath.Join\<close> on Unix, with the lexical
  cleaning it applies.
\<close>

fun splitAll :: "string \<Rightarrow> char \<Rightarrow> string list" where
  "splitAll [] c = [[]]"
| "splitAll (x # xs) c =
     (if x = c then [] # splitAll xs c
      else case splitAll xs c of [] \<Rightarrow> [[x]] | w # ws \<Rightarrow> (x # w) # ws)"

text \<open>One path element after those kept so far.\<close>

definition cleanStep :: "bool \<Rightarrow> string list \<Rightarrow> string \<Rightarrow> string list" where
  "cleanStep rooted acc c =
     (if c = [] \<or> c = ''.'' then acc
      else if c = ''..''
      then if acc \<noteq> [] \<and> last acc \<noteq> ''..'' then butlast acc
           else if rooted then acc else acc @ [c]
      else acc @ [c])"

definition pathClean :: "string \<Rightarrow> string" where
  "pathClean p =
     (let rooted = hasPrefix p ''/'';
          r = (if rooted then ''/'' else []) @ joinWith ''/'' (foldl (cleanStep rooted) [] (splitAll p CHR ''/''))
      in if r = [] then ''.'' else r)"

definition pathJoin :: "string list \<Rightarrow> string" where
  "pathJoin es =
     (case dropWhile (\<lambda>e. e = []) es of [] \<Rightarrow> [] | e # es' \<Rightarrow> pathClean (joinWith ''/'' (e # es')))"

text \<open>Elements of a cleaned path: none is empty or \<open>.\<close>, and a rooted path has no \<open>..\<close>.\<close>

lemma cleanStep_elems:
  "set (cleanStep rooted acc c) \<subseteq> insert c (set acc) \<and>
   ([] \<notin> set acc \<and> ''.'' \<notin> set acc \<longrightarrow>
     [] \<notin> set (cleanStep rooted acc c) \<and> ''.'' \<notin> set (cleanStep rooted acc c))"
  by (auto simp: cleanStep_def dest: in_set_butlastD)

lemma cleanStep_rooted: "''..'' \<notin> set acc \<Longrightarrow> ''..'' \<notin> set (cleanStep True acc c)"
  by (auto simp: cleanStep_def dest: in_set_butlastD)

lemma foldl_cleanStep_rooted: "''..'' \<notin> set acc \<Longrightarrow> ''..'' \<notin> set (foldl (cleanStep True) acc cs)"
  by (induction cs arbitrary: acc) (auto simp: cleanStep_rooted)

end
