(* ===== verification/Float64.thy ===== *)
theory Float64
  imports GoTime "HOL-Library.Word" Complex_Main
begin

text \<open>
  The floating point of the options: a finite \<open>float64\<close> is its exact rational value, every
  arithmetic operation rounds to the nearest value with 53 significant bits, ties to even, and
  a conversion to an integer truncates. Infinities and NaN do not occur: the flags and the JSON
  decoder reject them, and no product or sum here overflows.
\<close>

section \<open>Rounding\<close>

definition roundHalfEven :: "rat \<Rightarrow> int" where
  "roundHalfEven q =
     (let n = \<lfloor>q\<rfloor>; r = q - of_int n in
      if r < 1 / 2 then n else if 1 / 2 < r then n + 1 else if even n then n else n + 1)"

text \<open>The significand, in \<open>2 ^ 52 .. 2 ^ 53\<close> for a normal number, and the exponent.\<close>

function f64Scale :: "rat \<Rightarrow> int \<Rightarrow> rat \<times> int" where
  "f64Scale q e =
     (if 2 ^ 53 \<le> q then f64Scale (q / 2) (e + 1)
      else if 0 < q \<and> q < 2 ^ 52 \<and> -1074 < e then f64Scale (q * 2) (e - 1)
      else (q, e))"
  by pat_completeness auto
termination
proof (relation "measures [\<lambda>(q, e). if 2 ^ 53 \<le> q then nat \<lfloor>q\<rfloor> else 0, \<lambda>(q, e). nat (e + 1074)]",
    goal_cases)
  case (2 q e)
  have "1 \<le> q / 2" using 2 by simp
  then have "q / 2 \<le> q - 1" by simp
  then have "\<lfloor>q / 2\<rfloor> \<le> \<lfloor>q\<rfloor> - 1" by linarith
  moreover have "0 < \<lfloor>q\<rfloor>" using 2 by simp
  ultimately have "nat \<lfloor>q / 2\<rfloor> < nat \<lfloor>q\<rfloor>" "0 < nat \<lfloor>q\<rfloor>" by linarith+
  then show ?case using 2 by simp
qed auto

declare f64Scale.simps [simp del]

definition f64Round :: "rat \<Rightarrow> rat" where
  "f64Round q =
     (case f64Scale \<bar>q\<bar> 0 of (m, e) \<Rightarrow>
        (if q < 0 then -1 else 1) * of_int (roundHalfEven m) * 2 powi e)"

definition f64Trunc :: "rat \<Rightarrow> int" where
  "f64Trunc q = (if q < 0 then - \<lfloor>- q\<rfloor> else \<lfloor>q\<rfloor>)"

text \<open>
  \<open>int64(x)\<close>: truncation; a value out of range gives the least \<open>int64\<close>, as amd64 does (the
  language leaves it open).
\<close>

definition f64ToInt64 :: "rat \<Rightarrow> 64 word" where
  "f64ToInt64 q =
     (let n = f64Trunc q in
      if - (2 ^ 63) \<le> n \<and> n < 2 ^ 63 then word_of_int n else word_of_int (- (2 ^ 63)))"

text \<open>\<open>Duration.Seconds\<close>.\<close>

definition durSeconds :: "int \<Rightarrow> rat" where
  "durSeconds d =
     (let sec = truncDiv d Second; nsec = d - sec * Second in
      f64Round (f64Round (of_int sec) + f64Round (of_int nsec / 1000000000)))"

section \<open>Bounds\<close>

lemma roundHalfEven_near: "\<bar>of_int (roundHalfEven q) - q\<bar> \<le> 1 / 2"
proof -
  define r where "r = q - of_int \<lfloor>q\<rfloor>"
  then have q: "q = of_int \<lfloor>q\<rfloor> + r" and "0 \<le> r" "r < 1" by (simp_all add: r_def) linarith
  then show ?thesis by (auto simp: roundHalfEven_def Let_def r_def [symmetric] abs_if) (linarith+)?
qed

lemma roundHalfEven_ge:
  assumes "of_int n \<le> q"
  shows "n \<le> roundHalfEven q"
proof -
  have "n \<le> \<lfloor>q\<rfloor>" using assms by (simp add: le_floor_iff)
  then show ?thesis by (simp add: roundHalfEven_def Let_def)
qed

lemma roundHalfEven_le: "q \<le> of_int n \<Longrightarrow> roundHalfEven q \<le> n"
proof -
  assume le: "q \<le> of_int n"
  show ?thesis
  proof (cases "q = of_int n")
    case True
    then show ?thesis by (simp add: roundHalfEven_def)
  next
    case False
    then have "\<lfloor>q\<rfloor> + 1 \<le> n" using le by linarith
    then show ?thesis by (auto simp: roundHalfEven_def Let_def)
  qed
qed

lemma f64Scale_value: "f64Scale q e = (m, e') \<Longrightarrow> m * 2 powi e' = q * 2 powi e"
proof (induction q e arbitrary: m e' rule: f64Scale.induct)
  case (1 q e)
  show ?case
    using "1.prems" "1.IH" by (subst (asm) f64Scale.simps)
      (auto split: if_splits simp: power_int_add power_int_diff)
qed

lemma f64Scale_exp: "f64Scale q e = (m, e') \<Longrightarrow> q < 2 ^ 53 \<Longrightarrow> 0 \<le> q \<Longrightarrow> e' \<le> e \<and> 0 \<le> m"
proof (induction q e arbitrary: m e' rule: f64Scale.induct)
  case (1 q e)
  have *: "\<not> 2 ^ 53 \<le> q" using "1.prems" by simp
  show ?case
  proof (cases "0 < q \<and> q < 2 ^ 52 \<and> -1074 < e")
    case True
    then have "f64Scale (q * 2) (e - 1) = (m, e')" using "1.prems"(1) * by (subst (asm) f64Scale.simps) simp
    from "1.IH"(2) [OF * True this] show ?thesis using True by simp
  next
    case False
    then show ?thesis using "1.prems" * by (subst (asm) f64Scale.simps) auto
  qed
qed

text \<open>Below \<open>2 ^ 53\<close> the grid of the floats is at least as fine as the integers.\<close>

lemma f64Round_grid:
  assumes "0 \<le> q" and "q < 2 ^ 53"
  obtains k :: nat and m where "q * 2 ^ k = m" "f64Round q * 2 ^ k = of_int (roundHalfEven m)"
proof -
  obtain m e where me: "f64Scale q 0 = (m, e)" by fastforce
  have e: "e \<le> 0" using f64Scale_exp [OF me assms(2,1)] by simp
  define k where "k = nat (- e)"
  have pw: "(2::rat) powi e * 2 ^ k = 1"
    using e by (simp add: k_def power_int_def field_simps)
  have "m * 2 powi e = q" using f64Scale_value [OF me] by simp
  then have "q * 2 ^ k = m" using pw by (metis mult.assoc mult.right_neutral)
  moreover have "f64Round q = of_int (roundHalfEven m) * 2 powi e"
    using me assms(1) by (simp add: f64Round_def)
  then have "f64Round q * 2 ^ k = of_int (roundHalfEven m)" using pw by (simp add: mult.assoc)
  ultimately show ?thesis by (rule that)
qed

lemma f64Round_near:
  assumes "0 \<le> q" and "q < 2 ^ 53"
  shows "\<bar>f64Round q - q\<bar> \<le> 1 / 2"
proof -
  obtain k m where km: "q * 2 ^ k = m" "f64Round q * 2 ^ k = of_int (roundHalfEven m)"
    by (rule f64Round_grid [OF assms])
  have "\<bar>(f64Round q - q) * 2 ^ k\<bar> \<le> 1 / 2"
    using roundHalfEven_near [of m] km by (simp add: left_diff_distrib)
  then have "\<bar>f64Round q - q\<bar> * 2 ^ k \<le> 1 / 2" by (simp add: abs_mult)
  moreover have "\<bar>f64Round q - q\<bar> * 1 \<le> \<bar>f64Round q - q\<bar> * 2 ^ k"
    by (rule mult_left_mono) simp_all
  ultimately show ?thesis by (simp add: order_trans)
qed

lemma f64Round_ge:
  assumes "of_int n \<le> q" and "0 \<le> q" and "q < 2 ^ 53"
  shows "of_int n \<le> f64Round q"
proof -
  obtain k m where km: "q * 2 ^ k = m" "f64Round q * 2 ^ k = of_int (roundHalfEven m)"
    by (rule f64Round_grid [OF assms(2,3)])
  have "of_int (n * 2 ^ k) \<le> m" using assms(1) km(1) by (auto intro: mult_right_mono)
  then have "n * 2 ^ k \<le> roundHalfEven m" by (rule roundHalfEven_ge)
  then have "of_int (n * 2 ^ k) \<le> (of_int (roundHalfEven m) :: rat)" by (simp only: of_int_le_iff)
  then have "of_int n * 2 ^ k \<le> f64Round q * 2 ^ k" using km(2) by simp
  then show ?thesis by (rule mult_right_le_imp_le) simp
qed

lemma f64Round_le:
  assumes "q \<le> of_int n" and "0 \<le> q" and "q < 2 ^ 53"
  shows "f64Round q \<le> of_int n"
proof -
  obtain k m where km: "q * 2 ^ k = m" "f64Round q * 2 ^ k = of_int (roundHalfEven m)"
    by (rule f64Round_grid [OF assms(2,3)])
  have "m \<le> of_int (n * 2 ^ k)" using assms(1) km(1) by (auto intro: mult_right_mono)
  then have "roundHalfEven m \<le> n * 2 ^ k" by (rule roundHalfEven_le)
  then have "(of_int (roundHalfEven m) :: rat) \<le> of_int (n * 2 ^ k)" by (simp only: of_int_le_iff)
  then have "f64Round q * 2 ^ k \<le> of_int n * 2 ^ k" using km(2) by simp
  then show ?thesis by (rule mult_right_le_imp_le) simp
qed

lemma f64Round_int: "0 \<le> n \<Longrightarrow> n < 2 ^ 53 \<Longrightarrow> f64Round (of_int n) = of_int n"
proof -
  assume n: "0 \<le> n" "n < 2 ^ 53"
  have "(of_int n :: rat) < of_int (2 ^ 53)" using n(2) by (simp only: of_int_less_iff)
  then have lt: "(of_int n :: rat) < 2 ^ 53" by simp
  have ge: "0 \<le> (of_int n :: rat)" using n(1) by simp
  show ?thesis by (rule antisym [OF f64Round_le f64Round_ge]) (rule order_refl ge lt)+
qed

text \<open>A scaled option is the exact product up to one and a half units.\<close>

lemma f64Round_trunc:
  assumes "0 \<le> q" and "q < 2 ^ 53 - 1"
  shows "\<bar>of_int (f64Trunc (f64Round q)) - q\<bar> < 3 / 2" and "0 \<le> f64Trunc (f64Round q)"
proof -
  have near: "\<bar>f64Round q - q\<bar> \<le> 1 / 2" using assms by (intro f64Round_near) simp_all
  have ge: "0 \<le> f64Round q" using f64Round_ge [of 0 q] assms by simp
  then have tr: "f64Trunc (f64Round q) = \<lfloor>f64Round q\<rfloor>" by (simp add: f64Trunc_def)
  have fl: "of_int \<lfloor>f64Round q\<rfloor> \<le> f64Round q" "f64Round q < of_int \<lfloor>f64Round q\<rfloor> + 1"
    by linarith+
  show "\<bar>of_int (f64Trunc (f64Round q)) - q\<bar> < 3 / 2" unfolding tr using near fl by linarith
  show "0 \<le> f64Trunc (f64Round q)" unfolding tr using ge by simp
qed

text \<open>The truncated seconds of a duration are its whole seconds, or one more.\<close>

lemma durSeconds_bounds:
  assumes "0 \<le> d" and "d < 2 ^ 63"
  shows "d div Second \<le> f64Trunc (durSeconds d)" and "f64Trunc (durSeconds d) \<le> d div Second + 1"
proof -
  define s where "s = d div Second"
  define f where "f = f64Round (of_int (d mod Second) / 1000000000)"
  have sec: "truncDiv d Second = s" "d - s * Second = d mod Second"
    using assms(1) by (simp_all add: truncDiv_nonneg s_def duration_units minus_div_mult_eq_mod)
  have r: "0 \<le> d mod Second" "d mod Second \<le> 1000000000" by (simp_all add: duration_units)
  have "(of_int (d mod Second) :: rat) \<le> of_int 1000000000" using r(2) by (simp only: of_int_le_iff)
  then have "of_int 0 \<le> (of_int (d mod Second) / 1000000000 :: rat)"
    and "(of_int (d mod Second) / 1000000000 :: rat) \<le> of_int 1"
    using r(1) by (simp_all add: divide_le_eq)
  then have f: "0 \<le> f" "f \<le> 1" unfolding f_def
    using f64Round_ge [of 0 "of_int (d mod Second) / 1000000000"]
      f64Round_le [of "of_int (d mod Second) / 1000000000" 1] by simp_all
  have s0: "0 \<le> s" using assms(1) by (simp add: s_def duration_units pos_imp_zdiv_nonneg_iff)
  have "s < 2 ^ 34" using assms(2) unfolding s_def by (simp add: duration_units div_less_iff_less_mult)
  then have "(of_int s :: rat) < of_int (2 ^ 34)" by (simp only: of_int_less_iff)
  then have lt: "(of_int s :: rat) < 2 ^ 34" by simp
  have si: "f64Round (of_int s) = of_int s" using s0 \<open>s < 2 ^ 34\<close> by (intro f64Round_int) simp_all
  have ds: "durSeconds d = f64Round (of_int s + f)"
    unfolding durSeconds_def Let_def sec si f_def ..
  have pos: "0 \<le> of_int s + f" "of_int s + f < 2 ^ 53" using f s0 lt by simp_all
  have lo: "of_int s \<le> durSeconds d" unfolding ds using f by (intro f64Round_ge pos) simp
  have hi: "durSeconds d \<le> of_int (s + 1)" unfolding ds using f by (intro f64Round_le pos) simp
  have ge: "0 \<le> durSeconds d" using lo s0 by (meson of_int_0_le_iff order_trans)
  show "d div Second \<le> f64Trunc (durSeconds d)"
    using lo ge by (simp add: f64Trunc_def le_floor_iff flip: s_def)
  show "f64Trunc (durSeconds d) \<le> d div Second + 1"
    using hi ge by (simp add: f64Trunc_def floor_le_iff flip: s_def)
qed

end
