(* ===== verification/Seccomp.thy ===== *)
theory Seccomp
  imports Sandbox GoPath Float64
begin

text \<open>
  The calls that the docker backend and the docker pool make to the Engine API client, as a
  log, and \<open>pkg/sandbox/seccomp.go\<close>: how the seccomp profile is handed to the daemon.

  The daemon, the client library and the file system are not under \<open>src/\<close>. They are the
  parameter \<open>docker_env\<close>: for every call a function that gives the answer from the whole log
  up to that call, so an answer may depend on anything that happened before.
\<close>

section \<open>Calls\<close>

text \<open>
  \<open>container.Config\<close> and \<open>container.HostConfig\<close>, the fields the source sets; a field that a
  backend leaves out has Go's zero value.
\<close>

record container_spec =
  cs_Image :: string
  cs_Cmd :: "string list"
  cs_Env :: "string list"
  cs_User :: string
  cs_WorkingDir :: string
  cs_AttachStdout :: bool
  cs_AttachStderr :: bool
  cs_AttachStdin :: bool
  cs_OpenStdin :: bool
  cs_StdinOnce :: bool
  hc_Runtime :: string
  hc_Init :: "bool option"
  hc_NetworkMode :: string
  hc_AutoRemove :: bool
  hc_ReadonlyRootfs :: bool
  hc_CapDrop :: "string list"
  hc_SecurityOpt :: "string list"
  hc_Binds :: "string list"
  hc_Tmpfs :: "(string \<times> string) list"
  hc_Memory :: int64
  hc_NanoCPUs :: int64
  hc_PidsLimit :: "int64 option"

record exec_spec =
  es_User :: string
  es_Cmd :: "string list"
  es_Env :: "string list"
  es_WorkingDir :: string
  es_AttachStdout :: bool
  es_AttachStderr :: bool
  es_AttachStdin :: bool

datatype dcall =
    DNew
  | DServerVersion
  | DImageInspect string
  | DNote string
  | DImagePull string
  | DDrainPull
  | DCreate container_spec
  | DInspect string
  | DAttach string bool
  | DDemux
  | DPumpStdin
  | DStart string
  | DWait string
  | DAwaitOutput
  | DExecCreate string exec_spec
  | DExecAttach string
  | DExecInspect string
  | DDiscardOutput
  | DCloseAttach
  | DRemove string
  | DCloseClient

text \<open>Answers.\<close>

record server_version =
  sv_Version :: string
  sv_Platform :: string
  sv_Components :: "string list"

text \<open>\<open>ContainerInspect\<close>: the runtime, and (running, OOM killed) when a state is reported.\<close>

record container_info =
  ci_Runtime :: string
  ci_State :: "(bool \<times> bool) option"

datatype wait_reply = WaitStatus int64 | WaitErr gerror

type_synonym 'a reply = "dcall list \<Rightarrow> 'a"

record docker_env =
  dk_new :: "gerror option reply"
  dk_host :: string
  dk_version :: "(gerror + server_version) reply"
  dk_imageInspect :: "gerror option reply"
  dk_imagePull :: "gerror option reply"
  dk_create :: "(gerror + string) reply"
  dk_inspect :: "(gerror + container_info) reply"
  dk_attach :: "gerror option reply"
  dk_start :: "gerror option reply"
  dk_wait :: "wait_reply reply"
  dk_execCreate :: "(gerror + string) reply"
  dk_execAttach :: "gerror option reply"
  dk_execInspect :: "(gerror + int) reply"
  dk_remove :: "gerror option reply"
  dk_ctxDone :: "bool reply"
  dk_elapsed :: "int reply"
  os_userCacheDir :: "gerror + string"
  os_tempDir :: string
  os_mkdirAll :: "string \<Rightarrow> gerror option"
  os_writeFile :: "string \<Rightarrow> string \<Rightarrow> gerror option"

text \<open>
  The process: the log, and the package variables of \<open>seccomp.go\<close> (has \<open>seccompFileOnce\<close>
  fired, the path, the error) with the files that were written.
\<close>

record dworld =
  dw_log :: "dcall list"
  dw_once :: bool
  dw_path :: string
  dw_err :: "gerror option"
  dw_files :: "(string \<times> string) list"

definition freshWorld :: dworld where
  "freshWorld = \<lparr>dw_log = [], dw_once = False, dw_path = [], dw_err = None, dw_files = []\<rparr>"

text \<open>A call with an answer, and one whose answer the code ignores.\<close>

definition emit :: "dcall \<Rightarrow> dworld \<Rightarrow> dworld" where [call_defs]:
  "emit c w = w\<lparr>dw_log := dw_log w @ [c]\<rparr>"

definition call :: "'a reply \<Rightarrow> dcall \<Rightarrow> dworld \<Rightarrow> 'a \<times> dworld" where [call_defs]:
  "call f c w = (f (dw_log w @ [c]), emit c w)"

section \<open>The seccomp profile\<close>

text \<open>\<open>seccomp.json\<close>, which the compiler embeds.\<close>

definition seccompProfileJSON :: string where
  \<open>seccompProfileJSON = joinWith [CHR 0x0A] [
     ''{'',
     ''  "defaultAction": "SCMP_ACT_ALLOW",'',
     ''  "archMap": ['',
     ''    {'',
     ''      "architecture": "SCMP_ARCH_X86_64",'',
     ''      "subArchitectures": ["SCMP_ARCH_X86", "SCMP_ARCH_X32"]'',
     ''    },'',
     ''    {'',
     ''      "architecture": "SCMP_ARCH_AARCH64",'',
     ''      "subArchitectures": ["SCMP_ARCH_ARM"]'',
     ''    }'',
     ''  ],'',
     ''  "syscalls": ['',
     ''    {'',
     ''      "names": ['',
     ''        "ptrace",'',
     ''        "mount",'',
     ''        "umount2",'',
     ''        "pivot_root",'',
     ''        "reboot",'',
     ''        "kexec_load",'',
     ''        "kexec_file_load",'',
     ''        "init_module",'',
     ''        "finit_module",'',
     ''        "delete_module",'',
     ''        "bpf",'',
     ''        "perf_event_open",'',
     ''        "acct",'',
     ''        "swapon",'',
     ''        "swapoff",'',
     ''        "clock_settime",'',
     ''        "settimeofday",'',
     ''        "add_key",'',
     ''        "request_key",'',
     ''        "keyctl",'',
     ''        "mknod",'',
     ''        "mknodat"'',
     ''      ],'',
     ''      "action": "SCMP_ACT_ERRNO",'',
     ''      "errnoRet": 1'',
     ''    }'',
     ''  ]'',
     ''}'']\<close>

definition seccompProfileFile :: "docker_env \<Rightarrow> dworld \<Rightarrow> (string \<times> gerror option) \<times> dworld" where
  "seccompProfileFile env w =
     (let w' =
        (if dw_once w then w
         else let w1 = w\<lparr>dw_once := True\<rparr>;
                  dir0 = (case os_userCacheDir env of
                            Inl e \<Rightarrow> os_tempDir env
                          | Inr d \<Rightarrow> if d = [] then os_tempDir env else d);
                  dir = pathJoin [dir0, ''podman-sandbox-runner'']
           in (case os_mkdirAll env dir of
                 Some e \<Rightarrow> w1\<lparr>dw_err := Some e\<rparr>
               | None \<Rightarrow>
                   let p = pathJoin [dir, ''seccomp.json''] in
                   (case os_writeFile env p seccompProfileJSON of
                      Some e \<Rightarrow> w1\<lparr>dw_err := Some e\<rparr>
                    | None \<Rightarrow> w1\<lparr>dw_path := p, dw_files := dw_files w1 @ [(p, seccompProfileJSON)]\<rparr>)))
      in ((dw_path w', dw_err w'), w'))"

definition serverIsPodman :: "docker_env \<Rightarrow> dworld \<Rightarrow> bool \<times> dworld" where
  "serverIsPodman env w =
     (case call (dk_version env) DServerVersion w of
        (Inl e, w') \<Rightarrow> (False, w')
      | (Inr v, w') \<Rightarrow>
          (contains (toLower (sv_Version v)) ''podman''
             \<or> contains (toLower (sv_Platform v)) ''podman''
             \<or> (\<exists>c \<in> set (sv_Components v). contains (toLower c) ''podman''), w'))"

definition daemonIsPodman :: "docker_env \<Rightarrow> dworld \<Rightarrow> bool \<times> dworld" where
  "daemonIsPodman env w =
     (if contains (toLower (dk_host env)) ''podman'' then (True, w) else serverIsPodman env w)"

definition securityOpts :: "docker_env \<Rightarrow> dworld \<Rightarrow> string list \<times> dworld" where
  "securityOpts env w =
     (case daemonIsPodman env w of
        (True, w1) \<Rightarrow>
          (case seccompProfileFile env w1 of
             ((p, err), w2) \<Rightarrow>
               (''no-new-privileges'' # (if err = None \<and> p \<noteq> [] then [''seccomp='' @ p] else []), w2))
      | (False, w1) \<Rightarrow> ([''no-new-privileges'', ''seccomp='' @ seccompProfileJSON], w1))"

section \<open>What is handed to the daemon\<close>

text \<open>The package variables agree with the file system: at most one file, and it holds the profile.\<close>

definition sec_ok :: "dworld \<Rightarrow> bool" where
  "sec_ok w \<longleftrightarrow> (if dw_once w
     then (dw_err w = None \<and> dw_path w \<noteq> [] \<and> dw_files w = [(dw_path w, seccompProfileJSON)])
          \<or> (dw_err w \<noteq> None \<and> dw_path w = [] \<and> dw_files w = [])
     else dw_path w = [] \<and> dw_err w = None \<and> dw_files w = [])"

lemma sec_ok_cong:
  "dw_once w' = dw_once w \<and> dw_path w' = dw_path w \<and> dw_err w' = dw_err w \<and> dw_files w' = dw_files w \<Longrightarrow>
     sec_ok w' = sec_ok w"
  by (simp only: sec_ok_def)

lemma pathClean_nonempty [simp]: "pathClean p \<noteq> []"
  by (simp add: pathClean_def Let_def)

lemma seccompProfileFile_ok:
  assumes "sec_ok w" and "seccompProfileFile env w = ((p, err), w')"
  shows "sec_ok w' \<and> dw_once w' \<and> p = dw_path w' \<and> err = dw_err w' \<and> dw_log w' = dw_log w"
  using assms
  by (auto simp: seccompProfileFile_def sec_ok_def pathJoin_def Let_def split: if_splits option.splits)

lemma seccompProfileFile_again:
  "seccompProfileFile env w = (r, w') \<Longrightarrow> seccompProfileFile env' w' = (r, w')"
  by (auto simp: seccompProfileFile_def Let_def split: if_splits option.splits)

text \<open>Which daemon is it, and which calls were made to find out.\<close>

lemma daemonIsPodman_frame:
  assumes "daemonIsPodman env w = (b, w')"
  shows "dw_once w' = dw_once w \<and> dw_path w' = dw_path w \<and> dw_err w' = dw_err w \<and> dw_files w' = dw_files w"
    and "dw_log w' = dw_log w \<or> dw_log w' = dw_log w @ [DServerVersion]"
  using assms
  by (auto simp: daemonIsPodman_def serverIsPodman_def call_defs split: sum.splits if_splits)

lemma securityOpts_frame:
  assumes "sec_ok w" and "securityOpts env w = (opts, w')"
  shows "sec_ok w'" and "dw_log w' = dw_log w \<or> dw_log w' = dw_log w @ [DServerVersion]"
proof -
  obtain b w1 where b: "daemonIsPodman env w = (b, w1)" by fastforce
  note f = daemonIsPodman_frame [OF b]
  have "sec_ok w1" using assms(1) sec_ok_cong [OF f(1)] by simp
  moreover obtain p err w2 where "seccompProfileFile env w1 = ((p, err), w2)" by (metis prod.exhaust)
  note p = this seccompProfileFile_ok [OF \<open>sec_ok w1\<close> this]
  ultimately show "sec_ok w'" and "dw_log w' = dw_log w \<or> dw_log w' = dw_log w @ [DServerVersion]"
    using assms(2) b f p by (auto simp: securityOpts_def split: bool.splits)
qed


definition podmanEnv :: docker_env where
  "podmanEnv = \<lparr>dk_new = \<lambda>_. None, dk_host = ''unix:///run/user/1000/podman/podman.sock'',
     dk_version = \<lambda>_. Inl EOF, dk_imageInspect = \<lambda>_. None, dk_imagePull = \<lambda>_. None,
     dk_create = \<lambda>_. Inr ''c1'', dk_inspect = \<lambda>_. Inr \<lparr>ci_Runtime = ''crun'', ci_State = Some (True, False)\<rparr>,
     dk_attach = \<lambda>_. None, dk_start = \<lambda>_. None, dk_wait = \<lambda>_. WaitStatus 0,
     dk_execCreate = \<lambda>_. Inr ''e1'', dk_execAttach = \<lambda>_. None, dk_execInspect = \<lambda>_. Inr 0,
     dk_remove = \<lambda>_. None, dk_ctxDone = \<lambda>_. False, dk_elapsed = \<lambda>_. 5000000,
     os_userCacheDir = Inr ''/home/u/.cache'', os_tempDir = ''/tmp'',
     os_mkdirAll = \<lambda>_. None, os_writeFile = \<lambda>_ _. None\<rparr>"

lemma podman_host: "contains (toLower (dk_host podmanEnv)) ''podman''"
  by code_simp

lemma podman_path:
  "pathJoin [pathJoin [''/home/u/.cache'', ''podman-sandbox-runner''], ''seccomp.json'']
     = ''/home/u/.cache/podman-sandbox-runner/seccomp.json''"
  by code_simp


text \<open>
  The profile file is made at most once in the life of the process: every later request
  returns the same path or the same error, without touching the file system.
\<close>

theorem profile_written_once:
  assumes "seccompProfileFile env w = (r, w')"
  shows "seccompProfileFile env' w' = (r, w')
    \<and> (sec_ok w \<longrightarrow> length (dw_files w') \<le> 1 \<and> (\<forall>f \<in> set (dw_files w'). snd f = seccompProfileJSON))"
proof -
  obtain p err where r: "r = (p, err)" by (cases r)
  have "sec_ok w \<longrightarrow> sec_ok w' \<and> dw_once w'" using seccompProfileFile_ok assms r by blast
  then show ?thesis using seccompProfileFile_again [OF assms] by (auto simp: sec_ok_def)
qed

theorem profile_written_once_witness:
  "\<exists>r w'. seccompProfileFile podmanEnv freshWorld = (r, w') \<and> length (dw_files w') \<le> 1
     \<and> seccompProfileFile (podmanEnv\<lparr>os_writeFile := \<lambda>_ _. Some EOF\<rparr>) w' = (r, w')"
proof -
  obtain r w' where r: "seccompProfileFile podmanEnv freshWorld = (r, w')" by fastforce
  have "sec_ok freshWorld" by (simp add: sec_ok_def freshWorld_def)
  then show ?thesis using profile_written_once [OF r] r by blast
qed

end
