(* ===== verification/Docker.thy ===== *)
theory Docker
  imports Seccomp
begin

text \<open>
  The one-shot docker backend, \<open>pkg/sandbox/dockerapi.go\<close>. The body of \<open>Run\<close> is cut where the
  code defers a cleanup: each piece does its work and then what it deferred, on every return
  path. Goroutines that the code starts (the demultiplexer of the output, the stdin pump) are
  entries of the log.
\<close>

section \<open>The container\<close>

definition memBytes :: "opts \<Rightarrow> int64" where
  "memBytes o' = o_MemMB o' * 1024 * 1024"

definition nanoCPUs :: "opts \<Rightarrow> int64" where
  "nanoCPUs o' = f64ToInt64 (f64Round (o_CPUs o' * 1000000000))"

definition tmpfsMounts :: "(string \<times> string) list" where
  "tmpfsMounts = [(''/work'', ''rw,size=64m,mode=1777''), (''/tmp'', ''rw,size=16m,mode=1777'')]"

definition dockerSpec :: "opts \<Rightarrow> string list \<Rightarrow> container_spec" where
  "dockerSpec o' secOpts =
     \<lparr>cs_Image = o_Image o', cs_Cmd = o_Cmd o', cs_Env = o_Env o', cs_User = o_User o',
      cs_WorkingDir = ''/work'', cs_AttachStdout = True, cs_AttachStderr = True,
      cs_AttachStdin = o_WithStdin o', cs_OpenStdin = o_WithStdin o', cs_StdinOnce = o_WithStdin o',
      hc_Runtime = o_Runtime o', hc_Init = None, hc_NetworkMode = ''none'', hc_AutoRemove = False,
      hc_ReadonlyRootfs = True, hc_CapDrop = [''ALL''], hc_SecurityOpt = secOpts,
      hc_Binds = o_Binds o', hc_Tmpfs = tmpfsMounts, hc_Memory = memBytes o',
      hc_NanoCPUs = nanoCPUs o', hc_PidsLimit = Some 128\<rparr>"

section \<open>Run\<close>

text \<open>Pull the image when it is not local; errors are ignored. The one-shot run says so on stderr.\<close>

definition ensureImage :: "docker_env \<Rightarrow> bool \<Rightarrow> opts \<Rightarrow> dworld \<Rightarrow> dworld" where [call_defs]:
  "ensureImage env say o' w =
     (case call (dk_imageInspect env) (DImageInspect (o_Image o')) w of
        (None, w1) \<Rightarrow> w1
      | (Some _, w1) \<Rightarrow>
          let w2 = (if say then emit (DNote (''pulling '' @ o_Image o' @ ''...'' @ [CHR 0x0A])) w1 else w1)
          in (case call (dk_imagePull env) (DImagePull (o_Image o')) w2 of
                (Some _, w3) \<Rightarrow> w3
              | (None, w3) \<Rightarrow> emit DDrainPull w3))"

text \<open>The daemon must have assigned the runtime that was asked for.\<close>

definition verifyRuntime :: "docker_env \<Rightarrow> opts \<Rightarrow> string \<Rightarrow> dworld \<Rightarrow> gerror option \<times> dworld" where [call_defs]:
  "verifyRuntime env o' cid w =
     (if o_Runtime o' = [] then (None, w)
      else case call (dk_inspect env) (DInspect cid) w of
          (Inl e, w') \<Rightarrow> (Some (Wrap ''verifying runtime: '' e), w')
        | (Inr insp, w') \<Rightarrow>
            (if ci_Runtime insp \<noteq> o_Runtime o'
             then Some (Errorf (''requested runtime '' @ goQuote (o_Runtime o') @ '' but daemon assigned ''
                    @ goQuote (ci_Runtime insp) @ '' (podman's compat API ignores HostConfig.Runtime; ''
                    @ ''configure the runtime daemon-side or use a Docker daemon)''))
             else None, w'))"

text \<open>From the start of the container to the result.\<close>

definition dockerStarted :: "docker_env \<Rightarrow> opts \<Rightarrow> string \<Rightarrow> dworld \<Rightarrow> outcome \<times> dworld" where [call_defs]:
  "dockerStarted env o' cid w =
     (case call (dk_start env) (DStart cid) w of
        (Some e, w1) \<Rightarrow> ((zeroResult, Some (Wrap ''start: '' e)), w1)
      | (None, w1) \<Rightarrow>
          (case call (dk_wait env) (DWait cid) w1 of
             (WaitErr e, w2) \<Rightarrow>
               if dk_ctxDone env (dw_log w2)
               then ((zeroResult\<lparr>r_TimedOut := True, r_DurationMS := milliseconds (dk_elapsed env (dw_log w2))\<rparr>,
                      Some (Errorf (''timed out after '' @ durString (o_Timeout o') @ '' (container killed)''))), w2)
               else ((zeroResult, Some (Wrap ''wait: '' e)), w2)
           | (WaitStatus s, w2) \<Rightarrow>
               let res = zeroResult\<lparr>r_ExitCode := sint s,
                                    r_DurationMS := milliseconds (dk_elapsed env (dw_log w2))\<rparr>;
                   w3 = emit DAwaitOutput w2
               in (case call (dk_inspect env) (DInspect cid) w3 of
                     (Inl _, w4) \<Rightarrow> ((res, None), w4)
                   | (Inr insp, w4) \<Rightarrow>
                       (case ci_State insp of
                          None \<Rightarrow> ((res, None), w4)
                        | Some (_, oom) \<Rightarrow> ((res\<lparr>r_OOMKilled := oom\<rparr>, None), w4)))))"

text \<open>From the created container on; the attachment is closed on the way out.\<close>

definition dockerCreated :: "docker_env \<Rightarrow> opts \<Rightarrow> bool \<Rightarrow> string \<Rightarrow> dworld \<Rightarrow> outcome \<times> dworld" where [call_defs]:
  "dockerCreated env o' hasStdin cid w =
     (case verifyRuntime env o' cid w of
        (Some e, w1) \<Rightarrow> ((zeroResult, Some e), w1)
      | (None, w1) \<Rightarrow>
          (case call (dk_attach env) (DAttach cid (o_WithStdin o')) w1 of
             (Some e, w2) \<Rightarrow> ((zeroResult, Some (Wrap ''attach: '' e)), w2)
           | (None, w2) \<Rightarrow>
               let w3 = emit DDemux w2;
                   w4 = (if o_WithStdin o' \<and> hasStdin then emit DPumpStdin w3 else w3)
               in (case dockerStarted env o' cid w4 of (out, w5) \<Rightarrow> (out, emit DCloseAttach w5))))"

text \<open>From the connected client on; the container is removed on the way out.\<close>

definition dockerConnected :: "docker_env \<Rightarrow> opts \<Rightarrow> bool \<Rightarrow> dworld \<Rightarrow> outcome \<times> dworld" where [call_defs]:
  "dockerConnected env o' hasStdin w =
     (case securityOpts env (ensureImage env True o' w) of
        (secOpts, w1) \<Rightarrow>
          (case call (dk_create env) (DCreate (dockerSpec o' secOpts)) w1 of
             (Inl e, w2) \<Rightarrow> ((zeroResult, Some (Wrap ''create: '' e)), w2)
           | (Inr cid, w2) \<Rightarrow>
               (case dockerCreated env o' hasStdin cid w2 of
                  (out, w3) \<Rightarrow> (out, emit (DRemove cid) w3))))"

definition dockerRun :: "docker_env \<Rightarrow> opts \<Rightarrow> bool \<Rightarrow> dworld \<Rightarrow> outcome \<times> dworld" where [call_defs]:
  "dockerRun env o' hasStdin w =
     (case call (dk_new env) DNew w of
        (Some e, w1) \<Rightarrow> ((zeroResult, Some (Wrap ''connecting to socket: '' e)), w1)
      | (None, w1) \<Rightarrow>
          (case dockerConnected env o' hasStdin w1 of (out, w2) \<Rightarrow> (out, emit DCloseClient w2)))"

section \<open>The shape of the log\<close>

lemma emit_sel [simp]: "dw_log (emit c w) = dw_log w @ [c]" "sec_ok (emit c w) = sec_ok w"
  by (simp_all add: emit_def sec_ok_def)

lemma call_eq [simp]: "call f c w = (f (dw_log w @ [c]), emit c w)"
  by (simp add: call_def)

lemma ensureImage_log:
  "\<exists>ext. dw_log (ensureImage env say o' w) = dw_log w @ ext
     \<and> set ext \<subseteq> {DImageInspect (o_Image o'), DNote (''pulling '' @ o_Image o' @ ''...'' @ [CHR 0x0A]),
                   DImagePull (o_Image o'), DDrainPull}"
  "sec_ok (ensureImage env say o' w) = sec_ok w"
  by (auto simp: ensureImage_def Let_def split: option.split)

text \<open>The runtime was verified, or none was asked for.\<close>

definition runtimeSeen :: "docker_env \<Rightarrow> opts \<Rightarrow> string \<Rightarrow> dcall list \<Rightarrow> bool" where
  "runtimeSeen env o' cid l \<longleftrightarrow> o_Runtime o' = [] \<or>
     (\<exists>pre post i. l = pre @ DInspect cid # post \<and> dk_inspect env (pre @ [DInspect cid]) = Inr i
        \<and> ci_Runtime i = o_Runtime o')"

lemma runtimeSeen_append: "runtimeSeen env o' cid l \<Longrightarrow> runtimeSeen env o' cid (l @ x)"
  by (fastforce simp: runtimeSeen_def)

lemma verifyRuntime_log:
  assumes "verifyRuntime env o' cid w = (r, w')"
  shows "\<exists>ext. dw_log w' = dw_log w @ ext \<and> set ext \<subseteq> {DInspect cid}"
    and "r = None \<Longrightarrow> runtimeSeen env o' cid (dw_log w')"
proof -
  show "\<exists>ext. dw_log w' = dw_log w @ ext \<and> set ext \<subseteq> {DInspect cid}"
    using assms by (auto simp: verifyRuntime_def split: if_splits sum.splits)
  show "runtimeSeen env o' cid (dw_log w')" if "r = None"
    using assms that unfolding runtimeSeen_def
    by (auto simp: verifyRuntime_def split: if_splits sum.splits intro: exI [of _ "dw_log w"])
qed

lemma dockerStarted_log:
  assumes "dockerStarted env o' cid w = (out, w')"
  shows "\<exists>ext. dw_log w' = dw_log w @ DStart cid # ext
    \<and> set ext \<subseteq> {DWait cid, DAwaitOutput, DInspect cid}"
  using assms
  by (auto simp: dockerStarted_def Let_def
      split: option.splits wait_reply.splits sum.splits if_splits)

text \<open>Calls that work on a container that exists already, without removing it.\<close>

fun worksOn :: "string \<Rightarrow> dcall \<Rightarrow> bool" where
  "worksOn cid (DInspect i) = (i = cid)"
| "worksOn cid (DAttach i b) = (i = cid)"
| "worksOn cid (DStart i) = (i = cid)"
| "worksOn cid (DWait i) = (i = cid)"
| "worksOn cid DDemux = True"
| "worksOn cid DPumpStdin = True"
| "worksOn cid DAwaitOutput = True"
| "worksOn cid DCloseAttach = True"
| "worksOn cid _ = False"

lemma dockerCreated_log:
  assumes "dockerCreated env o' hasStdin cid w = (out, w')"
  shows "(\<exists>ext. dw_log w' = dw_log w @ ext \<and> (\<forall>c \<in> set ext. worksOn cid c) \<and> DStart cid \<notin> set ext
            \<and> snd out \<noteq> None)
    \<or> (\<exists>a b. dw_log w' = dw_log w @ a @ DStart cid # b @ [DCloseAttach]
         \<and> (\<forall>c \<in> set a \<union> set b. worksOn cid c) \<and> DStart cid \<notin> set a \<union> set b
         \<and> DAttach cid (o_WithStdin o') \<in> set a \<and> DDemux \<in> set a
         \<and> runtimeSeen env o' cid (dw_log w @ a))"
proof -
  obtain r w1 where r: "verifyRuntime env o' cid w = (r, w1)" by fastforce
  obtain e1 where e1: "dw_log w1 = dw_log w @ e1" "set e1 \<subseteq> {DInspect cid}"
    using verifyRuntime_log(1) [OF r] by blast
  have e1w: "\<forall>c \<in> set e1. worksOn cid c" "DStart cid \<notin> set e1" using e1(2) by auto
  let ?att = "DAttach cid (o_WithStdin o')"
  show ?thesis
  proof (cases "r = None \<and> dk_attach env (dw_log w1 @ [?att]) = None")
    case False
    then show ?thesis using assms r e1(1) e1w
      by (auto simp: dockerCreated_def Let_def split: option.splits)
  next
    case True
    define pump where "pump = (if o_WithStdin o' \<and> hasStdin then [DPumpStdin] else [])"
    define w4 where "w4 = (if o_WithStdin o' \<and> hasStdin then emit DPumpStdin (emit DDemux (emit ?att w1))
      else emit DDemux (emit ?att w1))"
    have w4: "dw_log w4 = dw_log w @ e1 @ [?att, DDemux] @ pump"
      by (simp add: w4_def pump_def e1(1))
    obtain out' w5 where w5: "dockerStarted env o' cid w4 = (out', w5)" by fastforce
    obtain b where b: "dw_log w5 = dw_log w4 @ DStart cid # b"
      "set b \<subseteq> {DWait cid, DAwaitOutput, DInspect cid}"
      using dockerStarted_log [OF w5] by blast
    have "w' = emit DCloseAttach w5"
      using assms r True w5 by (simp add: dockerCreated_def Let_def w4_def split: prod.splits)
    then have log: "dw_log w' = dw_log w @ (e1 @ [?att, DDemux] @ pump) @ DStart cid # b @ [DCloseAttach]"
      by (simp add: b(1) w4)
    have seen: "runtimeSeen env o' cid (dw_log w @ (e1 @ [?att, DDemux] @ pump))"
      using runtimeSeen_append [OF verifyRuntime_log(2) [OF r], of "[?att, DDemux] @ pump"] True e1(1)
      by simp
    have "\<forall>c \<in> set (e1 @ [?att, DDemux] @ pump) \<union> set b. worksOn cid c"
      and "DStart cid \<notin> set (e1 @ [?att, DDemux] @ pump) \<union> set b"
      using e1w b(2) by (auto simp: pump_def)
    then show ?thesis using log seen by (intro disjI2 exI [of _ "e1 @ [?att, DDemux] @ pump"] exI [of _ b]) auto
  qed
qed

text \<open>Calls made before there is a container.\<close>

fun beforeCreate :: "dcall \<Rightarrow> bool" where
  "beforeCreate DNew = True"
| "beforeCreate DServerVersion = True"
| "beforeCreate (DImageInspect i) = True"
| "beforeCreate (DNote s) = True"
| "beforeCreate (DImagePull i) = True"
| "beforeCreate DDrainPull = True"
| "beforeCreate _ = False"

fun isCreate :: "dcall \<Rightarrow> bool" where
  "isCreate (DCreate spec) = True"
| "isCreate _ = False"

lemma beforeCreate_not: "beforeCreate c \<Longrightarrow> \<not> isCreate c \<and> \<not> worksOn cid c"
  by (cases c) auto

lemma worksOn_not: "worksOn cid c \<Longrightarrow> \<not> isCreate c \<and> c \<noteq> DRemove i \<and> c \<noteq> DCloseClient"
  by (cases c) auto

lemma dockerConnected_log:
  assumes "dockerConnected env o' hasStdin w = (out, w')" and ok: "sec_ok w"
  obtains p secOpts post where
    "dw_log w' = dw_log w @ p @ DCreate (dockerSpec o' secOpts) # post" "\<forall>c \<in> set p. beforeCreate c"
    "''no-new-privileges'' \<in> set secOpts"
    "\<And>e. dk_create env (dw_log w @ p @ [DCreate (dockerSpec o' secOpts)]) = Inl e \<Longrightarrow>
       post = [] \<and> out = (zeroResult, Some (Wrap ''create: '' e))"
    "\<And>cid. dk_create env (dw_log w @ p @ [DCreate (dockerSpec o' secOpts)]) = Inr cid \<Longrightarrow>
       \<exists>w2 w3. dw_log w2 = dw_log w @ p @ [DCreate (dockerSpec o' secOpts)]
         \<and> dockerCreated env o' hasStdin cid w2 = (out, w3) \<and> w' = emit (DRemove cid) w3"
proof -
  obtain e1 where e1: "dw_log (ensureImage env True o' w) = dw_log w @ e1" "\<forall>c \<in> set e1. beforeCreate c"
    using ensureImage_log(1) [of env True o' w] by fastforce
  have ok1: "sec_ok (ensureImage env True o' w)" using ok ensureImage_log(2) by simp
  obtain secOpts w1 where s: "securityOpts env (ensureImage env True o' w) = (secOpts, w1)" by fastforce
  obtain e2 where e2: "dw_log w1 = dw_log w @ e1 @ e2" "\<forall>c \<in> set e2. beforeCreate c"
    using securityOpts_frame(2) [OF ok1 s] e1(1) by fastforce
  have priv: "''no-new-privileges'' \<in> set secOpts" using s by (auto simp: securityOpts_def split: prod.splits bool.splits)
  let ?c = "DCreate (dockerSpec o' secOpts)"
  show ?thesis
  proof (cases "dk_create env (dw_log w1 @ [?c])")
    case (Inl e)
    then show ?thesis using assms(1) s e1 e2 priv
      by (intro that [of "e1 @ e2" secOpts "[]"]) (auto simp: dockerConnected_def)
  next
    case (Inr cid)
    obtain out' w3 where d: "dockerCreated env o' hasStdin cid (emit ?c w1) = (out', w3)" by fastforce
    then have w': "w' = emit (DRemove cid) w3" "out' = out"
      using assms(1) s Inr by (auto simp: dockerConnected_def)
    obtain ext where "dw_log w3 = dw_log (emit ?c w1) @ ext"
      using dockerCreated_log [OF d] by fastforce
    then show ?thesis using w' e1 e2 priv Inr d
      by (intro that [of "e1 @ e2" secOpts "ext @ [DRemove cid]"]) (auto intro: exI [of _ "emit ?c w1"])
  qed
qed

lemma dockerRun_log:
  assumes "dockerRun env o' hasStdin w = (out, w')" and ok: "sec_ok w" and new: "dw_log w = []"
  obtains (unconnected) e where "dw_log w' = [DNew]" "out = (zeroResult, Some (Wrap ''connecting to socket: '' e))"
  | (uncreated) p secOpts e where
      "dw_log w' = p @ DCreate (dockerSpec o' secOpts) # [DCloseClient]" "\<forall>c \<in> set p. beforeCreate c"
      "''no-new-privileges'' \<in> set secOpts"
      "dk_create env (p @ [DCreate (dockerSpec o' secOpts)]) = Inl e"
      "out = (zeroResult, Some (Wrap ''create: '' e))"
  | (created) p secOpts cid mid w2 w3 where
      "dw_log w' = p @ DCreate (dockerSpec o' secOpts) # mid @ [DRemove cid, DCloseClient]"
      "\<forall>c \<in> set p. beforeCreate c" "''no-new-privileges'' \<in> set secOpts"
      "dk_create env (p @ [DCreate (dockerSpec o' secOpts)]) = Inr cid"
      "dw_log w2 = p @ [DCreate (dockerSpec o' secOpts)]"
      "dockerCreated env o' hasStdin cid w2 = (out, w3)" "dw_log w3 = dw_log w2 @ mid"
      "\<forall>c \<in> set mid. worksOn cid c"
proof (cases "dk_new env [DNew]")
  case (Some e)
  then show ?thesis using assms(1) new by (intro unconnected) (auto simp: dockerRun_def)
next
  case None
  obtain out' w2 where c: "dockerConnected env o' hasStdin (emit DNew w) = (out', w2)" by fastforce
  have w': "w' = emit DCloseClient w2" "out' = out"
    using assms(1) None c new by (auto simp: dockerRun_def)
  show ?thesis
  proof (rule dockerConnected_log [OF c], simp add: ok, goal_cases)
    case (1 p secOpts post)
    have p: "\<forall>c \<in> set (DNew # p). beforeCreate c" using 1(2) by simp
    show ?thesis
    proof (cases "dk_create env ((DNew # p) @ [DCreate (dockerSpec o' secOpts)])")
      case (Inl e)
      then show ?thesis using 1 w' new p by (intro uncreated [of "DNew # p" secOpts e]) auto
    next
      case (Inr cid)
      then obtain w3 w4 where w3: "dw_log w3 = (DNew # p) @ [DCreate (dockerSpec o' secOpts)]"
        "dockerCreated env o' hasStdin cid w3 = (out', w4)" "w2 = emit (DRemove cid) w4"
        using 1(5) new by fastforce
      obtain mid where mid: "dw_log w4 = dw_log w3 @ mid" "\<forall>c \<in> set mid. worksOn cid c"
        using dockerCreated_log [OF w3(2)] by fastforce
      then show ?thesis using 1(3) w' w3 p Inr
        by (intro created [of "DNew # p" secOpts mid cid w3 w4]) auto
    qed
  qed
qed

section \<open>The properties of a one-shot run\<close>


text \<open>A daemon to run on, with and without a failing step.\<close>

definition dockerEnv :: docker_env where
  "dockerEnv = podmanEnv\<lparr>dk_host := ''unix:///var/run/docker.sock'',
     dk_version := \<lambda>_. Inr \<lparr>sv_Version = ''27.0'', sv_Platform = ''Docker Engine'', sv_Components = [''Engine'']\<rparr>\<rparr>"

lemma docker_host:
  "\<not> contains (toLower (dk_host dockerEnv)) ''podman''"
  "\<not> contains (toLower ''27.0'') ''podman''" "\<not> contains (toLower ''Docker Engine'') ''podman''"
  "\<not> contains (toLower ''Engine'') ''podman''"
  by code_simp+


text \<open>
  C10. Every container is created locked down, for all options and whatever the daemon answers:
  no network, a read-only root, all capabilities dropped, no new privileges, 128 processes,
  scratch space in memory only, the limits and the user that were asked for.
\<close>

theorem docker_hardened:
  assumes "dockerRun env o' hasStdin w = (out, w')" and "sec_ok w" and "dw_log w = []"
    and "DCreate spec \<in> set (dw_log w')"
  shows "hc_NetworkMode spec = ''none'' \<and> hc_ReadonlyRootfs spec \<and> hc_CapDrop spec = [''ALL'']
    \<and> ''no-new-privileges'' \<in> set (hc_SecurityOpt spec) \<and> hc_PidsLimit spec = Some 128
    \<and> map fst (hc_Tmpfs spec) = [''/work'', ''/tmp''] \<and> \<not> hc_AutoRemove spec
    \<and> cs_User spec = o_User o' \<and> hc_Runtime spec = o_Runtime o' \<and> cs_Image spec = o_Image o'
    \<and> hc_Memory spec = memBytes o' \<and> hc_NanoCPUs spec = nanoCPUs o' \<and> hc_Binds spec = o_Binds o'"
proof -
  have "\<exists>secOpts. spec = dockerSpec o' secOpts \<and> ''no-new-privileges'' \<in> set secOpts"
    using assms(1-3)
  proof (cases rule: dockerRun_log)
    case (unconnected e)
    then show ?thesis using assms(4) by simp
  next
    case (uncreated p secOpts e)
    have "DCreate spec \<notin> set p" using uncreated(2) by auto
    then show ?thesis using uncreated assms(4) by auto
  next
    case (created p secOpts cid mid w2 w3)
    have "DCreate spec \<notin> set p" "DCreate spec \<notin> set mid" using created(2,8) by auto
    then show ?thesis using created assms(4) by auto
  qed
  then show ?thesis by (auto simp: dockerSpec_def tmpfsMounts_def)
qed

theorem docker_hardened_witness:
  "\<exists>out w' spec. dockerRun dockerEnv startOpts False freshWorld = (out, w') \<and> DCreate spec \<in> set (dw_log w')
     \<and> hc_NetworkMode spec = ''none'' \<and> hc_Memory spec = 134217728"
proof -
  let ?spec = "dockerSpec startOpts [''no-new-privileges'', ''seccomp='' @ seccompProfileJSON]"
  obtain out w' where w': "dockerRun dockerEnv startOpts False freshWorld = (out, w')" by fastforce
  then have c: "DCreate ?spec \<in> set (dw_log w')"
    using docker_host
    by (auto simp: call_defs securityOpts_def daemonIsPodman_def serverIsPodman_def dockerEnv_def podmanEnv_def
        freshWorld_def startOpts_def)
  have "sec_ok freshWorld" "dw_log freshWorld = []" by (simp_all add: sec_ok_def freshWorld_def)
  from docker_hardened [OF w' this c] have "hc_NetworkMode ?spec = ''none'' \<and> hc_Memory ?spec = memBytes startOpts"
    by blast
  moreover have "memBytes startOpts = 134217728" by (simp add: memBytes_def startOpts_def)
  ultimately show ?thesis using w' c by auto
qed

text \<open>
  C11. A container is started only after the daemon was seen to have assigned the runtime that
  was asked for (a daemon that ignores the request, or does not answer, fails the run), and
  only after the output is attached and read, so that nothing is missed; it is started once.
\<close>

theorem docker_runtime_fail_closed:
  assumes "dockerRun env o' hasStdin w = (out, w')" and "sec_ok w" and "dw_log w = []"
    and log: "dw_log w' = pre @ DStart cid # post"
  shows "runtimeSeen env o' cid pre \<and> DAttach cid (o_WithStdin o') \<in> set pre \<and> DDemux \<in> set pre
    \<and> DStart cid \<notin> set pre \<and> DStart cid \<notin> set post"
  using assms(1-3)
proof (cases rule: dockerRun_log)
  case (unconnected e)
  then show ?thesis using log by (cases pre) auto
next
  case (uncreated p secOpts e)
  have "DStart cid \<notin> set (dw_log w')" using uncreated(1,2) by auto
  then show ?thesis using log by simp
next
  case (created p secOpts k mid w2 w3)
  have p: "DStart cid \<notin> set p" using created(2) by auto
  have k: "k = cid"
  proof -
    have "DStart cid \<in> set (dw_log w')" using log by simp
    then have "DStart cid \<in> set mid" using created(1) p by simp
    then show ?thesis using created(8) by auto
  qed
  from dockerCreated_log [OF created(6)]
  consider "\<forall>c \<in> set mid. c \<noteq> DStart cid"
    | a b where "mid = a @ DStart cid # b @ [DCloseAttach]" "DStart cid \<notin> set a \<union> set b"
      "DAttach cid (o_WithStdin o') \<in> set a" "DDemux \<in> set a" "runtimeSeen env o' cid (dw_log w2 @ a)"
    using created(7) k by fastforce
  then show ?thesis
  proof cases
    case 1
    then have "DStart cid \<notin> set (dw_log w')" using created(1) p by auto
    then show ?thesis using log by simp
  next
    case 2
    let ?pre = "p @ DCreate (dockerSpec o' secOpts) # a"
    have "?pre @ DStart cid # b @ [DCloseAttach, DRemove cid, DCloseClient] = pre @ DStart cid # post"
      using created(1) 2(1) log k by simp
    then have "?pre = pre \<and> DStart cid = DStart cid \<and> b @ [DCloseAttach, DRemove cid, DCloseClient] = post"
      by (rule unique_split [where P = "\<lambda>c. c = DStart cid"]) (use 2(2) p in auto)
    then show ?thesis using 2 p created(5) by auto
  qed
qed

definition gvisorOpts :: opts where
  "gvisorOpts = startOpts\<lparr>o_Runtime := ''runsc''\<rparr>"

theorem docker_runtime_fail_closed_witness:
  "\<exists>out w' pre post. dockerRun (dockerEnv\<lparr>dk_inspect := \<lambda>_. Inr \<lparr>ci_Runtime = ''runsc'', ci_State = None\<rparr>\<rparr>)
      gvisorOpts False freshWorld = (out, w') \<and> dw_log w' = pre @ DStart ''c1'' # post
     \<and> DAttach ''c1'' False \<in> set pre \<and> snd out = None"
proof -
  let ?env = "dockerEnv\<lparr>dk_inspect := \<lambda>_. Inr \<lparr>ci_Runtime = ''runsc'', ci_State = None\<rparr>\<rparr>"
  let ?spec = "dockerSpec gvisorOpts [''no-new-privileges'', ''seccomp='' @ seccompProfileJSON]"
  let ?pre = "[DNew, DImageInspect ''alpine'', DServerVersion, DCreate ?spec, DInspect ''c1'',
    DAttach ''c1'' False, DDemux]"
  obtain out w' where w': "dockerRun ?env gvisorOpts False freshWorld = (out, w')" by fastforce
  then have r: "snd out = None" "\<exists>post. dw_log w' = ?pre @ DStart ''c1'' # post"
    using docker_host
    by (auto simp: call_defs securityOpts_def daemonIsPodman_def serverIsPodman_def dockerEnv_def podmanEnv_def
        freshWorld_def gvisorOpts_def startOpts_def Let_def)
  then obtain post where post: "dw_log w' = ?pre @ DStart ''c1'' # post" by blast
  have "sec_ok freshWorld" "dw_log freshWorld = []" by (simp_all add: sec_ok_def freshWorld_def)
  from docker_runtime_fail_closed [OF w' this post] have "DAttach ''c1'' False \<in> set ?pre"
    by (simp add: gvisorOpts_def startOpts_def)
  then show ?thesis using w' r(1) post by blast
qed

definition dockerTimeout :: "opts \<Rightarrow> gerror" where
  "dockerTimeout o' = Errorf (''timed out after '' @ durString (o_Timeout o') @ '' (container killed)'')"

lemma dockerStarted_out:
  assumes "dockerStarted env o' cid w = (out, w')"
  shows "(r_TimedOut (fst out) \<longrightarrow> snd out = Some (dockerTimeout o'))
    \<and> (snd out \<noteq> None \<longrightarrow> r_ExitCode (fst out) = 0 \<and> \<not> r_OOMKilled (fst out))
    \<and> (snd out = None \<longrightarrow> (\<exists>s. dk_wait env (dw_log w @ [DStart cid, DWait cid]) = WaitStatus s
         \<and> r_ExitCode (fst out) = sint s))
    \<and> r_Stdout (fst out) = [] \<and> r_Error (fst out) = []"
  using assms
  by (auto simp: dockerStarted_def Let_def dockerTimeout_def zeroResult_def
      split: option.splits wait_reply.splits sum.splits if_splits)

lemma dockerCreated_out:
  assumes "dockerCreated env o' hasStdin cid w = (out, w')"
  shows "(\<exists>e. out = (zeroResult, Some e)) \<or> (\<exists>w1 w2. dockerStarted env o' cid w1 = (out, w2))"
  using assms by (auto simp: dockerCreated_def Let_def split: option.splits prod.splits if_splits)

lemma dockerRun_out:
  assumes "dockerRun env o' hasStdin w = (out, w')"
  shows "(r_TimedOut (fst out) \<longrightarrow> snd out = Some (dockerTimeout o'))
    \<and> (snd out \<noteq> None \<longrightarrow> r_ExitCode (fst out) = 0 \<and> \<not> r_OOMKilled (fst out))
    \<and> (snd out = None \<longrightarrow> (\<exists>l s. dk_wait env l = WaitStatus s \<and> r_ExitCode (fst out) = sint s))"
proof -
  have "(\<exists>e. out = (zeroResult, Some e)) \<or> (\<exists>cid w1 w2. dockerCreated env o' hasStdin cid w1 = (out, w2))"
    using assms
    by (auto simp: dockerRun_def dockerConnected_def split: option.splits prod.splits sum.splits)
  then consider e where "out = (zeroResult, Some e)" | cid w1 w2 where "dockerStarted env o' cid w1 = (out, w2)"
    using dockerCreated_out by blast
  then show ?thesis
  proof cases
    case 1
    then show ?thesis by (simp add: zeroResult_def)
  next
    case 2
    from dockerStarted_out [OF 2] show ?thesis by blast
  qed
qed

text \<open>
  What a run reports: without an error, the exit code is the status the daemon gave when
  the container stopped, and the run did not time out; with an error, no exit code and no OOM
  flag is reported, and a timeout always carries the error that names the limit.
\<close>

theorem docker_outcome:
  assumes "dockerRun env o' hasStdin w = (out, w')"
  shows "(r_TimedOut (fst out) \<longrightarrow> snd out = Some (dockerTimeout o'))
    \<and> (snd out \<noteq> None \<longrightarrow> r_ExitCode (fst out) = 0 \<and> \<not> r_OOMKilled (fst out))
    \<and> (snd out = None \<longrightarrow> \<not> r_TimedOut (fst out)
         \<and> (\<exists>l s. dk_wait env l = WaitStatus s \<and> r_ExitCode (fst out) = sint s))"
  using dockerRun_out [OF assms] by auto

theorem docker_outcome_witness:
  "\<exists>out w'. dockerRun (dockerEnv\<lparr>dk_wait := \<lambda>_. WaitErr DeadlineExceeded, dk_ctxDone := \<lambda>_. True\<rparr>)
      startOpts False freshWorld = (out, w') \<and> r_TimedOut (fst out) \<and> snd out = Some (dockerTimeout startOpts)"
proof -
  let ?env = "dockerEnv\<lparr>dk_wait := \<lambda>_. WaitErr DeadlineExceeded, dk_ctxDone := \<lambda>_. True\<rparr>"
  obtain out w' where w': "dockerRun ?env startOpts False freshWorld = (out, w')" by fastforce
  then have "r_TimedOut (fst out)"
    by (auto simp: call_defs dockerEnv_def podmanEnv_def freshWorld_def startOpts_def Let_def split: prod.splits)
  then show ?thesis using docker_outcome [OF w'] w' by blast
qed

end
