(* ===== verification/PoolImpl.thy ===== *)
theory PoolImpl
  imports Pool
begin

text \<open>
  The interface \<open>poolImpl\<close> of \<open>pkg/sandbox/pool.go\<close>, as the pool uses it: under the holder's
  mutex \<open>Run\<close> calls \<open>run\<close>, then always \<open>cleanup\<close>, then \<open>checkHolder\<close>. The backends interpret
  the locale on their own models.
\<close>

definition holderCycle :: "('w \<Rightarrow> outcome \<times> 'w) \<Rightarrow> ('w \<Rightarrow> 'w) \<Rightarrow> ('w \<Rightarrow> gerror option \<times> 'w) \<Rightarrow> 'w
    \<Rightarrow> outcome \<times> gerror option \<times> 'w" where
  "holderCycle run cleanup check w =
     (case run w of (out, w1) \<Rightarrow> (case check (cleanup w1) of (c, w2) \<Rightarrow> (out, c, w2)))"

text \<open>The environment that a call of the pool sees when it works on such a holder.\<close>

definition cycleEnv :: "gerror option \<Rightarrow> gerror option \<Rightarrow> outcome \<times> gerror option \<times> 'w \<Rightarrow> run_env" where
  "cycleEnv nw ctx cyc = \<lparr>a_newImpl = nw, a_ctxEnd = ctx, a_run = fst cyc, a_check = fst (snd cyc)\<rparr>"

text \<open>What a call of the pool can return.\<close>

lemma poolRun_out:
  assumes "poolRun a p = Returns (out, p')"
  shows "(\<exists>e. out = (zeroResult, Some e)) \<or> out = a_run a
    \<or> (\<exists>e. a_check a = Some e \<and> out = (fst (a_run a), diedErr (snd (a_run a)) e))"
  using assms
  by (auto simp: poolRun_def Let_def split: exec.splits sum.splits prod.splits option.splits if_splits)

lemma diedErr_Some [simp]: "diedErr r e \<noteq> None"
  by (simp add: diedErr_def split: option.split)

lemma poolRun_fine_check:
  assumes "poolRun a p = Returns (out, p')" and "snd out = None"
  shows "a_check a = None \<and> out = a_run a"
  using assms
  by (auto simp: poolRun_def Let_def split: exec.splits sum.splits prod.splits option.splits if_splits)

locale pool_impl =
  fixes run :: "'e \<Rightarrow> 'h \<Rightarrow> string list \<Rightarrow> bool \<Rightarrow> 'w \<Rightarrow> outcome \<times> 'w"
    and cleanup :: "'e \<Rightarrow> 'h \<Rightarrow> 'w \<Rightarrow> 'w"
    and check :: "'e \<Rightarrow> 'h \<Rightarrow> 'w \<Rightarrow> gerror option \<times> 'w"
    and limit :: "'h \<Rightarrow> gerror"
    and known :: "'h \<Rightarrow> 'w \<Rightarrow> bool"
  assumes run_timeout: "run e h cmd b w = (out, w') \<Longrightarrow> r_TimedOut (fst out) \<Longrightarrow> snd out = Some (limit h)"
    and run_failed: "run e h cmd b w = (out, w') \<Longrightarrow> snd out \<noteq> None \<Longrightarrow>
      r_ExitCode (fst out) = 0 \<and> \<not> r_OOMKilled (fst out)"
    and run_fine: "run e h cmd b w = (out, w') \<Longrightarrow> snd out = None \<Longrightarrow>
      (r_OOMKilled (fst out) \<longleftrightarrow> r_ExitCode (fst out) = 137)"
    and run_known: "run e h cmd b w = (out, w') \<Longrightarrow> known h w \<Longrightarrow> known h w'"
    and cleanup_known: "known h w \<Longrightarrow> known h (cleanup e h w)"
    and check_known: "check e h w = (c, w') \<Longrightarrow> known h w \<Longrightarrow> known h w'"
begin

text \<open>A cycle keeps the holder in the world: only \<open>close\<close> removes it.\<close>

lemma cycle_known:
  "holderCycle (run e h cmd b) (cleanup e h) (check e h) w = (out, c, w') \<Longrightarrow> known h w \<Longrightarrow> known h w'"
  by (auto simp: holderCycle_def split: prod.splits intro: run_known cleanup_known check_known)

text \<open>What a caller of the pool sees, whatever state the pool is in.\<close>

lemma pool_reports:
  assumes "holderCycle (run e h cmd b) (cleanup e h) (check e h) w = cyc"
    and "poolRun (cycleEnv nw ctx cyc) p = Returns (out, p')"
  shows "(r_TimedOut (fst out) \<longrightarrow> snd out = Some (limit h))
    \<and> (snd out = None \<longrightarrow> fst (snd cyc) = None \<and> out = fst cyc
         \<and> (r_OOMKilled (fst out) \<longleftrightarrow> r_ExitCode (fst out) = 137))"
proof -
  obtain o1 w1 where r: "run e h cmd b w = (o1, w1)" by fastforce
  have c: "fst cyc = o1" using assms(1) r by (auto simp: holderCycle_def split: prod.splits)
  have a: "a_run (cycleEnv nw ctx cyc) = o1" "a_check (cycleEnv nw ctx cyc) = fst (snd cyc)"
    by (simp_all add: cycleEnv_def c)
  from poolRun_out [OF assms(2)]
  consider (early) x where "out = (zeroResult, Some x)"
    | (fine) "out = o1" "fst (snd cyc) = None \<or> snd out \<noteq> None"
    | (dead) x where "out = (fst o1, diedErr (snd o1) x)"
    using a poolRun_fine_check [OF assms(2)] by fastforce
  then show ?thesis
  proof cases
    case early
    then show ?thesis by (simp add: zeroResult_def)
  next
    case fine
    then show ?thesis using run_timeout [OF r] run_fine [OF r] c by auto
  next
    case dead
    then show ?thesis using run_timeout [OF r] by (auto simp: diedErr_def split: option.splits)
  qed
qed

end

end
