(* ===== verification/DockerPool.thy ===== *)
theory DockerPool
  imports Docker PoolImpl
begin

text \<open>
  The pool's docker backend, \<open>pkg/sandbox/pooldocker.go\<close>: one container per holder that sleeps,
  and one exec per run. It makes its calls over the log of \<open>Seccomp\<close>.
\<close>

section \<open>The holder\<close>

record docker_pool =
  dp_id :: string
  dp_opts :: opts

definition holderSpec :: "opts \<Rightarrow> string list \<Rightarrow> container_spec" where
  "holderSpec o' secOpts =
     \<lparr>cs_Image = o_Image o', cs_Cmd = [''sleep'', ''infinity''], cs_Env = [], cs_User = [],
      cs_WorkingDir = ''/work'', cs_AttachStdout = False, cs_AttachStderr = False,
      cs_AttachStdin = False, cs_OpenStdin = False, cs_StdinOnce = False,
      hc_Runtime = o_Runtime o', hc_Init = Some True, hc_NetworkMode = ''none'', hc_AutoRemove = False,
      hc_ReadonlyRootfs = True, hc_CapDrop = [''ALL''], hc_SecurityOpt = secOpts,
      hc_Binds = o_Binds o', hc_Tmpfs = tmpfsMounts, hc_Memory = memBytes o',
      hc_NanoCPUs = nanoCPUs o', hc_PidsLimit = Some 128\<rparr>"

definition poolVerifyRuntime :: "docker_env \<Rightarrow> opts \<Rightarrow> string \<Rightarrow> dworld \<Rightarrow> gerror option \<times> dworld" where [call_defs]:
  "poolVerifyRuntime env o' cid w =
     (if o_Runtime o' = [] then (None, w)
      else case call (dk_inspect env) (DInspect cid) w of
          (Inl e, w') \<Rightarrow> (Some (Wrap ''pool: verifying runtime: '' e), w')
        | (Inr insp, w') \<Rightarrow>
            (if ci_Runtime insp \<noteq> o_Runtime o'
             then Some (Errorf (''pool: requested runtime '' @ goQuote (o_Runtime o')
                    @ '' but daemon assigned '' @ goQuote (ci_Runtime insp)))
             else None, w'))"

text \<open>The local function \<open>fail\<close>: remove the container, close the client, return the error.\<close>

definition failHolder :: "string \<Rightarrow> gerror \<Rightarrow> dworld \<Rightarrow> (gerror + docker_pool) \<times> dworld" where [call_defs]:
  "failHolder cid e w = (Inl e, emit DCloseClient (emit (DRemove cid) w))"

definition newDockerPool :: "docker_env \<Rightarrow> opts \<Rightarrow> dworld \<Rightarrow> (gerror + docker_pool) \<times> dworld" where [call_defs]:
  "newDockerPool env o' w =
     (case call (dk_new env) DNew w of
        (Some e, w1) \<Rightarrow> (Inl (Wrap ''pool: connecting to socket: '' e), w1)
      | (None, w1) \<Rightarrow>
          (case securityOpts env (ensureImage env False o' w1) of
             (secOpts, w2) \<Rightarrow>
               (case call (dk_create env) (DCreate (holderSpec o' secOpts)) w2 of
                  (Inl e, w3) \<Rightarrow> (Inl (Wrap ''pool: create holder: '' e), emit DCloseClient w3)
                | (Inr cid, w3) \<Rightarrow>
                    (case poolVerifyRuntime env o' cid w3 of
                       (Some e, w4) \<Rightarrow> failHolder cid e w4
                     | (None, w4) \<Rightarrow>
                         (case call (dk_start env) (DStart cid) w4 of
                            (Some e, w5) \<Rightarrow> failHolder cid (Wrap ''pool: start holder: '' e) w5
                          | (None, w5) \<Rightarrow> (Inr \<lparr>dp_id = cid, dp_opts = o'\<rparr>, w5))))))"

section \<open>One run in the holder\<close>

definition execSpec :: "docker_pool \<Rightarrow> string list \<Rightarrow> bool \<Rightarrow> exec_spec" where
  "execSpec d cmd withStdin =
     \<lparr>es_User = o_User (dp_opts d), es_Cmd = cmd, es_Env = o_Env (dp_opts d), es_WorkingDir = ''/work'',
      es_AttachStdout = True, es_AttachStderr = True, es_AttachStdin = withStdin\<rparr>"

text \<open>From the attached exec to the result.\<close>

definition execAttached :: "docker_env \<Rightarrow> docker_pool \<Rightarrow> string \<Rightarrow> bool \<Rightarrow> dworld \<Rightarrow> outcome \<times> dworld" where [call_defs]:
  "execAttached env d ec withStdin w =
     (let w1 = emit DDemux w;
          w2 = (if withStdin then emit DPumpStdin w1 else w1);
          w3 = emit DAwaitOutput w2;
          res = zeroResult\<lparr>r_DurationMS := milliseconds (dk_elapsed env (dw_log w3))\<rparr>
      in if dk_ctxDone env (dw_log w3)
         then ((res\<lparr>r_TimedOut := True\<rparr>,
                Some (Errorf (''pool: timed out after '' @ durString (o_Timeout (dp_opts d))
                              @ '' (workload killed)''))), w3)
         else (case call (dk_execInspect env) (DExecInspect ec) w3 of
                 (Inl e, w4) \<Rightarrow> ((res, Some (Wrap ''pool: exec inspect: '' e)), w4)
               | (Inr code, w4) \<Rightarrow>
                   ((res\<lparr>r_ExitCode := code, r_OOMKilled := (code = 137)\<rparr>, None), w4)))"

definition dpRun :: "docker_env \<Rightarrow> docker_pool \<Rightarrow> string list \<Rightarrow> bool \<Rightarrow> dworld \<Rightarrow> outcome \<times> dworld" where [call_defs]:
  "dpRun env d cmd withStdin w =
     (case call (dk_execCreate env) (DExecCreate (dp_id d) (execSpec d cmd withStdin)) w of
        (Inl e, w1) \<Rightarrow> ((zeroResult, Some (Wrap ''pool: exec create: '' e)), w1)
      | (Inr ec, w1) \<Rightarrow>
          (case call (dk_execAttach env) (DExecAttach ec) w1 of
             (Some e, w2) \<Rightarrow> ((zeroResult, Some (Wrap ''pool: exec attach: '' e)), w2)
           | (None, w2) \<Rightarrow>
               (case execAttached env d ec withStdin w2 of (out, w3) \<Rightarrow> (out, emit DCloseAttach w3))))"

section \<open>Hygiene\<close>

definition cleanupSpec :: "docker_pool \<Rightarrow> exec_spec" where
  "cleanupSpec d =
     \<lparr>es_User = o_User (dp_opts d),
      es_Cmd = [''sh'', ''-c'', ''rm -rf /work/* /tmp/* 2>/dev/null; kill -9 -1''],
      es_Env = [], es_WorkingDir = [], es_AttachStdout = True, es_AttachStderr = True,
      es_AttachStdin = False\<rparr>"

definition dpCleanup :: "docker_env \<Rightarrow> docker_pool \<Rightarrow> dworld \<Rightarrow> dworld" where [call_defs]:
  "dpCleanup env d w =
     (case call (dk_execCreate env) (DExecCreate (dp_id d) (cleanupSpec d)) w of
        (Inl e, w1) \<Rightarrow> w1
      | (Inr ec, w1) \<Rightarrow>
          (case call (dk_execAttach env) (DExecAttach ec) w1 of
             (Some e, w2) \<Rightarrow> w2
           | (None, w2) \<Rightarrow> emit DCloseAttach (emit DDiscardOutput w2)))"

definition dpCheck :: "docker_env \<Rightarrow> docker_pool \<Rightarrow> dworld \<Rightarrow> gerror option \<times> dworld" where [call_defs]:
  "dpCheck env d w =
     (case call (dk_inspect env) (DInspect (dp_id d)) w of
        (Inl e, w1) \<Rightarrow> (Some (Wrap ''holder inspect failed: '' e), w1)
      | (Inr insp, w1) \<Rightarrow>
          (case ci_State insp of
             Some (True, _) \<Rightarrow> (None, w1)
           | _ \<Rightarrow> (Some (Errorf ''holder died (possibly OOM-killed by a workload)''), w1)))"

definition dpClose :: "docker_env \<Rightarrow> docker_pool \<Rightarrow> dworld \<Rightarrow> gerror option \<times> dworld" where [call_defs]:
  "dpClose env d w =
     (case call (dk_remove env) (DRemove (dp_id d)) w of (e, w1) \<Rightarrow> (e, emit DCloseClient w1))"

section \<open>Properties\<close>

definition dpTimeout :: "docker_pool \<Rightarrow> gerror" where
  "dpTimeout d = Errorf (''pool: timed out after '' @ durString (o_Timeout (dp_opts d)) @ '' (workload killed)'')"

text \<open>What a run in a holder reports.\<close>

lemma execAttached_out:
  "execAttached env d ec withStdin w = (out, w') \<Longrightarrow>
     (r_TimedOut (fst out) \<longrightarrow> snd out = Some (dpTimeout d))
     \<and> (snd out \<noteq> None \<longrightarrow> r_ExitCode (fst out) = 0 \<and> \<not> r_OOMKilled (fst out))
     \<and> (snd out = None \<longrightarrow> \<not> r_TimedOut (fst out) \<and> (r_OOMKilled (fst out) \<longleftrightarrow> r_ExitCode (fst out) = 137))"
  by (auto simp: execAttached_def Let_def dpTimeout_def zeroResult_def split: if_splits sum.splits)

lemma dpRun_out:
  assumes "dpRun env d cmd withStdin w = (out, w')"
  shows "(r_TimedOut (fst out) \<longrightarrow> snd out = Some (dpTimeout d))
     \<and> (snd out \<noteq> None \<longrightarrow> r_ExitCode (fst out) = 0 \<and> \<not> r_OOMKilled (fst out))
     \<and> (snd out = None \<longrightarrow> \<not> r_TimedOut (fst out) \<and> (r_OOMKilled (fst out) \<longleftrightarrow> r_ExitCode (fst out) = 137))"
proof -
  have "(\<exists>e. out = (zeroResult, Some e)) \<or> (\<exists>ec w1 w2. execAttached env d ec withStdin w1 = (out, w2))"
    using assms by (auto simp: dpRun_def split: sum.splits option.splits prod.splits)
  then show ?thesis
  proof
    assume "\<exists>e. out = (zeroResult, Some e)"
    then show ?thesis by (auto simp: zeroResult_def)
  next
    assume "\<exists>ec w1 w2. execAttached env d ec withStdin w1 = (out, w2)"
    then show ?thesis using execAttached_out by blast
  qed
qed

text \<open>Nothing that works inside a holder creates, starts or removes a container.\<close>

fun execCall :: "dcall \<Rightarrow> bool" where
  "execCall (DExecCreate i s) = True"
| "execCall (DExecAttach i) = True"
| "execCall (DExecInspect i) = True"
| "execCall DDemux = True"
| "execCall DPumpStdin = True"
| "execCall DAwaitOutput = True"
| "execCall DDiscardOutput = True"
| "execCall DCloseAttach = True"
| "execCall _ = False"

lemma dpRun_log:
  "dpRun env d cmd withStdin w = (out, w') \<Longrightarrow> \<exists>ext. dw_log w' = dw_log w @ ext \<and> (\<forall>c \<in> set ext. execCall c)"
  by (auto simp: dpRun_def execAttached_def Let_def split: sum.splits option.splits prod.splits if_splits)

lemma dpCleanup_log:
  "\<exists>ext. dw_log (dpCleanup env d w) = dw_log w @ ext \<and> (\<forall>c \<in> set ext. execCall c)"
  by (auto simp: dpCleanup_def split: sum.splits option.splits)

text \<open>The holder's container is there: started, and nobody has removed it.\<close>

definition dpAlive :: "docker_pool \<Rightarrow> dworld \<Rightarrow> bool" where
  "dpAlive d w \<longleftrightarrow> DStart (dp_id d) \<in> set (dw_log w) \<and> DRemove (dp_id d) \<notin> set (dw_log w)"

lemma dpAlive_append:
  "dpAlive d w \<Longrightarrow> dw_log w' = dw_log w @ ext \<Longrightarrow> DRemove (dp_id d) \<notin> set ext \<Longrightarrow> dpAlive d w'"
  by (simp add: dpAlive_def)

lemma execCall_not_remove: "\<forall>c \<in> set ext. execCall c \<Longrightarrow> DRemove i \<notin> set ext"
  by (induction ext) auto

lemma dpCheck_log: "dpCheck env d w = (c, w') \<Longrightarrow> dw_log w' = dw_log w @ [DInspect (dp_id d)]"
  by (auto simp: dpCheck_def split: sum.splits option.splits prod.splits bool.splits)

interpretation docker_impl: pool_impl dpRun dpCleanup dpCheck dpTimeout dpAlive
proof (unfold_locales, goal_cases)
  case (1 env d cmd b w out w')
  then show ?case using dpRun_out by blast
next
  case (2 env d cmd b w out w')
  then show ?case using dpRun_out by blast
next
  case (3 env d cmd b w out w')
  then show ?case using dpRun_out by blast
next
  case (4 env d cmd b w out w')
  then show ?case using dpRun_log [OF 4(1)] execCall_not_remove dpAlive_append by metis
next
  case (5 d w env)
  then show ?case using dpCleanup_log [of env d w] execCall_not_remove dpAlive_append by metis
next
  case (6 env d w c w')
  then show ?case using dpCheck_log [OF 6(1)] by (auto intro: dpAlive_append)
qed

lemma poolVerifyRuntime_log:
  assumes "poolVerifyRuntime env o' cid w = (r, w')"
  shows "\<exists>ext. dw_log w' = dw_log w @ ext \<and> set ext \<subseteq> {DInspect cid}"
    and "r = None \<Longrightarrow> runtimeSeen env o' cid (dw_log w')"
proof -
  show "\<exists>ext. dw_log w' = dw_log w @ ext \<and> set ext \<subseteq> {DInspect cid}"
    using assms by (auto simp: poolVerifyRuntime_def split: if_splits sum.splits)
  show "runtimeSeen env o' cid (dw_log w')" if "r = None"
    using assms that unfolding runtimeSeen_def
    by (auto simp: poolVerifyRuntime_def split: if_splits sum.splits intro: exI [of _ "dw_log w"])
qed

text \<open>After the creation of the container.\<close>

lemma newDockerPool_log:
  assumes "newDockerPool env o' w = (r, w')" and ok: "sec_ok w" and new: "dw_log w = []"
  obtains (unconnected) e where "dw_log w' = [DNew]" "r = Inl (Wrap ''pool: connecting to socket: '' e)"
  | (uncreated) p secOpts e where "dw_log w' = p @ DCreate (holderSpec o' secOpts) # [DCloseClient]"
      "\<forall>c \<in> set p. beforeCreate c" "''no-new-privileges'' \<in> set secOpts"
      "dk_create env (p @ [DCreate (holderSpec o' secOpts)]) = Inl e" "r = Inl (Wrap ''pool: create holder: '' e)"
  | (failed) p secOpts cid mid e where
      "dw_log w' = p @ DCreate (holderSpec o' secOpts) # mid @ [DRemove cid, DCloseClient]"
      "\<forall>c \<in> set p. beforeCreate c" "''no-new-privileges'' \<in> set secOpts"
      "dk_create env (p @ [DCreate (holderSpec o' secOpts)]) = Inr cid"
      "set mid \<subseteq> {DInspect cid, DStart cid}" "r = Inl e"
  | (fine) p secOpts cid mid where
      "dw_log w' = p @ DCreate (holderSpec o' secOpts) # mid @ [DStart cid]"
      "\<forall>c \<in> set p. beforeCreate c" "''no-new-privileges'' \<in> set secOpts"
      "dk_create env (p @ [DCreate (holderSpec o' secOpts)]) = Inr cid"
      "set mid \<subseteq> {DInspect cid}" "r = Inr \<lparr>dp_id = cid, dp_opts = o'\<rparr>"
      "runtimeSeen env o' cid (p @ DCreate (holderSpec o' secOpts) # mid)"
proof (cases "dk_new env [DNew]")
  case (Some e)
  then show ?thesis using assms(1) new by (intro unconnected) (auto simp: newDockerPool_def)
next
  case None
  let ?w1 = "ensureImage env False o' (emit DNew w)"
  obtain e1 where e1: "dw_log ?w1 = DNew # e1" "\<forall>c \<in> set e1. beforeCreate c"
    using ensureImage_log(1) [of env False o' "emit DNew w"] new by fastforce
  have ok1: "sec_ok ?w1" using ok ensureImage_log(2) by simp
  obtain secOpts w2 where s: "securityOpts env ?w1 = (secOpts, w2)" by fastforce
  obtain p where p: "dw_log w2 = p" "\<forall>c \<in> set p. beforeCreate c"
    using securityOpts_frame(2) [OF ok1 s] e1 by fastforce
  have priv: "''no-new-privileges'' \<in> set secOpts" using s by (auto simp: securityOpts_def split: prod.splits bool.splits)
  let ?c = "DCreate (holderSpec o' secOpts)"
  show ?thesis
  proof (cases "dk_create env (p @ [?c])")
    case (Inl e)
    then show ?thesis using assms(1) None s p priv new
      by (intro uncreated [of p secOpts e]) (auto simp: newDockerPool_def)
  next
    case (Inr cid)
    obtain v w3 where v: "poolVerifyRuntime env o' cid (emit ?c w2) = (v, w3)" by fastforce
    obtain mid where mid: "dw_log w3 = p @ ?c # mid" "set mid \<subseteq> {DInspect cid}"
      using poolVerifyRuntime_log(1) [OF v] p(1) by auto
    show ?thesis
    proof (cases "v = None \<and> dk_start env (dw_log w3 @ [DStart cid]) = None")
      case True
      then show ?thesis using assms(1) None s p priv new Inr v mid poolVerifyRuntime_log(2) [OF v]
        by (intro fine [of p secOpts mid cid]) (auto simp: newDockerPool_def)
    next
      case False
      define mid' where "mid' = (if v = None then mid @ [DStart cid] else mid)"
      have "dw_log w' = p @ ?c # mid' @ [DRemove cid, DCloseClient] \<and> (\<exists>e. r = Inl e)"
        using assms(1) None s p new Inr v mid False
        by (auto simp: newDockerPool_def failHolder_def mid'_def split: option.splits)
      moreover have "set mid' \<subseteq> {DInspect cid, DStart cid}" using mid(2) by (auto simp: mid'_def)
      ultimately show ?thesis using failed [of p secOpts mid' cid] p(2) priv Inr by blast
    qed
  qed
qed

text \<open>
  C15. A holder is created locked down, or not at all: a container the daemon has created is
  removed again when the runtime it got is not the one that was asked for, cannot be
  verified, or when it does not start; the holder that is returned runs in the container that
  was created, with the verified runtime, and nobody has removed it.
\<close>

theorem docker_holder_creation:
  assumes "newDockerPool env o' w = (r, w')" and "sec_ok w" and "dw_log w = []"
    and log: "dw_log w' = pre @ DCreate spec # post"
  shows "hc_NetworkMode spec = ''none'' \<and> hc_ReadonlyRootfs spec \<and> hc_CapDrop spec = [''ALL'']
    \<and> ''no-new-privileges'' \<in> set (hc_SecurityOpt spec) \<and> hc_PidsLimit spec = Some 128
    \<and> hc_Memory spec = memBytes o' \<and> hc_NanoCPUs spec = nanoCPUs o'
    \<and> (case dk_create env (pre @ [DCreate spec]) of
         Inl e \<Rightarrow> post = [DCloseClient] \<and> r = Inl (Wrap ''pool: create holder: '' e)
       | Inr cid \<Rightarrow>
           (case r of
              Inl e \<Rightarrow> \<exists>mid. post = mid @ [DRemove cid, DCloseClient] \<and> set mid \<subseteq> {DInspect cid, DStart cid}
            | Inr d \<Rightarrow> dp_id d = cid \<and> dp_opts d = o' \<and> dpAlive d w'
                \<and> (\<exists>mid. post = mid @ [DStart cid] \<and> runtimeSeen env o' cid (pre @ DCreate spec # mid))))"
  using assms(1-3)
proof (cases rule: newDockerPool_log)
  case (unconnected e)
  then show ?thesis using log by (cases pre) auto
next
  case (uncreated p secOpts e)
  have "p = pre \<and> DCreate (holderSpec o' secOpts) = DCreate spec \<and> [DCloseClient] = post"
    using uncreated(1) log by (intro unique_split [where P = isCreate])
      (use uncreated(2) beforeCreate_not in auto)
  then show ?thesis using uncreated by (auto simp: holderSpec_def)
next
  case (failed p secOpts cid mid e)
  have "p = pre \<and> DCreate (holderSpec o' secOpts) = DCreate spec \<and> mid @ [DRemove cid, DCloseClient] = post"
    using failed(1) log by (intro unique_split [where P = isCreate])
      (use failed(2,5) beforeCreate_not in auto)
  then show ?thesis using failed by (auto simp: holderSpec_def)
next
  case (fine p secOpts cid mid)
  have "p = pre \<and> DCreate (holderSpec o' secOpts) = DCreate spec \<and> mid @ [DStart cid] = post"
    using fine(1) log by (intro unique_split [where P = isCreate])
      (use fine(2,5) beforeCreate_not in auto)
  moreover have "DRemove cid \<notin> set (dw_log w')" using fine(1,2,5) by auto
  ultimately show ?thesis using fine by (auto simp: holderSpec_def dpAlive_def)
qed

theorem docker_holder_creation_witness:
  "\<exists>e w' post. newDockerPool (dockerEnv\<lparr>dk_inspect := \<lambda>_. Inr \<lparr>ci_Runtime = ''runc'', ci_State = None\<rparr>\<rparr>)
      gvisorOpts freshWorld = (Inl e, w')
     \<and> dw_log w' = post @ [DRemove ''c1'', DCloseClient]"
proof -
  let ?env = "dockerEnv\<lparr>dk_inspect := \<lambda>_. Inr \<lparr>ci_Runtime = ''runc'', ci_State = None\<rparr>\<rparr>"
  let ?spec = "holderSpec gvisorOpts [''no-new-privileges'', ''seccomp='' @ seccompProfileJSON]"
  let ?pre = "[DNew, DImageInspect ''alpine'', DServerVersion]"
  obtain r w' where w': "newDockerPool ?env gvisorOpts freshWorld = (r, w')" by fastforce
  then have r: "\<exists>e. r = Inl e" "\<exists>post. dw_log w' = ?pre @ DCreate ?spec # post"
    using docker_host
    by (auto simp: call_defs securityOpts_def daemonIsPodman_def serverIsPodman_def dockerEnv_def podmanEnv_def
        freshWorld_def gvisorOpts_def startOpts_def Let_def)
  then obtain e post where post: "r = Inl e" "dw_log w' = ?pre @ DCreate ?spec # post" by blast
  have "sec_ok freshWorld" "dw_log freshWorld = []" by (simp_all add: sec_ok_def freshWorld_def)
  from docker_holder_creation [OF w' this post(2)] post(1)
  obtain mid where "post = mid @ [DRemove ''c1'', DCloseClient]"
    by (auto simp: dockerEnv_def podmanEnv_def)
  then have "dw_log w' = (?pre @ DCreate ?spec # mid) @ [DRemove ''c1'', DCloseClient]"
    using post(2) by simp
  then show ?thesis using w' post(1) by blast
qed

text \<open>Every exec in a holder is made in its container, as the user of the options.\<close>

lemma dpRun_execs:
  "dpRun env d cmd b w = (out, w') \<Longrightarrow> DExecCreate i s \<in> set (drop (length (dw_log w)) (dw_log w')) \<Longrightarrow>
     i = dp_id d \<and> s = execSpec d cmd b"
  by (auto simp: dpRun_def execAttached_def Let_def split: sum.splits option.splits prod.splits if_splits)

lemma dpCleanup_starts:
  "\<exists>l. dw_log (dpCleanup env d w) = dw_log w @ DExecCreate (dp_id d) (cleanupSpec d) # l \<and> (\<forall>c \<in> set l. execCall c)"
  by (auto simp: dpCleanup_def split: sum.splits option.splits)

text \<open>
  Whatever a run in a holder does (fails, times out), it is followed by a cleanup as the
  workload's own user in the same container, and then by the check; the check passes exactly
  when the daemon reports the container as running. The cycle never removes the container.
\<close>

theorem docker_holder_cycle:
  assumes "holderCycle (dpRun env d cmd b) (dpCleanup env d) (dpCheck env d) w = (out, c, w')"
  shows "(\<exists>l1 l2. dw_log w' = dw_log w @ l1 @ DExecCreate (dp_id d) (cleanupSpec d) # l2 @ [DInspect (dp_id d)]
      \<and> (\<forall>x \<in> set l1 \<union> set l2. execCall x)
      \<and> (\<forall>i s. DExecCreate i s \<in> set l1 \<longrightarrow> i = dp_id d \<and> es_User s = o_User (dp_opts d)))
    \<and> es_User (cleanupSpec d) = o_User (dp_opts d)
    \<and> (dpAlive d w \<longrightarrow> dpAlive d w')
    \<and> (c = None \<longleftrightarrow> (\<exists>i oom. dk_inspect env (dw_log w') = Inr i \<and> ci_State i = Some (True, oom)))"
proof -
  obtain w1 where r: "dpRun env d cmd b w = (out, w1)" and k: "dpCheck env d (dpCleanup env d w1) = (c, w')"
    using assms by (auto simp: holderCycle_def split: prod.splits)
  obtain l1 where l1: "dw_log w1 = dw_log w @ l1" "\<forall>x \<in> set l1. execCall x" using dpRun_log [OF r] by blast
  obtain l2 where l2: "dw_log (dpCleanup env d w1) = dw_log w1 @ DExecCreate (dp_id d) (cleanupSpec d) # l2"
    "\<forall>x \<in> set l2. execCall x" using dpCleanup_starts by blast
  have w': "dw_log w' = dw_log w @ l1 @ DExecCreate (dp_id d) (cleanupSpec d) # l2 @ [DInspect (dp_id d)]"
    using dpCheck_log [OF k] l1(1) l2(1) by simp
  have "\<forall>i s. DExecCreate i s \<in> set l1 \<longrightarrow> i = dp_id d \<and> es_User s = o_User (dp_opts d)"
    using dpRun_execs [OF r] l1(1) by (metis append_eq_conv_conj execSpec_def exec_spec.select_convs(1))
  moreover have "dpAlive d w \<longrightarrow> dpAlive d w'" using docker_impl.cycle_known [OF assms] by blast
  moreover have "c = None \<longleftrightarrow> (\<exists>i oom. dk_inspect env (dw_log w') = Inr i \<and> ci_State i = Some (True, oom))"
    using k by (auto simp: dpCheck_def split: sum.splits option.splits prod.splits bool.splits)
  moreover have "\<forall>x \<in> set l1 \<union> set l2. execCall x" using l1(2) l2(2) by auto
  moreover have "es_User (cleanupSpec d) = o_User (dp_opts d)" by (simp add: cleanupSpec_def)
  ultimately show ?thesis using w' by blast
qed

theorem docker_holder_cycle_witness:
  "\<exists>c w'. holderCycle (dpRun (dockerEnv\<lparr>dk_ctxDone := \<lambda>_. True\<rparr>) \<lparr>dp_id = ''c1'', dp_opts = startOpts\<rparr> [''true''] False)
       (dpCleanup (dockerEnv\<lparr>dk_ctxDone := \<lambda>_. True\<rparr>) \<lparr>dp_id = ''c1'', dp_opts = startOpts\<rparr>)
       (dpCheck (dockerEnv\<lparr>dk_ctxDone := \<lambda>_. True\<rparr>) \<lparr>dp_id = ''c1'', dp_opts = startOpts\<rparr>) freshWorld
     = ((zeroResult\<lparr>r_DurationMS := 5, r_TimedOut := True\<rparr>, Some (dpTimeout \<lparr>dp_id = ''c1'', dp_opts = startOpts\<rparr>)), c, w')
     \<and> c = None"
proof -
  let ?env = "dockerEnv\<lparr>dk_ctxDone := \<lambda>_. True\<rparr>" and ?d = "\<lparr>dp_id = ''c1'', dp_opts = startOpts\<rparr>"
  obtain c w' where w': "holderCycle (dpRun ?env ?d [''true''] False) (dpCleanup ?env ?d) (dpCheck ?env ?d) freshWorld
      = ((zeroResult\<lparr>r_DurationMS := 5, r_TimedOut := True\<rparr>, Some (dpTimeout ?d)), c, w')"
    by (simp add: call_defs holderCycle_def dockerEnv_def podmanEnv_def Let_def milliseconds_def truncDiv_def
        duration_units dpTimeout_def)
  have "dk_inspect ?env (dw_log w') = Inr \<lparr>ci_Runtime = ''crun'', ci_State = Some (True, False)\<rparr>"
    by (simp add: dockerEnv_def podmanEnv_def)
  then have "c = None" using docker_holder_cycle [OF w'] by auto
  then show ?thesis using w' by blast
qed

end
