(* ===== verification/K8s.thy ===== *)
theory K8s
  imports Sandbox GoPath Float64
begin

text \<open>
  The Kubernetes backend, \<open>pkg/sandbox/k8sapi.go\<close>. As for docker, the cluster and the client
  library are a parameter that answers every call from the log of calls so far; here the log
  is the whole state. A function that polls can run for ever: it is partial, and returns
  \<open>None\<close> when it does.
\<close>

section \<open>Objects\<close>

record security_context =
  sc_ReadOnlyRootFilesystem :: "bool option"
  sc_AllowPrivilegeEscalation :: "bool option"
  sc_CapDrop :: "string list"
  sc_SeccompProfile :: "string option"
  sc_RunAsUser :: "int64 option"
  sc_RunAsGroup :: "int64 option"
  sc_RunAsNonRoot :: "bool option"

text \<open>A pod with its one container; a volume is (name, medium, size limit).\<close>

record pod_spec =
  po_Name :: string
  po_Labels :: "(string \<times> string) list"
  po_RestartPolicy :: string
  po_AutomountServiceAccountToken :: "bool option"
  po_EnableServiceLinks :: "bool option"
  po_ShareProcessNamespace :: "bool option"
  po_RuntimeClassName :: "string option"
  po_Image :: string
  po_Command :: "string list"
  po_Env :: "(string \<times> string) list"
  po_WorkingDir :: string
  po_SecurityContext :: security_context
  po_Memory :: string
  po_CPU :: string
  po_VolumeMounts :: "(string \<times> string) list"
  po_Volumes :: "(string \<times> string \<times> string) list"

record network_policy =
  np_Name :: string
  np_MatchLabels :: "(string \<times> string) list"
  np_PolicyTypes :: "string list"
  np_Ingress :: "string list"
  np_Egress :: "string list"

record exec_options =
  eo_Command :: "string list"
  eo_Stdin :: bool
  eo_Stdout :: bool
  eo_Stderr :: bool
  eo_TTY :: bool

datatype kcall =
    KBuildConfig string
  | KInCluster
  | KNewForConfig
  | KCreatePolicy string network_policy
  | KCreatePod string pod_spec
  | KGetPod string string
  | KPollWait
  | KNetWait int
  | KExecutor string string exec_options
  | KStream
  | KCloseWriters
  | KDeletePod string string

type_synonym klog = "kcall list"

text \<open>
  The answers. \<open>ke_createPolicy\<close> tells whether the policy existed already; \<open>ke_pollEnd\<close> and
  \<open>ke_netEnd\<close> say that the context ended while the code was waiting, and with what error.
\<close>

datatype policy_reply = PolicyMade | PolicyExists gerror | PolicyErr gerror

record k8s_env =
  ke_KUBECONFIG :: string
  ke_home :: string
  ke_NAMESPACE :: string
  ke_rand :: string
  ke_buildConfig :: "klog \<Rightarrow> gerror option"
  ke_inCluster :: "klog \<Rightarrow> gerror option"
  ke_newForConfig :: "klog \<Rightarrow> gerror option"
  ke_createPolicy :: "klog \<Rightarrow> policy_reply"
  ke_createPod :: "klog \<Rightarrow> gerror + string"
  ke_getPod :: "klog \<Rightarrow> gerror + string"
  ke_pollEnd :: "klog \<Rightarrow> gerror option"
  ke_netEnd :: "klog \<Rightarrow> gerror option"
  ke_executor :: "klog \<Rightarrow> gerror option"
  ke_stream :: "klog \<Rightarrow> gerror option"
  ke_ctxDone :: "klog \<Rightarrow> bool"
  ke_elapsed :: "klog \<Rightarrow> int"
  ke_delete :: "klog \<Rightarrow> gerror option"

section \<open>Client, policy, waiting\<close>

definition kubeClient :: "k8s_env \<Rightarrow> klog \<Rightarrow> gerror option \<times> klog" where [call_defs]:
  "kubeClient env l =
     (let kc = (if ke_KUBECONFIG env = [] then pathJoin [ke_home env, ''.kube'', ''config'']
                else ke_KUBECONFIG env);
          l1 = l @ [KBuildConfig kc];
          connect = (\<lambda>l. let l' = l @ [KNewForConfig] in (ke_newForConfig env l', l'))
      in (case ke_buildConfig env l1 of
            None \<Rightarrow> connect l1
          | Some _ \<Rightarrow>
              let l2 = l1 @ [KInCluster] in
              (case ke_inCluster env l2 of
                 Some e \<Rightarrow> (Some (Wrap ''kubeconfig: '' e), l2)
               | None \<Rightarrow> connect l2)))"

definition namespaceOf :: "k8s_env \<Rightarrow> string" where
  "namespaceOf env = (if ke_NAMESPACE env = [] then ''default'' else ke_NAMESPACE env)"

definition isolationPolicy :: network_policy where
  "isolationPolicy =
     \<lparr>np_Name = ''sandbox-runner-deny-all'', np_MatchLabels = [(''app'', ''sandbox-runner'')],
      np_PolicyTypes = [''Ingress'', ''Egress''], np_Ingress = [], np_Egress = []\<rparr>"

definition ensureIsolationPolicy :: "k8s_env \<Rightarrow> string \<Rightarrow> klog \<Rightarrow> gerror option \<times> klog" where [call_defs]:
  "ensureIsolationPolicy env ns l =
     (let l' = l @ [KCreatePolicy ns isolationPolicy] in
      (case ke_createPolicy env l' of
         PolicyExists e \<Rightarrow> (None, l')
       | PolicyErr e \<Rightarrow> (Some e, l')
       | PolicyMade \<Rightarrow> (None, l')))"

definition runtimeClassOrNil :: "string \<Rightarrow> string option" where
  "runtimeClassOrNil s = (if s = [] then None else Some s)"

text \<open>The phases that end the wait.\<close>

definition podStarted :: "string \<Rightarrow> bool" where
  "podStarted phase \<longleftrightarrow> phase \<in> {''Running'', ''Succeeded'', ''Failed''}"

partial_function (option) waitPodRunning :: "k8s_env \<Rightarrow> string \<Rightarrow> string \<Rightarrow> klog \<Rightarrow> (gerror option \<times> klog) option" where
  "waitPodRunning env ns name l =
     (let l1 = l @ [KGetPod ns name] in
      (case ke_getPod env l1 of
         Inl e \<Rightarrow> Some (Some e, l1)
       | Inr phase \<Rightarrow>
           if podStarted phase then Some (None, l1)
           else let l2 = l1 @ [KPollWait] in
             (case ke_pollEnd env l2 of
                Some e \<Rightarrow> Some (Some e, l2)
              | None \<Rightarrow> waitPodRunning env ns name l2)))"

section \<open>The pod\<close>

definition envVars :: "string list \<Rightarrow> (string \<times> string) list" where
  "envVars es =
     concat (map (\<lambda>e. let k = indexByte e CHR ''='' in
       if 0 < k then [(take (nat k) e, drop (nat k + 1) e)] else []) es)"

definition memQuantity :: "opts \<Rightarrow> string" where
  "memQuantity o' = showInt (sint (o_MemMB o')) @ ''Mi''"

definition cpuQuantity :: "opts \<Rightarrow> string" where
  "cpuQuantity o' = showInt (sint (f64ToInt64 (f64Round (o_CPUs o' * 1000)))) @ ''m''"

definition holdSecs :: "opts \<Rightarrow> int" where
  "holdSecs o' = f64Trunc (durSeconds (o_Timeout o')) + 30"

definition scratchMounts :: "(string \<times> string) list" where
  "scratchMounts = [(''work'', ''/work''), (''tmp'', ''/tmp'')]"

definition scratchVolumes :: "(string \<times> string \<times> string) list" where
  "scratchVolumes = [(''work'', ''Memory'', ''64Mi''), (''tmp'', ''Memory'', ''16Mi'')]"

definition podSpec :: "k8s_env \<Rightarrow> opts \<Rightarrow> pod_spec" where
  "podSpec env o' =
     (let useUser = (o_User o' \<noteq> []) in
      \<lparr>po_Name = ''sandbox-'' @ ke_rand env, po_Labels = [(''app'', ''sandbox-runner'')],
       po_RestartPolicy = ''Never'', po_AutomountServiceAccountToken = Some False,
       po_EnableServiceLinks = Some False, po_ShareProcessNamespace = None,
       po_RuntimeClassName = runtimeClassOrNil (o_Runtime o'), po_Image = o_Image o',
       po_Command = [''sleep'', showInt (holdSecs o')], po_Env = envVars (o_Env o'),
       po_WorkingDir = ''/work'',
       po_SecurityContext =
         \<lparr>sc_ReadOnlyRootFilesystem = Some True, sc_AllowPrivilegeEscalation = Some False,
          sc_CapDrop = [''ALL''], sc_SeccompProfile = Some ''RuntimeDefault'',
          sc_RunAsUser = (if useUser then Some 65534 else None),
          sc_RunAsGroup = (if useUser then Some 65534 else None),
          sc_RunAsNonRoot = (if useUser then Some True else None)\<rparr>,
       po_Memory = memQuantity o', po_CPU = cpuQuantity o',
       po_VolumeMounts = scratchMounts, po_Volumes = scratchVolumes\<rparr>)"

section \<open>Run\<close>

definition execParams :: "string list \<Rightarrow> bool \<Rightarrow> exec_options" where
  "execParams cmd stdin = \<lparr>eo_Command = cmd, eo_Stdin = stdin, eo_Stdout = True, eo_Stderr = True, eo_TTY = False\<rparr>"

text \<open>The exit code of a stream: none, the code of a \<open>CodeExitError\<close>, or an error.\<close>

definition streamResult :: "result \<Rightarrow> bool \<Rightarrow> gerror \<Rightarrow> string \<Rightarrow> gerror option \<Rightarrow> outcome" where
  "streamResult res ended limit pre streamErr =
     (let finish = (\<lambda>r. (r\<lparr>r_OOMKilled := (if r_ExitCode r = 137 then True else r_OOMKilled r)\<rparr>, None)) in
      (case streamErr of
         None \<Rightarrow> finish res
       | Some e \<Rightarrow>
           if ended then (res\<lparr>r_TimedOut := True\<rparr>, Some limit)
           else (case asCodeExit e of
                   Some code \<Rightarrow> finish (res\<lparr>r_ExitCode := code\<rparr>)
                 | None \<Rightarrow> (res, Some (Wrap pre e)))))"

definition k8sTimeout :: "opts \<Rightarrow> string \<Rightarrow> gerror" where
  "k8sTimeout o' why = Errorf (''timed out after '' @ durString (o_Timeout o') @ '' ('' @ why @ '')'')"

text \<open>From the running pod to the result.\<close>

definition k8sExec :: "k8s_env \<Rightarrow> opts \<Rightarrow> string \<Rightarrow> string \<Rightarrow> klog \<Rightarrow> outcome \<times> klog" where [call_defs]:
  "k8sExec env o' ns name l =
     (let l1 = (if 0 < o_NetWait o' then l @ [KNetWait (o_NetWait o')] else l) in
      if 0 < o_NetWait o' \<and> ke_netEnd env l1 \<noteq> None
      then ((zeroResult\<lparr>r_TimedOut := True\<rparr>, Some (Errorf ''timed out during netwait'')), l1)
      else let l2 = l1 @ [KExecutor ns name (execParams (o_Cmd o') (o_WithStdin o'))] in
        (case ke_executor env l2 of
           Some e \<Rightarrow> ((zeroResult, Some (Wrap ''executor: '' e)), l2)
         | None \<Rightarrow>
             let l3 = l2 @ [KStream];
                 l4 = l3 @ [KCloseWriters];
                 res = zeroResult\<lparr>r_DurationMS := milliseconds (ke_elapsed env l4)\<rparr>
             in (streamResult res (ke_ctxDone env l4) (k8sTimeout o' ''pod killed'') ''exec: ''
                   (ke_stream env l3), l4)))"

text \<open>From the created pod on; the pod is deleted on the way out.\<close>

definition k8sCreated :: "k8s_env \<Rightarrow> opts \<Rightarrow> string \<Rightarrow> string \<Rightarrow> klog \<Rightarrow> (outcome \<times> klog) option" where [call_defs]:
  "k8sCreated env o' ns name l =
     (case waitPodRunning env ns name l of
        None \<Rightarrow> None
      | Some (Some e, l1) \<Rightarrow>
          Some (if ke_ctxDone env l1
                then (zeroResult\<lparr>r_TimedOut := True\<rparr>, Some (k8sTimeout o' ''pod never started''))
                else (zeroResult, Some e), l1 @ [KDeletePod ns name])
      | Some (None, l1) \<Rightarrow>
          (case k8sExec env o' ns name l1 of (out, l2) \<Rightarrow> Some (out, l2 @ [KDeletePod ns name])))"

definition k8sRun :: "k8s_env \<Rightarrow> opts \<Rightarrow> klog \<Rightarrow> (outcome \<times> klog) option" where [call_defs]:
  "k8sRun env o' l =
     (case kubeClient env l of
        (Some e, l1) \<Rightarrow> Some ((zeroResult, Some e), l1)
      | (None, l1) \<Rightarrow>
          if o_Binds o' \<noteq> []
          then Some ((zeroResult, Some (Errorf (''k8s backend: -v host mounts not supported ''
                 @ ''(host paths are node paths); use -i or bake files into the image''))), l1)
          else let ns = namespaceOf env in
            (case ensureIsolationPolicy env ns l1 of
               (Some e, l2) \<Rightarrow> Some ((zeroResult, Some (Wrap ''network isolation policy: '' e)), l2)
             | (None, l2) \<Rightarrow>
                 let l3 = l2 @ [KCreatePod ns (podSpec env o')] in
                 (case ke_createPod env l3 of
                    Inl e \<Rightarrow> Some ((zeroResult, Some (Wrap ''create pod: '' e)), l3)
                  | Inr name \<Rightarrow> k8sCreated env o' ns name l3)))"

section \<open>Waiting for the pod\<close>

text \<open>How a wait ends: with an answer about a pod that left the queue, an error, or the context.\<close>

definition waited :: "k8s_env \<Rightarrow> string \<Rightarrow> string \<Rightarrow> klog \<Rightarrow> gerror option \<Rightarrow> klog \<Rightarrow> bool" where
  "waited env ns name l r l' \<longleftrightarrow>
     (\<exists>ext. l' = l @ ext \<and> ext \<noteq> [] \<and> set ext \<subseteq> {KGetPod ns name, KPollWait}
        \<and> (r = None \<longrightarrow> (\<exists>phase. last ext = KGetPod ns name \<and> ke_getPod env l' = Inr phase
              \<and> podStarted phase)))"

lemma waited_step:
  assumes "waited env ns name (l @ [KGetPod ns name, KPollWait]) r l'"
  shows "waited env ns name l r l'"
proof -
  obtain ext where "l' = (l @ [KGetPod ns name, KPollWait]) @ ext" "ext \<noteq> []"
    "set ext \<subseteq> {KGetPod ns name, KPollWait}"
    "r = None \<longrightarrow> (\<exists>phase. last ext = KGetPod ns name \<and> ke_getPod env l' = Inr phase \<and> podStarted phase)"
    using assms by (auto simp: waited_def)
  then show ?thesis unfolding waited_def
    by (intro exI [of _ "[KGetPod ns name, KPollWait] @ ext"]) auto
qed

lemma waitPodRunning_waited:
  assumes "waitPodRunning env ns name l = Some (r, l')"
  shows "waited env ns name l r l'"
proof -
  have "waited env ns name l (fst y) (snd y)" if "waitPodRunning env ns name l = Some y" for y
    using that
  proof (induction rule: waitPodRunning.raw_induct [rotated, consumes 1])
    case (1 waitP env ns name l y)
    let ?l1 = "l @ [KGetPod ns name]" and ?l2 = "l @ [KGetPod ns name, KPollWait]"
    show ?case
    proof (cases "ke_getPod env ?l1")
      case (Inl e)
      then show ?thesis using 1(2) by (auto simp: waited_def Let_def)
    next
      case (Inr phase)
      show ?thesis
      proof (cases "podStarted phase")
        case True
        then show ?thesis using 1(2) Inr
          by (auto simp: waited_def Let_def intro!: exI [of _ "[KGetPod ns name]"])
      next
        case False
        show ?thesis
        proof (cases "ke_pollEnd env ?l2")
          case (Some e)
          then show ?thesis using 1(2) Inr False by (auto simp: waited_def Let_def)
        next
          case None
          then have "waitP env ns name ?l2 = Some y" using 1(2) Inr False by (simp add: Let_def)
          from 1(1) [OF this] show ?thesis by (rule waited_step)
        qed
      qed
    qed
  qed
  from this [OF assms] show ?thesis by simp
qed

text \<open>The number of polls so far, and a context that ends after at most \<open>N\<close> of them.\<close>

definition polls :: "klog \<Rightarrow> nat" where
  "polls l = length (filter (\<lambda>c. c = KPollWait) l)"

definition endsWithin :: "k8s_env \<Rightarrow> nat \<Rightarrow> bool" where
  "endsWithin env N \<longleftrightarrow> (\<forall>l. N \<le> polls l \<longrightarrow> ke_pollEnd env l \<noteq> None)"

lemma waitPodRunning_returns:
  assumes "endsWithin env N"
  shows "\<exists>r l'. waitPodRunning env ns name l = Some (r, l')"
proof (induction "N - polls l" arbitrary: l rule: less_induct)
  case less
  let ?l1 = "l @ [KGetPod ns name]" and ?l2 = "l @ [KGetPod ns name, KPollWait]"
  have polls: "polls ?l2 = Suc (polls l)" by (simp add: polls_def)
  show ?case
  proof (cases "ke_pollEnd env ?l2")
    case (Some e)
    then show ?thesis by (subst waitPodRunning.simps) (auto simp: Let_def split: sum.split)
  next
    case None
    then have "Suc (polls l) < N" using assms polls unfolding endsWithin_def by (metis not_le)
    then have "N - polls ?l2 < N - polls l" using polls by simp
    from less [OF this] show ?thesis
      using None by (subst waitPodRunning.simps) (auto simp: Let_def split: sum.split)
  qed
qed

section \<open>The shape of the log\<close>

text \<open>Calls that work on the pod that was created, without deleting it.\<close>

fun podCall :: "string \<Rightarrow> string \<Rightarrow> kcall \<Rightarrow> bool" where
  "podCall ns name (KGetPod n p) = (n = ns \<and> p = name)"
| "podCall ns name KPollWait = True"
| "podCall ns name (KNetWait d) = True"
| "podCall ns name (KExecutor n p e) = (n = ns \<and> p = name)"
| "podCall ns name KStream = True"
| "podCall ns name KCloseWriters = True"
| "podCall ns name _ = False"

fun isPodCreate :: "kcall \<Rightarrow> bool" where
  "isPodCreate (KCreatePod ns spec) = True"
| "isPodCreate _ = False"

lemma podCall_not: "podCall ns name c \<Longrightarrow> \<not> isPodCreate c"
  by (cases c) auto

text \<open>The pod was reported as started, at this point of the log.\<close>

definition podSeen :: "k8s_env \<Rightarrow> string \<Rightarrow> string \<Rightarrow> klog \<Rightarrow> bool" where
  "podSeen env ns name l \<longleftrightarrow> (\<exists>phase. l \<noteq> [] \<and> last l = KGetPod ns name
     \<and> ke_getPod env l = Inr phase \<and> podStarted phase)"

lemma waited_started:
  "waited env ns name l None l' \<Longrightarrow> podSeen env ns name l' \<and> (\<exists>ext. l' = l @ ext \<and> set ext \<subseteq> {KGetPod ns name, KPollWait})"
  by (auto simp: waited_def podSeen_def)

lemma k8sExec_log:
  assumes "k8sExec env o' ns name l = (out, l')"
  obtains (cut) "l' = l @ (if 0 < o_NetWait o' then [KNetWait (o_NetWait o')] else [])"
      "snd out \<noteq> None"
  | (noexec) "l' = l @ (if 0 < o_NetWait o' then [KNetWait (o_NetWait o')] else [])
        @ [KExecutor ns name (execParams (o_Cmd o') (o_WithStdin o'))]" "snd out \<noteq> None"
  | (streamed) "l' = l @ (if 0 < o_NetWait o' then [KNetWait (o_NetWait o')] else [])
        @ [KExecutor ns name (execParams (o_Cmd o') (o_WithStdin o')), KStream, KCloseWriters]"
  using assms by (auto simp: k8sExec_def Let_def split: if_splits option.splits)

lemma k8sCreated_log:
  assumes "k8sCreated env o' ns name l = Some (out, l')"
  obtains (unstarted) ext where "l' = l @ ext @ [KDeletePod ns name]"
      "set ext \<subseteq> {KGetPod ns name, KPollWait}" "snd out \<noteq> None"
  | (started) a b where "l' = l @ a @ b @ [KDeletePod ns name]" "set a \<subseteq> {KGetPod ns name, KPollWait}"
      "podSeen env ns name (l @ a)" "k8sExec env o' ns name (l @ a) = (out, l @ a @ b)"
proof -
  obtain r l1 where w: "waitPodRunning env ns name l = Some (r, l1)"
    using assms by (auto simp: k8sCreated_def split: option.splits)
  note wd = waitPodRunning_waited [OF w]
  show ?thesis
  proof (cases r)
    case (Some e)
    obtain ext where "l1 = l @ ext" "set ext \<subseteq> {KGetPod ns name, KPollWait}"
      using wd by (auto simp: waited_def)
    then show ?thesis using unstarted assms w Some by (auto simp: k8sCreated_def split: if_splits)
  next
    case None
    obtain a where a: "l1 = l @ a" "set a \<subseteq> {KGetPod ns name, KPollWait}" "podSeen env ns name l1"
      using waited_started wd None by blast
    obtain out' l2 where e: "k8sExec env o' ns name l1 = (out', l2)" by fastforce
    then have "out' = out" "l' = l2 @ [KDeletePod ns name]"
      using assms w None by (auto simp: k8sCreated_def)
    moreover obtain b where "l2 = l1 @ b" using e by (rule k8sExec_log) auto
    ultimately show ?thesis using started [of a b] a e by simp
  qed
qed

lemma k8sCreated_calls:
  assumes "k8sCreated env o' ns name l = Some (out, l')"
  shows "\<exists>mid. l' = l @ mid @ [KDeletePod ns name] \<and> (\<forall>c \<in> set mid. podCall ns name c)"
  using assms
proof (cases rule: k8sCreated_log)
  case (unstarted ext)
  then show ?thesis by (intro exI [of _ ext]) auto
next
  case (started a b)
  have "\<forall>c \<in> set b. podCall ns name c"
    using started(4) by (rule k8sExec_log) (auto split: if_splits)
  then show ?thesis using started by (intro exI [of _ "a @ b"]) auto
qed

text \<open>Calls made before there is a pod.\<close>

fun beforePod :: "kcall \<Rightarrow> bool" where
  "beforePod (KBuildConfig s) = True"
| "beforePod KInCluster = True"
| "beforePod KNewForConfig = True"
| "beforePod _ = False"

lemma beforePod_not: "beforePod c \<Longrightarrow> \<not> isPodCreate c"
  by (cases c) auto

lemma kubeClient_log:
  "kubeClient env l = (r, l') \<Longrightarrow> \<exists>ext. l' = l @ ext \<and> (\<forall>c \<in> set ext. beforePod c)"
  by (auto simp: kubeClient_def Let_def split: option.splits if_splits)

lemma ensureIsolationPolicy_log:
  "ensureIsolationPolicy env ns l = (r, l') \<Longrightarrow> l' = l @ [KCreatePolicy ns isolationPolicy]
     \<and> (r = None \<longleftrightarrow> (\<forall>e. ke_createPolicy env l' \<noteq> PolicyErr e))"
  by (auto simp: ensureIsolationPolicy_def Let_def split: policy_reply.splits)

lemma k8sRun_log:
  assumes "k8sRun env o' l = Some (out, l')"
  obtains (nopod) ext where "l' = l @ ext" "\<forall>c \<in> set ext. beforePod c \<or> c = KCreatePolicy (namespaceOf env) isolationPolicy"
      "fst out = zeroResult" "snd out \<noteq> None"
  | (refused) p e where "l' = l @ p @ [KCreatePolicy (namespaceOf env) isolationPolicy, KCreatePod (namespaceOf env) (podSpec env o')]"
      "\<forall>c \<in> set p. beforePod c" "o_Binds o' = []"
      "\<forall>e. ke_createPolicy env (l @ p @ [KCreatePolicy (namespaceOf env) isolationPolicy]) \<noteq> PolicyErr e"
      "ke_createPod env l' = Inl e" "out = (zeroResult, Some (Wrap ''create pod: '' e))"
  | (created) p name where "\<forall>c \<in> set p. beforePod c" "o_Binds o' = []"
      "\<forall>e. ke_createPolicy env (l @ p @ [KCreatePolicy (namespaceOf env) isolationPolicy]) \<noteq> PolicyErr e"
      "ke_createPod env (l @ p @ [KCreatePolicy (namespaceOf env) isolationPolicy, KCreatePod (namespaceOf env) (podSpec env o')]) = Inr name"
      "k8sCreated env o' (namespaceOf env) name
         (l @ p @ [KCreatePolicy (namespaceOf env) isolationPolicy, KCreatePod (namespaceOf env) (podSpec env o')]) = Some (out, l')"
proof -
  obtain r l1 where k: "kubeClient env l = (r, l1)" by fastforce
  obtain p where p: "l1 = l @ p" "\<forall>c \<in> set p. beforePod c" using kubeClient_log [OF k] by blast
  obtain q l2 where q: "ensureIsolationPolicy env (namespaceOf env) l1 = (q, l2)" by fastforce
  note ql = ensureIsolationPolicy_log [OF q]
  show ?thesis
  proof (cases "r = None \<and> o_Binds o' = [] \<and> q = None")
    case False
    then show ?thesis using assms k p q ql
      by (intro nopod [of "drop (length l) l'"])
         (auto simp: k8sRun_def Let_def split: option.splits if_splits)
  next
    case True
    let ?l3 = "l2 @ [KCreatePod (namespaceOf env) (podSpec env o')]"
    show ?thesis
    proof (cases "ke_createPod env ?l3")
      case (Inl e)
      then show ?thesis using assms k p q ql True
        by (intro refused [of p e]) (auto simp: k8sRun_def Let_def)
    next
      case (Inr name)
      then show ?thesis using assms k p q ql True
        by (intro created [of p name]) (auto simp: k8sRun_def Let_def)
    qed
  qed
qed

section \<open>The properties of a one-shot run\<close>


definition kindEnv :: k8s_env where
  "kindEnv = \<lparr>ke_KUBECONFIG = ''/home/u/kc'', ke_home = ''/home/u'', ke_NAMESPACE = [], ke_rand = ''abcdefgh'',
     ke_buildConfig = \<lambda>_. None, ke_inCluster = \<lambda>_. Some EOF, ke_newForConfig = \<lambda>_. None,
     ke_createPolicy = \<lambda>_. PolicyExists EOF, ke_createPod = \<lambda>_. Inr ''sandbox-abcdefgh'',
     ke_getPod = \<lambda>l. Inr (if KPollWait \<in> set l then ''Running'' else ''Pending''),
     ke_pollEnd = \<lambda>l. if 2 \<le> length (filter (\<lambda>c. c = KPollWait) l) then Some DeadlineExceeded else None,
     ke_netEnd = \<lambda>_. None, ke_executor = \<lambda>_. None, ke_stream = \<lambda>_. Some (CodeExitError 137 ''killed''),
     ke_ctxDone = \<lambda>_. False, ke_elapsed = \<lambda>_. 7000000, ke_delete = \<lambda>_. None\<rparr>"

lemma kindEnv_sel:
  "ke_KUBECONFIG kindEnv = ''/home/u/kc''" "ke_NAMESPACE kindEnv = []" "ke_rand kindEnv = ''abcdefgh''"
  "ke_buildConfig kindEnv = (\<lambda>_. None)" "ke_newForConfig kindEnv = (\<lambda>_. None)"
  "ke_createPolicy kindEnv = (\<lambda>_. PolicyExists EOF)" "ke_createPod kindEnv = (\<lambda>_. Inr ''sandbox-abcdefgh'')"
  "ke_executor kindEnv = (\<lambda>_. None)" "ke_stream kindEnv = (\<lambda>_. Some (CodeExitError 137 ''killed''))"
  "ke_ctxDone kindEnv = (\<lambda>_. False)" "ke_elapsed kindEnv = (\<lambda>_. 7000000)"
  by (simp_all add: kindEnv_def)

lemma kind_wait:
  "waitPodRunning kindEnv ns name [a, b, c, d]
     = Some (None, [a, b, c, d, KGetPod ns name, KPollWait, KGetPod ns name])"
  if "KPollWait \<notin> {a, b, c, d}"
  using that by (subst waitPodRunning.simps, subst waitPodRunning.simps)
    (auto simp: kindEnv_def Let_def podStarted_def)

lemma kind_run:
  "k8sRun kindEnv startOpts [] = Some ((zeroResult\<lparr>r_DurationMS := 7, r_ExitCode := 137, r_OOMKilled := True\<rparr>, None),
     [KBuildConfig ''/home/u/kc'', KNewForConfig, KCreatePolicy ''default'' isolationPolicy,
      KCreatePod ''default'' (podSpec kindEnv startOpts),
      KGetPod ''default'' ''sandbox-abcdefgh'', KPollWait, KGetPod ''default'' ''sandbox-abcdefgh'',
      KExecutor ''default'' ''sandbox-abcdefgh'' (execParams [] False), KStream, KCloseWriters,
      KDeletePod ''default'' ''sandbox-abcdefgh''])"
proof -
  let ?l = "[KBuildConfig ''/home/u/kc'', KNewForConfig, KCreatePolicy ''default'' isolationPolicy,
      KCreatePod ''default'' (podSpec kindEnv startOpts)]"
  have o': "o_Binds startOpts = []" "o_NetWait startOpts = 0" "o_Cmd startOpts = []" "\<not> o_WithStdin startOpts"
    by (simp_all add: startOpts_def)
  have "milliseconds 7000000 = 7" by (simp add: milliseconds_def truncDiv_def duration_units)
  then show ?thesis
    using kind_wait [of "?l ! 0" "?l ! 1" "?l ! 2" "?l ! 3" "''default''" "''sandbox-abcdefgh''"]
    by (simp add: k8sRun_def kubeClient_def ensureIsolationPolicy_def namespaceOf_def kindEnv_sel o' Let_def
        k8sCreated_def k8sExec_def streamResult_def zeroResult_def)
qed




text \<open>
  C14. A run returns: when the context of the run ends after some number of polls, at the
  latest, the wait for the pod ends, and so does the run, whatever the cluster answers.
\<close>

theorem k8s_run_terminates:
  assumes "endsWithin env N"
  shows "\<exists>out l'. k8sRun env o' l = Some (out, l')"
proof -
  have c: "\<exists>out l'. k8sCreated env o' ns name k = Some (out, l')" for ns name k
    using waitPodRunning_returns [OF assms, of ns name k]
    by (auto simp: k8sCreated_def split: option.split prod.split)
  show ?thesis
    using c by (auto simp: k8sRun_def Let_def split: prod.split option.split sum.split)
qed

theorem k8s_run_terminates_witness:
  "\<exists>out l'. k8sRun (kindEnv\<lparr>ke_getPod := \<lambda>_. Inr ''Pending''\<rparr>) startOpts [] = Some (out, l')"
proof -
  have "endsWithin (kindEnv\<lparr>ke_getPod := \<lambda>_. Inr ''Pending''\<rparr>) 2"
    by (simp add: endsWithin_def polls_def kindEnv_def)
  then show ?thesis by (rule k8s_run_terminates)
qed

text \<open>What a stream tells the caller.\<close>

lemma streamResult_out:
  assumes "streamResult res ended limit pre e = out" and "r_ExitCode res = 0" "\<not> r_OOMKilled res" "\<not> r_TimedOut res"
  shows "(r_TimedOut (fst out) \<longrightarrow> snd out = Some limit \<and> ended)
    \<and> (snd out \<noteq> None \<longrightarrow> r_ExitCode (fst out) = 0 \<and> \<not> r_OOMKilled (fst out))
    \<and> (snd out = None \<longrightarrow> \<not> r_TimedOut (fst out) \<and> (r_OOMKilled (fst out) \<longleftrightarrow> r_ExitCode (fst out) = 137)
         \<and> (e = None \<and> r_ExitCode (fst out) = 0 \<or> (\<exists>x. e = Some x \<and> asCodeExit x = Some (r_ExitCode (fst out)))))"
  using assms by (auto simp: streamResult_def Let_def split: option.splits if_splits)

text \<open>The outcomes of a run: an early error, one of the timeouts, or what the stream gave.\<close>

definition ranTo :: "k8s_env \<Rightarrow> opts \<Rightarrow> outcome \<Rightarrow> bool" where
  "ranTo env o' out \<longleftrightarrow> (\<exists>e. out = (zeroResult, Some e))
     \<or> out = (zeroResult\<lparr>r_TimedOut := True\<rparr>, Some (Errorf ''timed out during netwait''))
     \<or> out = (zeroResult\<lparr>r_TimedOut := True\<rparr>, Some (k8sTimeout o' ''pod never started''))
     \<or> (\<exists>d b k. out = streamResult (zeroResult\<lparr>r_DurationMS := d\<rparr>) b (k8sTimeout o' ''pod killed'') ''exec: '' (ke_stream env k))"

lemma k8sExec_out: "k8sExec env o' ns name l = (out, l') \<Longrightarrow> ranTo env o' out"
  unfolding ranTo_def by (auto simp: k8sExec_def Let_def split: if_splits option.splits)

lemma k8sCreated_out:
  assumes "k8sCreated env o' ns name l = Some (out, l')"
  shows "ranTo env o' out"
proof -
  obtain r l1 where w: "waitPodRunning env ns name l = Some (r, l1)"
    using assms by (auto simp: k8sCreated_def split: option.splits)
  show ?thesis
  proof (cases r)
    case None
    then obtain l2 where "k8sExec env o' ns name l1 = (out, l2)"
      using assms w by (auto simp: k8sCreated_def split: prod.splits)
    then show ?thesis by (rule k8sExec_out)
  next
    case (Some e)
    then have "out = (if ke_ctxDone env l1 then (zeroResult\<lparr>r_TimedOut := True\<rparr>, Some (k8sTimeout o' ''pod never started''))
        else (zeroResult, Some e))"
      using assms w by (simp add: k8sCreated_def)
    then show ?thesis unfolding ranTo_def by (simp split: if_splits)
  qed
qed

lemma k8sRun_out: "k8sRun env o' l = Some (out, l') \<Longrightarrow> ranTo env o' out"
proof (erule k8sRun_log, goal_cases)
  case (1 ext)
  then show ?case unfolding ranTo_def by (cases out) auto
next
  case (2 p e)
  then show ?case unfolding ranTo_def by blast
next
  case (3 p name)
  then show ?case using k8sCreated_out by blast
qed

text \<open>
  What a run reports: without an error the exit code is zero or the one of the stream's
  \<open>CodeExitError\<close>, however deep it is wrapped, and 137 is reported as out of memory; a
  timeout always comes with an error, and an error never with an exit code.
\<close>

theorem k8s_outcome:
  assumes "k8sRun env o' l = Some (out, l')"
  shows "(r_TimedOut (fst out) \<longrightarrow> snd out \<in> {Some (k8sTimeout o' ''pod killed''),
           Some (k8sTimeout o' ''pod never started''), Some (Errorf ''timed out during netwait'')})
    \<and> (snd out \<noteq> None \<longrightarrow> r_ExitCode (fst out) = 0 \<and> \<not> r_OOMKilled (fst out))
    \<and> (snd out = None \<longrightarrow> \<not> r_TimedOut (fst out) \<and> (r_OOMKilled (fst out) \<longleftrightarrow> r_ExitCode (fst out) = 137)
         \<and> (r_ExitCode (fst out) = 0 \<or> (\<exists>k x. ke_stream env k = Some x \<and> asCodeExit x = Some (r_ExitCode (fst out)))))"
proof -
  have st: "(r_TimedOut (fst x) \<longrightarrow> snd x = Some (k8sTimeout o' ''pod killed''))
    \<and> (snd x \<noteq> None \<longrightarrow> r_ExitCode (fst x) = 0 \<and> \<not> r_OOMKilled (fst x))
    \<and> (snd x = None \<longrightarrow> \<not> r_TimedOut (fst x) \<and> (r_OOMKilled (fst x) \<longleftrightarrow> r_ExitCode (fst x) = 137)
         \<and> (r_ExitCode (fst x) = 0 \<or> (\<exists>k y. ke_stream env k = Some y \<and> asCodeExit y = Some (r_ExitCode (fst x)))))"
    if "x = streamResult (zeroResult\<lparr>r_DurationMS := d\<rparr>) b (k8sTimeout o' ''pod killed'') ''exec: '' (ke_stream env k)" for x d b k
    using streamResult_out [OF that [symmetric]] by (auto simp: zeroResult_def)
  show ?thesis
    using k8sRun_out [OF assms] unfolding ranTo_def
  proof (elim disjE exE)
    fix d b k
    assume "out = streamResult (zeroResult\<lparr>r_DurationMS := d\<rparr>) b (k8sTimeout o' ''pod killed'') ''exec: '' (ke_stream env k)"
    from st [OF this] show ?thesis by blast
  qed (simp_all add: zeroResult_def)
qed

theorem k8s_outcome_witness:
  "\<exists>out l'. k8sRun kindEnv startOpts [] = Some (out, l') \<and> snd out = None \<and> r_ExitCode (fst out) = 137
     \<and> r_OOMKilled (fst out)"
proof -
  obtain out l' where r: "k8sRun kindEnv startOpts [] = Some (out, l')" "snd out = None" "r_ExitCode (fst out) = 137"
    using kind_run by auto
  from k8s_outcome [OF r(1)] r show ?thesis by auto
qed

text \<open>
  C36. The holder process outlives the run: it sleeps for more than the timeout plus 29
  seconds, and for at most 31 seconds more, for every timeout a duration can hold; the
  rounding of \<open>Seconds()\<close> to a \<open>float64\<close> does not matter.
\<close>

theorem holder_outlives_run:
  assumes "0 \<le> o_Timeout o'" and "o_Timeout o' < 2 ^ 63"
  shows "o_Timeout o' + 29 * Second < holdSecs o' * Second
    \<and> holdSecs o' * Second \<le> o_Timeout o' + 31 * Second
    \<and> po_Command (podSpec env o') = [''sleep'', showInt (holdSecs o')]"
proof -
  define t where "t = f64Trunc (durSeconds (o_Timeout o'))"
  define q where "q = o_Timeout o' div Second"
  define r where "r = o_Timeout o' mod Second"
  have b: "q \<le> t" "t \<le> q + 1" using durSeconds_bounds [OF assms] by (simp_all add: t_def q_def)
  have d: "o_Timeout o' = q * Second + r" "0 \<le> r" "r < Second"
    by (simp_all add: q_def r_def duration_units)
  have m: "q * Second \<le> t * Second" "t * Second \<le> (q + 1) * Second"
    using b by (auto intro!: mult_right_mono simp: duration_units)
  have m2: "t * Second \<le> q * Second + Second" using m(2) by (simp add: distrib_right)
  have h: "holdSecs o' * Second = t * Second + 30 * Second" by (simp add: holdSecs_def t_def distrib_right)
  have "o_Timeout o' + 29 * Second < holdSecs o' * Second" "holdSecs o' * Second \<le> o_Timeout o' + 31 * Second"
    using h m(1) m2 d by linarith+
  then show ?thesis by (simp add: podSpec_def Let_def)
qed

theorem holder_outlives_run_witness:
  "o_Timeout startOpts + 29 * Second < holdSecs startOpts * Second"
  using holder_outlives_run [of startOpts kindEnv] by (simp add: startOpts_def duration_units)

end
