(* ===== verification/K8sPool.thy ===== *)
theory K8sPool
  imports K8s PoolImpl
begin

text \<open>
  The pool's Kubernetes backend, \<open>pkg/sandbox/poolk8s.go\<close>: one pod per holder that sleeps, and
  one exec per run. It makes its calls over the log of \<open>K8s\<close>.
\<close>

section \<open>The holder\<close>

record k8s_pool =
  kp_ns :: string
  kp_name :: string
  kp_opts :: opts

definition holderPod :: "k8s_env \<Rightarrow> opts \<Rightarrow> pod_spec" where
  "holderPod env o' =
     \<lparr>po_Name = ''sandbox-pool-'' @ ke_rand env, po_Labels = [(''app'', ''sandbox-runner'')],
      po_RestartPolicy = ''Never'', po_AutomountServiceAccountToken = Some False,
      po_EnableServiceLinks = Some False, po_ShareProcessNamespace = Some True,
      po_RuntimeClassName = runtimeClassOrNil (o_Runtime o'), po_Image = o_Image o',
      po_Command = [''sleep'', ''infinity''], po_Env = [], po_WorkingDir = ''/work'',
      po_SecurityContext =
        \<lparr>sc_ReadOnlyRootFilesystem = Some True, sc_AllowPrivilegeEscalation = Some False,
         sc_CapDrop = [''ALL''], sc_SeccompProfile = None,
         sc_RunAsUser = Some 65534, sc_RunAsGroup = Some 65534, sc_RunAsNonRoot = Some True\<rparr>,
      po_Memory = memQuantity o', po_CPU = cpuQuantity o',
      po_VolumeMounts = scratchMounts, po_Volumes = scratchVolumes\<rparr>"

text \<open>The local function \<open>fail\<close>, and what follows the creation of the pod.\<close>

definition failPod :: "string \<Rightarrow> string \<Rightarrow> gerror \<Rightarrow> klog \<Rightarrow> (gerror + k8s_pool) \<times> klog" where [call_defs]:
  "failPod ns name e l = (Inl e, l @ [KDeletePod ns name])"

definition holderCreated :: "k8s_env \<Rightarrow> opts \<Rightarrow> string \<Rightarrow> string \<Rightarrow> klog \<Rightarrow> ((gerror + k8s_pool) \<times> klog) option" where [call_defs]:
  "holderCreated env o' ns name l =
     (case waitPodRunning env ns name l of
        None \<Rightarrow> None
      | Some (Some e, l1) \<Rightarrow> Some (failPod ns name (Wrap ''pool: holder pod never started: '' e) l1)
      | Some (None, l1) \<Rightarrow>
          let l2 = (if 0 < o_NetWait o' then l1 @ [KNetWait (o_NetWait o')] else l1) in
          Some (if 0 < o_NetWait o' \<and> ke_netEnd env l2 \<noteq> None
                then failPod ns name (Errorf ''pool: cancelled during netwait'') l2
                else (Inr \<lparr>kp_ns = ns, kp_name = name, kp_opts = o'\<rparr>, l2)))"

definition newK8sPool :: "k8s_env \<Rightarrow> opts \<Rightarrow> klog \<Rightarrow> ((gerror + k8s_pool) \<times> klog) option" where [call_defs]:
  "newK8sPool env o' l =
     (if o_Binds o' \<noteq> [] then Some (Inl (Errorf ''pool: k8s backend does not support Binds''), l)
      else case kubeClient env l of
          (Some e, l1) \<Rightarrow> Some (Inl e, l1)
        | (None, l1) \<Rightarrow>
            let ns = namespaceOf env in
            (case ensureIsolationPolicy env ns l1 of
               (Some e, l2) \<Rightarrow> Some (Inl (Wrap ''pool: network isolation policy: '' e), l2)
             | (None, l2) \<Rightarrow>
                 let l3 = l2 @ [KCreatePod ns (holderPod env o')] in
                 (case ke_createPod env l3 of
                    Inl e \<Rightarrow> Some (Inl (Wrap ''pool: create holder pod: '' e), l3)
                  | Inr name \<Rightarrow> holderCreated env o' ns name l3)))"

section \<open>One run in the holder\<close>

definition kpExec :: "k8s_env \<Rightarrow> k8s_pool \<Rightarrow> string list \<Rightarrow> bool \<Rightarrow> klog \<Rightarrow> gerror option \<times> klog" where [call_defs]:
  "kpExec env k cmd withStdin l =
     (let l1 = l @ [KExecutor (kp_ns k) (kp_name k) (execParams cmd withStdin)] in
      (case ke_executor env l1 of
         Some e \<Rightarrow> (Some (Wrap ''executor: '' e), l1)
       | None \<Rightarrow> (ke_stream env (l1 @ [KStream]), l1 @ [KStream, KCloseWriters])))"

text \<open>
  The wrapper keeps the workload's output in files, so that no child holds the exec streams;
  without a stdin it also closes the workload's.
\<close>

definition wrapCmd :: "bool \<Rightarrow> string list \<Rightarrow> string list" where
  \<open>wrapCmd withStdin cmd =
     [''sh'', ''-c'',
      (if withStdin
       then ''"$@" >/tmp/.o 2>/tmp/.e; ec=$?; cat /tmp/.o; cat /tmp/.e >&2; rm -f /tmp/.o /tmp/.e; exit $ec''
       else ''"$@" >/tmp/.o 2>/tmp/.e </dev/null; ec=$?; cat /tmp/.o; cat /tmp/.e >&2; rm -f /tmp/.o /tmp/.e; exit $ec''),
      ''_''] @ cmd\<close>

definition kpTimeout :: "k8s_pool \<Rightarrow> gerror" where
  "kpTimeout k = Errorf (''pool: timed out after '' @ durString (o_Timeout (kp_opts k)) @ '' (workload reaped)'')"

definition kpRun :: "k8s_env \<Rightarrow> k8s_pool \<Rightarrow> string list \<Rightarrow> bool \<Rightarrow> klog \<Rightarrow> outcome \<times> klog" where [call_defs]:
  "kpRun env k cmd withStdin l =
     (case kpExec env k (wrapCmd withStdin cmd) withStdin l of
        (streamErr, l1) \<Rightarrow>
          (streamResult (zeroResult\<lparr>r_DurationMS := milliseconds (ke_elapsed env l1)\<rparr>) (ke_ctxDone env l1)
             (kpTimeout k) ''pool: exec: '' streamErr, l1))"

section \<open>Hygiene\<close>

definition cleanupScript :: string where
  \<open>cleanupScript =
     ''for p in /proc/[0-9]*; do pid=${p#/proc/}; ppid=$(awk '' @ [CHR 0x27] @ ''{print $4}'' @ [CHR 0x27]
     @ '' "$p/stat" 2>/dev/null); [ "$ppid" = 1 ] && kill -9 "$pid" 2>/dev/null; done; ''
     @ ''rm -rf /work/* /tmp/* 2>/dev/null; true''\<close>

definition kpCleanup :: "k8s_env \<Rightarrow> k8s_pool \<Rightarrow> klog \<Rightarrow> klog" where [call_defs]:
  "kpCleanup env k l = snd (kpExec env k [''sh'', ''-c'', cleanupScript] False l)"

definition kpCheck :: "k8s_env \<Rightarrow> k8s_pool \<Rightarrow> klog \<Rightarrow> gerror option \<times> klog" where [call_defs]:
  "kpCheck env k l =
     (let l1 = l @ [KGetPod (kp_ns k) (kp_name k)] in
      (case ke_getPod env l1 of
         Inl e \<Rightarrow> (Some (Wrap ''holder pod inspect failed: '' e), l1)
       | Inr phase \<Rightarrow>
           (if phase \<noteq> ''Running''
            then Some (Errorf (''holder pod is '' @ phase @ '' (possibly killed by a workload)'')) else None, l1)))"

definition kpClose :: "k8s_env \<Rightarrow> k8s_pool \<Rightarrow> klog \<Rightarrow> gerror option \<times> klog" where [call_defs]:
  "kpClose env k l = (let l1 = l @ [KDeletePod (kp_ns k) (kp_name k)] in (ke_delete env l1, l1))"

section \<open>The interface\<close>

text \<open>Nobody has deleted the holder's pod.\<close>

definition kpAlive :: "k8s_pool \<Rightarrow> klog \<Rightarrow> bool" where
  "kpAlive k l \<longleftrightarrow> KDeletePod (kp_ns k) (kp_name k) \<notin> set l"

lemma kpExec_log:
  "kpExec env k cmd b l = (r, l') \<Longrightarrow> \<exists>ext. l' = l @ KExecutor (kp_ns k) (kp_name k) (execParams cmd b) # ext
     \<and> set ext \<subseteq> {KStream, KCloseWriters}"
  by (auto simp: kpExec_def Let_def split: option.splits)

lemma kpRun_log:
  "kpRun env k cmd b l = (out, l') \<Longrightarrow>
     \<exists>ext. l' = l @ KExecutor (kp_ns k) (kp_name k) (execParams (wrapCmd b cmd) b) # ext
       \<and> set ext \<subseteq> {KStream, KCloseWriters}"
  using kpExec_log by (fastforce simp: kpRun_def split: prod.splits)

lemma kpRun_out:
  assumes "kpRun env k cmd b l = (out, l')"
  shows "(r_TimedOut (fst out) \<longrightarrow> snd out = Some (kpTimeout k))
    \<and> (snd out \<noteq> None \<longrightarrow> r_ExitCode (fst out) = 0 \<and> \<not> r_OOMKilled (fst out))
    \<and> (snd out = None \<longrightarrow> (r_OOMKilled (fst out) \<longleftrightarrow> r_ExitCode (fst out) = 137))"
proof -
  obtain e where "kpExec env k (wrapCmd b cmd) b l = (e, l')"
    "streamResult (zeroResult\<lparr>r_DurationMS := milliseconds (ke_elapsed env l')\<rparr>) (ke_ctxDone env l')
       (kpTimeout k) ''pool: exec: '' e = out"
    using assms by (auto simp: kpRun_def split: prod.splits)
  from streamResult_out [OF this(2)] show ?thesis by (auto simp: zeroResult_def)
qed

lemma kpCleanup_log:
  "\<exists>ext. kpCleanup env k l = l @ KExecutor (kp_ns k) (kp_name k) (execParams [''sh'', ''-c'', cleanupScript] False) # ext
     \<and> set ext \<subseteq> {KStream, KCloseWriters}"
  unfolding kpCleanup_def using kpExec_log by (metis prod.collapse)

lemma kpCheck_log: "kpCheck env k l = (c, l') \<Longrightarrow> l' = l @ [KGetPod (kp_ns k) (kp_name k)]"
  by (auto simp: kpCheck_def Let_def split: sum.splits)

lemma kpAlive_append: "kpAlive k l \<Longrightarrow> KDeletePod (kp_ns k) (kp_name k) \<notin> set ext \<Longrightarrow> kpAlive k (l @ ext)"
  by (simp add: kpAlive_def)

lemma streams_not_delete: "set ext \<subseteq> {KStream, KCloseWriters} \<Longrightarrow> KDeletePod ns name \<notin> set ext"
  by auto

interpretation k8s_impl: pool_impl kpRun kpCleanup kpCheck kpTimeout kpAlive
proof (unfold_locales, goal_cases)
  case (1 env k cmd b l out l')
  then show ?case using kpRun_out by blast
next
  case (2 env k cmd b l out l')
  then show ?case using kpRun_out by blast
next
  case (3 env k cmd b l out l')
  then show ?case using kpRun_out by blast
next
  case (4 env k cmd b l out l')
  then show ?case using kpRun_log [OF 4(1)] streams_not_delete by (auto simp: kpAlive_def)
next
  case (5 k l env)
  then show ?case using kpCleanup_log [of env k l] streams_not_delete by (auto simp: kpAlive_def)
next
  case (6 env k l c l')
  then show ?case using kpCheck_log [OF 6(1)] by (auto intro!: kpAlive_append)
qed

section \<open>Properties\<close>

lemma holderCreated_log:
  assumes "holderCreated env o' ns name l = Some (r, l')"
  obtains (failed) ext e where "l' = l @ ext @ [KDeletePod ns name]" "\<forall>c \<in> set ext. podCall ns name c" "r = Inl e"
  | (fine) a where "l' = l @ a @ (if 0 < o_NetWait o' then [KNetWait (o_NetWait o')] else [])"
      "set a \<subseteq> {KGetPod ns name, KPollWait}" "podSeen env ns name (l @ a)"
      "r = Inr \<lparr>kp_ns = ns, kp_name = name, kp_opts = o'\<rparr>"
proof -
  obtain q l1 where w: "waitPodRunning env ns name l = Some (q, l1)"
    using assms by (auto simp: holderCreated_def split: option.splits)
  note wd = waitPodRunning_waited [OF w]
  obtain a where a: "l1 = l @ a" "set a \<subseteq> {KGetPod ns name, KPollWait}"
    using wd by (auto simp: waited_def)
  have ac: "\<forall>c \<in> set a. podCall ns name c" using a(2) by auto
  show ?thesis
  proof (cases q)
    case (Some e)
    then show ?thesis using failed [of a] assms w a ac by (auto simp: holderCreated_def failPod_def)
  next
    case None
    then have seen: "podSeen env ns name l1" using waited_started wd by blast
    let ?nw = "if 0 < o_NetWait o' then [KNetWait (o_NetWait o')] else []"
    show ?thesis
    proof (cases "0 < o_NetWait o' \<and> ke_netEnd env (l1 @ ?nw) \<noteq> None")
      case True
      then show ?thesis using failed [of "a @ ?nw"] assms w a ac None
        by (auto simp: holderCreated_def failPod_def Let_def)
    next
      case False
      then show ?thesis using fine [of a] assms w a seen None
        by (auto simp: holderCreated_def Let_def split: if_splits)
    qed
  qed
qed

lemma holderCreated_calls:
  assumes "holderCreated env o' ns name l = Some (r, l')"
  shows "\<exists>ext. l' = l @ ext \<and> (\<forall>c \<in> set ext. podCall ns name c \<or> c = KDeletePod ns name)"
  using assms
proof (cases rule: holderCreated_log)
  case (failed ext e)
  then show ?thesis by (intro exI [of _ "ext @ [KDeletePod ns name]"]) auto
next
  case (fine a)
  have "\<forall>c \<in> set a. podCall ns name c" using fine(2) by auto
  then show ?thesis using fine(1)
    by (intro exI [of _ "a @ (if 0 < o_NetWait o' then [KNetWait (o_NetWait o')] else [])"]) auto
qed

lemma newK8sPool_log:
  assumes "newK8sPool env o' l = Some (r, l')"
  obtains (nopod) ext e where "l' = l @ ext" "\<forall>c \<in> set ext. beforePod c \<or> c = KCreatePolicy (namespaceOf env) isolationPolicy"
      "r = Inl e"
  | (refused) p e where "l' = l @ p @ [KCreatePolicy (namespaceOf env) isolationPolicy, KCreatePod (namespaceOf env) (holderPod env o')]"
      "\<forall>c \<in> set p. beforePod c"
      "\<forall>e. ke_createPolicy env (l @ p @ [KCreatePolicy (namespaceOf env) isolationPolicy]) \<noteq> PolicyErr e"
      "ke_createPod env l' = Inl e" "r = Inl (Wrap ''pool: create holder pod: '' e)"
  | (created) p name where "\<forall>c \<in> set p. beforePod c"
      "\<forall>e. ke_createPolicy env (l @ p @ [KCreatePolicy (namespaceOf env) isolationPolicy]) \<noteq> PolicyErr e"
      "ke_createPod env (l @ p @ [KCreatePolicy (namespaceOf env) isolationPolicy, KCreatePod (namespaceOf env) (holderPod env o')]) = Inr name"
      "holderCreated env o' (namespaceOf env) name
         (l @ p @ [KCreatePolicy (namespaceOf env) isolationPolicy, KCreatePod (namespaceOf env) (holderPod env o')]) = Some (r, l')"
proof -
  obtain q l1 where k: "kubeClient env l = (q, l1)" by fastforce
  obtain p where p: "l1 = l @ p" "\<forall>c \<in> set p. beforePod c" using kubeClient_log [OF k] by blast
  obtain n l2 where n: "ensureIsolationPolicy env (namespaceOf env) l1 = (n, l2)" by fastforce
  note nl = ensureIsolationPolicy_log [OF n]
  show ?thesis
  proof (cases "q = None \<and> o_Binds o' = [] \<and> n = None")
    case False
    then have "\<exists>e ext. r = Inl e \<and> l' = l @ ext
        \<and> (\<forall>c \<in> set ext. beforePod c \<or> c = KCreatePolicy (namespaceOf env) isolationPolicy)"
      using assms k p n nl by (auto simp: newK8sPool_def Let_def split: option.splits if_splits)
    then show ?thesis using nopod by blast
  next
    case True
    let ?l3 = "l2 @ [KCreatePod (namespaceOf env) (holderPod env o')]"
    show ?thesis
    proof (cases "ke_createPod env ?l3")
      case (Inl e)
      then show ?thesis using assms k p n nl True
        by (intro refused [of p e]) (auto simp: newK8sPool_def Let_def)
    next
      case (Inr name)
      then show ?thesis using assms k p n nl True
        by (intro created [of p name]) (auto simp: newK8sPool_def Let_def)
    qed
  qed
qed





end
