(* ===== verification/Encoding.thy ===== *)
theory Encoding
  imports Prelude
begin

text \<open>
  Two encodings that \<open>encoding/json\<close> applies to the bytes of a request: text is made valid
  UTF-8, a byte slice is written in standard base64.
\<close>

section \<open>UTF-8\<close>

definition inRange :: "nat \<Rightarrow> nat \<Rightarrow> char \<Rightarrow> bool" where
  "inRange a b c \<longleftrightarrow> a \<le> of_char c \<and> of_char c \<le> b"

abbreviation cont :: "char \<Rightarrow> bool" where
  "cont \<equiv> inRange 0x80 0xBF"

text \<open>How many bytes the well-formed code point at the front takes; 0 when there is none.\<close>

definition runeLen :: "string \<Rightarrow> nat" where
  "runeLen s =
     (case s of
        [] \<Rightarrow> 0
      | a # s1 \<Rightarrow>
          if inRange 0 0x7F a then 1
          else (case s1 of
             [] \<Rightarrow> 0
           | b # s2 \<Rightarrow>
               if inRange 0xC2 0xDF a then (if cont b then 2 else 0)
               else (case s2 of
                  [] \<Rightarrow> 0
                | c # s3 \<Rightarrow>
                    if inRange 0xE0 0xEF a
                    then (if inRange (if a = CHR 0xE0 then 0xA0 else 0x80) (if a = CHR 0xED then 0x9F else 0xBF) b
                            \<and> cont c then 3 else 0)
                    else (case s3 of
                       [] \<Rightarrow> 0
                     | d # _ \<Rightarrow>
                         if inRange 0xF0 0xF4 a
                            \<and> inRange (if a = CHR 0xF0 then 0x90 else 0x80) (if a = CHR 0xF4 then 0x8F else 0xBF) b
                            \<and> cont c \<and> cont d
                         then 4 else 0))))"

text \<open>Every byte that does not begin a code point becomes U+FFFD.\<close>

function toValidUtf8 :: "string \<Rightarrow> string" where
  "toValidUtf8 s =
     (if s = [] then []
      else if runeLen s = 0 then [CHR 0xEF, CHR 0xBF, CHR 0xBD] @ toValidUtf8 (tl s)
      else take (runeLen s) s @ toValidUtf8 (drop (runeLen s) s))"
  by pat_completeness auto
termination
  by (relation "measure length") auto

declare toValidUtf8.simps [simp del]

lemma toValidUtf8_Nil [simp]: "toValidUtf8 [] = []"
  by (simp add: toValidUtf8.simps)

lemma toValidUtf8_eq_Nil [simp]: "toValidUtf8 s = [] \<longleftrightarrow> s = []"
  by (subst toValidUtf8.simps) auto

lemma toValidUtf8_ascii: "\<forall>c \<in> set s. inRange 0 0x7F c \<Longrightarrow> toValidUtf8 s = s"
proof (induction s)
  case (Cons c s)
  have "runeLen (c # s) = 1" using Cons.prems by (simp add: runeLen_def)
  then show ?case using Cons by (subst toValidUtf8.simps) simp
qed simp

text \<open>Text that was made valid once stays as it is.\<close>

lemma runeLen_bound: "runeLen s \<le> length s"
  by (auto simp: runeLen_def split: list.splits)

lemma runeLen_1: "inRange 0 0x7F a \<Longrightarrow> runeLen (a # s) = 1"
  by (simp add: runeLen_def)

lemma runeLen_2: "\<not> inRange 0 0x7F a \<Longrightarrow> inRange 0xC2 0xDF a \<Longrightarrow> runeLen (a # b # s) = (if cont b then 2 else 0)"
  by (simp add: runeLen_def)

lemma runeLen_3: "\<not> inRange 0 0x7F a \<Longrightarrow> \<not> inRange 0xC2 0xDF a \<Longrightarrow> inRange 0xE0 0xEF a \<Longrightarrow>
    runeLen (a # b # c # s) = (if inRange (if a = CHR 0xE0 then 0xA0 else 0x80) (if a = CHR 0xED then 0x9F else 0xBF) b
      \<and> cont c then 3 else 0)"
  by (simp add: runeLen_def)

lemma runeLen_4: "\<not> inRange 0 0x7F a \<Longrightarrow> \<not> inRange 0xC2 0xDF a \<Longrightarrow> \<not> inRange 0xE0 0xEF a \<Longrightarrow>
    runeLen (a # b # c # d # s) = (if inRange 0xF0 0xF4 a
      \<and> inRange (if a = CHR 0xF0 then 0x90 else 0x80) (if a = CHR 0xF4 then 0x8F else 0xBF) b
      \<and> cont c \<and> cont d then 4 else 0)"
  by (simp add: runeLen_def)

lemma runeLen_prefix:
  assumes "0 < runeLen s"
  shows "runeLen (take (runeLen s) s @ t) = runeLen s"
proof (cases s)
  case Nil
  then show ?thesis using assms by (simp add: runeLen_def)
next
  case (Cons a s1)
  consider "inRange 0 0x7F a" | "\<not> inRange 0 0x7F a" "inRange 0xC2 0xDF a"
    | "\<not> inRange 0 0x7F a" "\<not> inRange 0xC2 0xDF a" "inRange 0xE0 0xEF a"
    | "\<not> inRange 0 0x7F a" "\<not> inRange 0xC2 0xDF a" "\<not> inRange 0xE0 0xEF a" by blast
  then show ?thesis
  proof cases
    case 1
    then show ?thesis using Cons by (simp add: runeLen_1)
  next
    case 2
    obtain b s2 where "s1 = b # s2" using 2 Cons assms by (cases s1) (simp_all add: runeLen_def)
    then show ?thesis using 2 Cons assms by (simp add: runeLen_2 numeral_2_eq_2 split: if_splits)
  next
    case 3
    obtain b s2 where s1: "s1 = b # s2" using 3 Cons assms by (cases s1) (simp_all add: runeLen_def)
    obtain c s3 where "s2 = c # s3" using 3 Cons assms s1 by (cases s2) (simp_all add: runeLen_def)
    then show ?thesis using 3 Cons assms s1 by (simp add: runeLen_3 numeral_3_eq_3 split: if_split_asm)
  next
    case 4
    obtain b s2 where s1: "s1 = b # s2" using 4 Cons assms by (cases s1) (simp_all add: runeLen_def)
    obtain c s3 where s2: "s2 = c # s3" using 4 Cons assms s1 by (cases s2) (simp_all add: runeLen_def)
    obtain d s4 where "s3 = d # s4" using 4 Cons assms s1 s2 by (cases s3) (simp_all add: runeLen_def)
    then show ?thesis using 4 Cons assms s1 s2 by (simp add: runeLen_4 split: if_split_asm)
  qed
qed

lemma toValidUtf8_rune: "0 < runeLen s \<Longrightarrow> toValidUtf8 (take (runeLen s) s @ t) = take (runeLen s) s @ toValidUtf8 t"
proof -
  assume r: "0 < runeLen s"
  then have "s \<noteq> []" by (auto simp: runeLen_def)
  then show ?thesis using r runeLen_prefix [OF r, of t] runeLen_bound [of s]
    by (subst toValidUtf8.simps) auto
qed

lemma toValidUtf8_idem: "toValidUtf8 (toValidUtf8 s) = toValidUtf8 s"
proof (induction s rule: toValidUtf8.induct)
  case (1 s)
  show ?case
  proof (cases "s = []")
    case False
    show ?thesis
    proof (cases "runeLen s = 0")
      case True
      let ?r = "[CHR 0xEF, CHR 0xBF, CHR 0xBD]"
      have "runeLen ?r = 3" by (simp add: runeLen_def inRange_def)
      then have "toValidUtf8 (?r @ toValidUtf8 (tl s)) = ?r @ toValidUtf8 (toValidUtf8 (tl s))"
        using toValidUtf8_rune [of ?r] by simp
      then show ?thesis using 1 False True by (simp add: toValidUtf8.simps [of s])
    next
      case r: False
      have "toValidUtf8 (take (runeLen s) s @ toValidUtf8 (drop (runeLen s) s))
          = take (runeLen s) s @ toValidUtf8 (toValidUtf8 (drop (runeLen s) s))"
        using r by (intro toValidUtf8_rune) simp
      then show ?thesis using 1 False r by (simp add: toValidUtf8.simps [of s])
    qed
  qed simp
qed

section \<open>Base64\<close>

definition b64Char :: "nat \<Rightarrow> char" where
  "b64Char n =
     (if n < 26 then char_of (n + 65) else if n < 52 then char_of (n + 71)
      else if n < 62 then char_of (n - 4) else if n = 62 then CHR ''+'' else CHR ''/'')"

definition b64Val :: "char \<Rightarrow> nat option" where
  "b64Val c =
     (let n = of_char c in
      if 65 \<le> n \<and> n \<le> 90 then Some (n - 65) else if 97 \<le> n \<and> n \<le> 122 then Some (n - 71)
      else if 48 \<le> n \<and> n \<le> 57 then Some (n + 4) else if n = 43 then Some 62
      else if n = 47 then Some 63 else None)"

fun b64Encode :: "string \<Rightarrow> string" where
  "b64Encode [] = []"
| "b64Encode [a] =
     (let x = of_char a in [b64Char (x div 4), b64Char (x mod 4 * 16), CHR ''='', CHR ''=''])"
| "b64Encode [a, b] =
     (let x = of_char a; y = of_char b in
      [b64Char (x div 4), b64Char (x mod 4 * 16 + y div 16), b64Char (y mod 16 * 4), CHR ''=''])"
| "b64Encode (a # b # c # s) =
     (let x = of_char a; y = of_char b; z = of_char c in
      [b64Char (x div 4), b64Char (x mod 4 * 16 + y div 16), b64Char (y mod 16 * 4 + z div 64),
       b64Char (z mod 64)] @ b64Encode s)"

definition corruptInput :: "nat \<Rightarrow> gerror" where
  "corruptInput i = Errorf (''illegal base64 data at input byte '' @ showInt (int i))"

definition isNewline :: "char \<Rightarrow> bool" where
  "isNewline c \<longleftrightarrow> c = CHR 0x0A \<or> c = CHR 0x0D"

text \<open>The bytes of a quantum of two, three or four sextets; what is left over is dropped.\<close>

definition quantum :: "nat list \<Rightarrow> string" where
  "quantum q =
     (case q of
        [a, b] \<Rightarrow> [char_of (a * 4 + b div 16)]
      | [a, b, c] \<Rightarrow> [char_of (a * 4 + b div 16), char_of (b mod 16 * 16 + c div 4)]
      | [a, b, c, d] \<Rightarrow> [char_of (a * 4 + b div 16), char_of (b mod 16 * 16 + c div 4),
                         char_of (c mod 4 * 64 + d)]
      | _ \<Rightarrow> [])"

text \<open>After the padding only line ends may follow; \<open>i\<close> is the position of the rest.\<close>

fun b64End :: "nat \<Rightarrow> string \<Rightarrow> string \<Rightarrow> gerror + string" where
  "b64End i [] out = Inr out"
| "b64End i (c # s) out = (if isNewline c then b64End (i + 1) s out else Inl (corruptInput i))"

text \<open>The second padding character.\<close>

fun b64Pad2 :: "nat \<Rightarrow> string \<Rightarrow> string \<Rightarrow> gerror + string" where
  "b64Pad2 i [] out = Inl (corruptInput i)"
| "b64Pad2 i (c # s) out =
     (if isNewline c then b64Pad2 (i + 1) s out
      else if c = CHR ''='' then b64End (i + 1) s out else Inl (corruptInput (i - 1)))"

text \<open>The decoder's loop: \<open>i\<close> characters are read, \<open>q\<close> are the sextets of the open quantum.\<close>

fun b64Loop :: "nat \<Rightarrow> nat list \<Rightarrow> string \<Rightarrow> gerror + string" where
  "b64Loop i q [] = (if q = [] then Inr [] else Inl (corruptInput (i - length q)))"
| "b64Loop i q (c # s) =
     (case b64Val c of
        Some v \<Rightarrow>
          if length q = 3
          then (case b64Loop (i + 1) [] s of Inl e \<Rightarrow> Inl e | Inr out \<Rightarrow> Inr (quantum (q @ [v]) @ out))
          else b64Loop (i + 1) (q @ [v]) s
      | None \<Rightarrow>
          if isNewline c then b64Loop (i + 1) q s
          else if c \<noteq> CHR ''='' \<or> length q < 2 then Inl (corruptInput i)
          else if length q = 2 then b64Pad2 (i + 1) s (quantum q)
          else b64End (i + 1) s (quantum q))"

definition b64Decode :: "string \<Rightarrow> gerror + string" where
  "b64Decode s = b64Loop 0 [] s"

lemma b64Val_b64Char [simp]: "n < 64 \<Longrightarrow> b64Val (b64Char n) = Some n"
  by (auto simp: b64Char_def b64Val_def Let_def of_char_of)

lemma b64Val_pad [simp]: "b64Val CHR ''='' = None"
  by (simp add: b64Val_def)

lemma sextets:
  fixes x y z :: nat
  assumes "x < 256" "y < 256" "z < 256"
  shows "x div 4 < 64" "x mod 4 * 16 + y div 16 < 64" "y mod 16 * 4 + z div 64 < 64" "z mod 64 < 64"
    "x mod 4 * 16 < 64" "y mod 16 * 4 < 64"
    "x div 4 * 4 + (x mod 4 * 16 + y div 16) div 16 = x"
    "(x mod 4 * 16 + y div 16) mod 16 * 16 + (y mod 16 * 4 + z div 64) div 4 = y"
    "(y mod 16 * 4 + z div 64) mod 4 * 64 + z mod 64 = z"
    "x div 4 * 4 + x mod 4 * 16 div 16 = x"
    "(x mod 4 * 16 + y div 16) mod 16 * 16 + y mod 16 * 4 div 4 = y"
proof -
  have d: "x div 4 < 64" "y div 16 < 16" "z div 64 < 4" using assms by simp_all
  have m: "x mod 4 < 4" "y mod 16 < 16" "z mod 64 < 64" by simp_all
  show "x div 4 < 64" "z mod 64 < 64" using d m by auto
  show "x mod 4 * 16 < 64" "y mod 16 * 4 < 64" using m by simp_all
  show "x mod 4 * 16 + y div 16 < 64" "y mod 16 * 4 + z div 64 < 64" using d m by linarith+
  have e: "(x mod 4 * 16 + y div 16) div 16 = x mod 4" "(x mod 4 * 16 + y div 16) mod 16 = y div 16"
    "(y mod 16 * 4 + z div 64) div 4 = y mod 16" "(y mod 16 * 4 + z div 64) mod 4 = z div 64"
    using d by simp_all
  show "x div 4 * 4 + (x mod 4 * 16 + y div 16) div 16 = x"
    "(x mod 4 * 16 + y div 16) mod 16 * 16 + (y mod 16 * 4 + z div 64) div 4 = y"
    "(y mod 16 * 4 + z div 64) mod 4 * 64 + z mod 64 = z"
    "x div 4 * 4 + x mod 4 * 16 div 16 = x"
    "(x mod 4 * 16 + y div 16) mod 16 * 16 + y mod 16 * 4 div 4 = y"
    by (simp_all only: e div_mult_mod_eq) simp_all
qed

text \<open>The decoder reads back what the encoder writes, and an empty slice is the empty text.\<close>

lemma b64_roundtrip_at: "b64Loop i [] (b64Encode s) = Inr s"
proof (induction s arbitrary: i rule: b64Encode.induct)
  case (2 a)
  have "(of_char a :: nat) < 256" by (rule nat_of_char_less_256)
  then show ?case using sextets [of "of_char a" 0 0] by (simp add: Let_def quantum_def isNewline_def)
next
  case (3 a b)
  have "(of_char a :: nat) < 256" "(of_char b :: nat) < 256" by (rule nat_of_char_less_256)+
  then show ?case using sextets [of "of_char a" "of_char b" 0] by (simp add: Let_def quantum_def isNewline_def)
next
  case (4 a b c s)
  have "(of_char a :: nat) < 256" "(of_char b :: nat) < 256" "(of_char c :: nat) < 256"
    by (rule nat_of_char_less_256)+
  then show ?case using 4 sextets [of "of_char a" "of_char b" "of_char c"]
    by (simp add: Let_def quantum_def)
qed simp

lemma b64_roundtrip [simp]: "b64Decode (b64Encode s) = Inr s"
  by (simp add: b64Decode_def b64_roundtrip_at)

lemma b64Encode_eq_Nil [simp]: "b64Encode s = [] \<longleftrightarrow> s = []"
  by (cases s rule: b64Encode.cases) (simp_all add: Let_def)

end
