(* ===== verification/GoNum.thy ===== *)
theory GoNum
  imports Prelude
begin

text \<open>Reading decimal numbers, and that it inverts printing them.\<close>

definition isDigit :: "char \<Rightarrow> bool" where
  "isDigit c \<longleftrightarrow> 48 \<le> (of_char c :: nat) \<and> (of_char c :: nat) \<le> 57"

definition digitVal :: "char \<Rightarrow> int" where
  "digitVal c = of_char c - 48"

definition readUint :: "string \<Rightarrow> int" where
  "readUint s = foldl (\<lambda>n c. n * 10 + digitVal c) 0 s"

text \<open>\<open>strconv.ParseInt(s, 10, 64)\<close>: \<open>None\<close> for a syntax or a range error.\<close>

definition parseInt64 :: "string \<Rightarrow> int option" where
  "parseInt64 s =
     (let neg = hasPrefix s ''-''; t = (if neg \<or> hasPrefix s ''+'' then tl s else s);
          n = (if neg then - readUint t else readUint t)
      in if t = [] \<or> (\<exists>c \<in> set t. \<not> isDigit c) \<or> n < - (2 ^ 63) \<or> 2 ^ 63 \<le> n then None else Some n)"

lemma readUint_simps [simp]:
  "readUint [] = 0" "readUint (s @ [c]) = readUint s * 10 + digitVal c"
  by (simp_all add: readUint_def)

lemma digitVal_digitChar:
  assumes "0 \<le> n" and "n < 10"
  shows "digitVal (digitChar n) = n" "isDigit (digitChar n)"
proof -
  have "n = 0 \<or> n = 1 \<or> n = 2 \<or> n = 3 \<or> n = 4 \<or> n = 5 \<or> n = 6 \<or> n = 7 \<or> n = 8 \<or> n = 9"
    using assms by presburger
  then show "digitVal (digitChar n) = n" "isDigit (digitChar n)"
    by (auto simp: digitChar_def digitVal_def isDigit_def)
qed

lemma showUint_digits: "0 \<le> n \<Longrightarrow> \<forall>c \<in> set (showUint n). isDigit c"
proof (induction n rule: showUint.induct)
  case (1 n)
  then show ?case using digitVal_digitChar by (subst showUint.simps) auto
qed

lemma readUint_showUint: "0 \<le> n \<Longrightarrow> readUint (showUint n) = n"
proof (induction n rule: showUint.induct)
  case (1 n)
  show ?case
  proof (cases "n < 10")
    case True
    then have "showUint n = [] @ [digitChar n]" by (subst showUint.simps) simp
    then show ?thesis using True 1 digitVal_digitChar by (simp only: readUint_simps)
  next
    case False
    then have "showUint n = showUint (n div 10) @ [digitChar (n mod 10)]" by (subst showUint.simps) simp
    then show ?thesis using False 1 digitVal_digitChar [of "n mod 10"] by simp
  qed
qed

lemma showUint_head: "0 \<le> n \<Longrightarrow> \<not> hasPrefix (showUint n) ''-'' \<and> \<not> hasPrefix (showUint n) ''+''"
proof -
  assume "0 \<le> n"
  then have "isDigit (hd (showUint n))" using showUint_digits by simp
  then have "hd (showUint n) \<noteq> CHR ''-''" "hd (showUint n) \<noteq> CHR ''+''" by (auto simp: isDigit_def)
  then show ?thesis by (cases "showUint n") (auto simp: hasPrefix_def)
qed

lemma parseInt64_showInt:
  assumes "- (2 ^ 63) \<le> n" and "n < 2 ^ 63"
  shows "parseInt64 (showInt n) = Some n"
proof (cases "n < 0")
  case True
  have "\<forall>c \<in> set (showUint (- n)). isDigit c" using True by (intro showUint_digits) simp
  then show ?thesis using True assms readUint_showUint [of "- n"]
    by (auto simp: parseInt64_def showInt_def hasPrefix_def Let_def)
next
  case False
  then have "\<forall>c \<in> set (showUint n). isDigit c" by (intro showUint_digits) simp
  then show ?thesis using False assms readUint_showUint [of n] showUint_head [of n]
    by (auto simp: parseInt64_def showInt_def Let_def)
qed

end
