(* ===== verification/Json.thy ===== *)
theory Json
  imports Encoding GoNum
begin

text \<open>
  What the program uses of \<open>encoding/json\<close>, between Go values and JSON values: the text level
  (the scanner and the printer of \<open>Decoder\<close> and \<open>Encoder\<close>) is not modelled, a transport carries
  a \<open>json\<close>. A number is kept as its literal. A nil slice and an empty one are the same list,
  written as \<open>null\<close>.
\<close>

datatype json =
    JNull
  | JBool bool
  | JNum string
  | JStr string
  | JArr "json list"
  | JObj "(string \<times> json) list"

section \<open>Encoding\<close>

definition jStr :: "string \<Rightarrow> json" where
  "jStr s = JStr (toValidUtf8 s)"

definition jInt :: "int \<Rightarrow> json" where
  "jInt n = JNum (showInt n)"

definition jBytes :: "string \<Rightarrow> json" where
  "jBytes s = (if s = [] then JNull else JStr (b64Encode s))"

definition jStrings :: "string list \<Rightarrow> json" where
  "jStrings ss = (if ss = [] then JNull else JArr (map jStr ss))"

text \<open>A member with the option \<open>omitempty\<close>.\<close>

definition omitEmpty :: "bool \<Rightarrow> string \<Rightarrow> json \<Rightarrow> (string \<times> json) list" where
  "omitEmpty none k j = (if none then [] else [(k, j)])"

section \<open>Decoding\<close>

fun kindName :: "json \<Rightarrow> string" where
  "kindName JNull = ''null''"
| "kindName (JBool _) = ''bool''"
| "kindName (JNum _) = ''number''"
| "kindName (JStr _) = ''string''"
| "kindName (JArr _) = ''array''"
| "kindName (JObj _) = ''object''"

text \<open>\<open>UnmarshalTypeError\<close>: the value, the place it was meant for, and the Go type there.\<close>

definition typeErr :: "string \<Rightarrow> string \<Rightarrow> string \<Rightarrow> gerror" where
  "typeErr what place ty =
     Errorf (''json: cannot unmarshal '' @ what @ '' into Go '' @ place @ '' of type '' @ ty)"

definition decString :: "string \<Rightarrow> string \<Rightarrow> json \<Rightarrow> gerror + string" where
  "decString place old j =
     (case j of JStr s \<Rightarrow> Inr s | JNull \<Rightarrow> Inr old | _ \<Rightarrow> Inl (typeErr (kindName j) place ''string''))"

definition decBool :: "string \<Rightarrow> bool \<Rightarrow> json \<Rightarrow> gerror + bool" where
  "decBool place old j =
     (case j of JBool b \<Rightarrow> Inr b | JNull \<Rightarrow> Inr old | _ \<Rightarrow> Inl (typeErr (kindName j) place ''bool''))"

definition decInt :: "string \<Rightarrow> int \<Rightarrow> json \<Rightarrow> gerror + int" where
  "decInt place old j =
     (case j of
        JNum l \<Rightarrow> (case parseInt64 l of Some n \<Rightarrow> Inr n | None \<Rightarrow> Inl (typeErr (''number '' @ l) place ''int''))
      | JNull \<Rightarrow> Inr old
      | _ \<Rightarrow> Inl (typeErr (kindName j) place ''int''))"

fun decList :: "(json \<Rightarrow> gerror + 'a) \<Rightarrow> json list \<Rightarrow> gerror + 'a list" where
  "decList f [] = Inr []"
| "decList f (j # js) =
     (case f j of
        Inl e \<Rightarrow> Inl e
      | Inr x \<Rightarrow> (case decList f js of Inl e \<Rightarrow> Inl e | Inr xs \<Rightarrow> Inr (x # xs)))"

definition decStrings :: "string \<Rightarrow> json \<Rightarrow> gerror + string list" where
  "decStrings place j =
     (case j of
        JNull \<Rightarrow> Inr []
      | JArr js \<Rightarrow> decList (decString place []) js
      | _ \<Rightarrow> Inl (typeErr (kindName j) place ''[]string''))"

text \<open>A byte slice is base64 text, or an array of numbers.\<close>

definition decByte :: "string \<Rightarrow> json \<Rightarrow> gerror + char" where
  "decByte place j =
     (case j of
        JNum l \<Rightarrow>
          (case parseInt64 l of
             Some n \<Rightarrow> if 0 \<le> n \<and> n < 256 \<and> \<not> hasPrefix l ''-'' then Inr (char_of (nat n))
                       else Inl (typeErr (''number '' @ l) place ''uint8'')
           | None \<Rightarrow> Inl (typeErr (''number '' @ l) place ''uint8''))
      | JNull \<Rightarrow> Inr (char_of (0::nat))
      | _ \<Rightarrow> Inl (typeErr (kindName j) place ''uint8''))"

definition decBytes :: "string \<Rightarrow> json \<Rightarrow> gerror + string" where
  "decBytes place j =
     (case j of
        JNull \<Rightarrow> Inr []
      | JStr s \<Rightarrow> b64Decode s
      | JArr js \<Rightarrow> decList (decByte place) js
      | _ \<Rightarrow> Inl (typeErr (kindName j) place ''[]uint8''))"

text \<open>
  The field a member names: the one with that name, else the first that differs in case only
  (U+017F and U+212A fold to \<open>s\<close> and \<open>k\<close>).
\<close>

function foldName :: "string \<Rightarrow> string" where
  "foldName s =
     (if s = [] then []
      else if hasPrefix s [CHR 0xC5, CHR 0xBF] then CHR ''s'' # foldName (drop 2 s)
      else if hasPrefix s [CHR 0xE2, CHR 0x84, CHR 0xAA] then CHR ''k'' # foldName (drop 3 s)
      else lowerChar (hd s) # foldName (tl s))"
  by pat_completeness auto
termination
  by (relation "measure length") auto

declare foldName.simps [simp del]

definition fieldOf :: "string list \<Rightarrow> string \<Rightarrow> string option" where
  "fieldOf names k = (if k \<in> set names then Some k else find (\<lambda>n. foldName n = foldName k) names)"

text \<open>
  An object into a struct: the members in order, unknown ones skipped, each field decoded over
  its value so far. The first error is the one that \<open>Decode\<close> returns.
\<close>

fun decMembers :: "string list \<Rightarrow> (string \<Rightarrow> json \<Rightarrow> 'r \<Rightarrow> gerror + 'r) \<Rightarrow> (string \<times> json) list \<Rightarrow> 'r \<Rightarrow> gerror + 'r" where
  "decMembers names f [] r = Inr r"
| "decMembers names f ((k, j) # ms) r =
     (case fieldOf names k of
        None \<Rightarrow> decMembers names f ms r
      | Some n \<Rightarrow> (case f n j r of Inl e \<Rightarrow> Inl e | Inr r' \<Rightarrow> decMembers names f ms r'))"

definition decStruct :: "string \<Rightarrow> string list \<Rightarrow> (string \<Rightarrow> json \<Rightarrow> 'r \<Rightarrow> gerror + 'r) \<Rightarrow> json \<Rightarrow> 'r \<Rightarrow> gerror + 'r" where
  "decStruct ty names f j r =
     (case j of
        JNull \<Rightarrow> Inr r
      | JObj ms \<Rightarrow> decMembers names f ms r
      | _ \<Rightarrow> Inl (typeErr (kindName j) ''value'' ty))"

section \<open>Round trips\<close>

lemma fieldOf_name [simp]: "k \<in> set names \<Longrightarrow> fieldOf names k = Some k"
  by (simp add: fieldOf_def)

lemma decString_jStr [simp]: "decString p old (jStr s) = Inr (toValidUtf8 s)"
  by (simp add: decString_def jStr_def)

lemma decInt_jInt [simp]: "- (2 ^ 63) \<le> n \<Longrightarrow> n < 2 ^ 63 \<Longrightarrow> decInt p old (jInt n) = Inr n"
  by (simp add: decInt_def jInt_def parseInt64_showInt)

lemma decBool_JBool [simp]: "decBool p old (JBool b) = Inr b"
  by (simp add: decBool_def)

lemma decBytes_jBytes [simp]: "decBytes p (jBytes s) = Inr s"
  by (simp add: decBytes_def jBytes_def)

lemma decList_jStr [simp]: "decList (decString p old) (map jStr ss) = Inr (map toValidUtf8 ss)"
  by (induction ss) simp_all

lemma decStrings_jStrings [simp]: "decStrings p (jStrings ss) = Inr (map toValidUtf8 ss)"
  by (simp add: decStrings_def jStrings_def)

lemma decMembers_append:
  "decMembers names f (ms @ ms') r =
     (case decMembers names f ms r of Inl e \<Rightarrow> Inl e | Inr r' \<Rightarrow> decMembers names f ms' r')"
  by (induction names f ms r rule: decMembers.induct) (auto split: option.splits sum.splits)

lemma decMembers_omitEmpty:
  assumes "k \<in> set names" and "none \<Longrightarrow> f k j r = Inr r"
  shows "decMembers names f (omitEmpty none k j) r = f k j r"
  using assms by (auto simp: omitEmpty_def split: sum.splits)

end
