(* ===== verification/Wire.thy ===== *)
theory Wire
  imports Json Sandbox
begin

text \<open>
  The messages of the daemon, \<open>RunRequest\<close> and \<open>RunResponse\<close> of \<open>pkg/sandbox/server.go\<close>, and
  their JSON form as their struct tags give it.
\<close>

record run_request =
  rq_Cmd :: "string list"
  rq_Env :: "string list"
  rq_Stdin :: string
  rq_Timeout :: string

record run_response =
  rs_ExitCode :: int
  rs_Stdout :: string
  rs_Stderr :: string
  rs_TimedOut :: bool
  rs_OOMKilled :: bool
  rs_Error :: string

definition zeroRequest :: run_request where
  "zeroRequest = \<lparr>rq_Cmd = [], rq_Env = [], rq_Stdin = [], rq_Timeout = []\<rparr>"

definition zeroResponse :: run_response where
  "zeroResponse = \<lparr>rs_ExitCode = 0, rs_Stdout = [], rs_Stderr = [], rs_TimedOut = False,
     rs_OOMKilled = False, rs_Error = []\<rparr>"

section \<open>JSON\<close>

definition requestToJson :: "run_request \<Rightarrow> json" where
  "requestToJson r =
     JObj ([(''cmd'', jStrings (rq_Cmd r))]
       @ omitEmpty (rq_Env r = []) ''env'' (jStrings (rq_Env r))
       @ omitEmpty (rq_Stdin r = []) ''stdin'' (jBytes (rq_Stdin r))
       @ omitEmpty (rq_Timeout r = []) ''timeout'' (jStr (rq_Timeout r)))"

definition responseToJson :: "run_response \<Rightarrow> json" where
  "responseToJson r =
     JObj ([(''exit_code'', jInt (rs_ExitCode r)), (''stdout'', jBytes (rs_Stdout r)),
            (''stderr'', jBytes (rs_Stderr r)), (''timed_out'', JBool (rs_TimedOut r)),
            (''oom_killed'', JBool (rs_OOMKilled r))]
       @ omitEmpty (rs_Error r = []) ''error'' (jStr (rs_Error r)))"

definition setR :: "('b \<Rightarrow> 'r) \<Rightarrow> gerror + 'b \<Rightarrow> gerror + 'r" where
  "setR f x = (case x of Inl e \<Rightarrow> Inl e | Inr v \<Rightarrow> Inr (f v))"

definition requestField :: "string \<Rightarrow> json \<Rightarrow> run_request \<Rightarrow> gerror + run_request" where
  "requestField n j r =
     (let place = ''struct field RunRequest.'' @ n in
      if n = ''cmd'' then setR (\<lambda>v. r\<lparr>rq_Cmd := v\<rparr>) (decStrings place j)
      else if n = ''env'' then setR (\<lambda>v. r\<lparr>rq_Env := v\<rparr>) (decStrings place j)
      else if n = ''stdin'' then setR (\<lambda>v. r\<lparr>rq_Stdin := v\<rparr>) (decBytes place j)
      else setR (\<lambda>v. r\<lparr>rq_Timeout := v\<rparr>) (decString place (rq_Timeout r) j))"

definition requestFromJson :: "json \<Rightarrow> gerror + run_request" where
  "requestFromJson j =
     decStruct ''sandbox.RunRequest'' [''cmd'', ''env'', ''stdin'', ''timeout''] requestField j zeroRequest"

definition responseField :: "string \<Rightarrow> json \<Rightarrow> run_response \<Rightarrow> gerror + run_response" where
  "responseField n j r =
     (let place = ''struct field RunResponse.'' @ n in
      if n = ''exit_code'' then setR (\<lambda>v. r\<lparr>rs_ExitCode := v\<rparr>) (decInt place (rs_ExitCode r) j)
      else if n = ''stdout'' then setR (\<lambda>v. r\<lparr>rs_Stdout := v\<rparr>) (decBytes place j)
      else if n = ''stderr'' then setR (\<lambda>v. r\<lparr>rs_Stderr := v\<rparr>) (decBytes place j)
      else if n = ''timed_out'' then setR (\<lambda>v. r\<lparr>rs_TimedOut := v\<rparr>) (decBool place (rs_TimedOut r) j)
      else if n = ''oom_killed'' then setR (\<lambda>v. r\<lparr>rs_OOMKilled := v\<rparr>) (decBool place (rs_OOMKilled r) j)
      else setR (\<lambda>v. r\<lparr>rs_Error := v\<rparr>) (decString place (rs_Error r) j))"

definition responseFromJson :: "json \<Rightarrow> gerror + run_response" where
  "responseFromJson j =
     decStruct ''sandbox.RunResponse''
       [''exit_code'', ''stdout'', ''stderr'', ''timed_out'', ''oom_killed'', ''error''] responseField j zeroResponse"

section \<open>Round trips\<close>

text \<open>What survives the wire: byte slices as they are, text as valid UTF-8.\<close>

definition wireRequest :: "run_request \<Rightarrow> run_request" where
  "wireRequest r = r\<lparr>rq_Cmd := map toValidUtf8 (rq_Cmd r), rq_Env := map toValidUtf8 (rq_Env r),
     rq_Timeout := toValidUtf8 (rq_Timeout r)\<rparr>"

definition wireResponse :: "run_response \<Rightarrow> run_response" where
  "wireResponse r = r\<lparr>rs_Error := toValidUtf8 (rs_Error r)\<rparr>"

lemma setR_Inr [simp]: "setR f (Inr v) = Inr (f v)"
  by (simp add: setR_def)

lemma requestField_jsons [simp]:
  "requestField ''cmd'' (jStrings ss) r = Inr (r\<lparr>rq_Cmd := map toValidUtf8 ss\<rparr>)"
  "requestField ''env'' (jStrings ss) r = Inr (r\<lparr>rq_Env := map toValidUtf8 ss\<rparr>)"
  "requestField ''stdin'' (jBytes s) r = Inr (r\<lparr>rq_Stdin := s\<rparr>)"
  "requestField ''timeout'' (jStr s) r = Inr (r\<lparr>rq_Timeout := toValidUtf8 s\<rparr>)"
  by (simp_all add: requestField_def)

lemma request_roundtrip: "requestFromJson (requestToJson r) = Inr (wireRequest r)"
  by (cases r)
    (simp add: requestFromJson_def requestToJson_def decStruct_def decMembers_append omitEmpty_def
      zeroRequest_def wireRequest_def)

lemma responseField_jsons [simp]:
  "- (2 ^ 63) \<le> n \<Longrightarrow> n < 2 ^ 63 \<Longrightarrow> responseField ''exit_code'' (jInt n) r = Inr (r\<lparr>rs_ExitCode := n\<rparr>)"
  "responseField ''stdout'' (jBytes s) r = Inr (r\<lparr>rs_Stdout := s\<rparr>)"
  "responseField ''stderr'' (jBytes s) r = Inr (r\<lparr>rs_Stderr := s\<rparr>)"
  "responseField ''timed_out'' (JBool b) r = Inr (r\<lparr>rs_TimedOut := b\<rparr>)"
  "responseField ''oom_killed'' (JBool b) r = Inr (r\<lparr>rs_OOMKilled := b\<rparr>)"
  "responseField ''error'' (jStr s) r = Inr (r\<lparr>rs_Error := toValidUtf8 s\<rparr>)"
  by (simp_all add: responseField_def)

lemma response_roundtrip:
  assumes "- (2 ^ 63) \<le> rs_ExitCode r" and "rs_ExitCode r < 2 ^ 63"
  shows "responseFromJson (responseToJson r) = Inr (wireResponse r)"
  using assms
  by (cases r)
    (simp add: responseFromJson_def responseToJson_def decStruct_def decMembers_append omitEmpty_def
      zeroResponse_def wireResponse_def)

section \<open>Properties\<close>

text \<open>
  C21. A message survives the wire: what one side encodes the other decodes, the standard input
  and the two output streams byte for byte whatever they hold, every number and flag as it
  was, and only text fields are made valid UTF-8; a message that crossed once crosses again
  unchanged.
\<close>

theorem messages_survive_wire:
  assumes "- (2 ^ 63) \<le> rs_ExitCode r" and "rs_ExitCode r < 2 ^ 63"
  shows "requestFromJson (requestToJson q) = Inr (wireRequest q) \<and> rq_Stdin (wireRequest q) = rq_Stdin q
    \<and> wireRequest (wireRequest q) = wireRequest q
    \<and> responseFromJson (responseToJson r) = Inr (wireResponse r)
    \<and> wireResponse r = r\<lparr>rs_Error := toValidUtf8 (rs_Error r)\<rparr>
    \<and> wireResponse (wireResponse r) = wireResponse r"
  using request_roundtrip [of q] response_roundtrip [OF assms]
  by (simp add: wireRequest_def wireResponse_def toValidUtf8_idem comp_def)

theorem messages_survive_wire_witness:
  "responseFromJson (responseToJson (zeroResponse\<lparr>rs_ExitCode := -1, rs_Stdout := [CHR 0xFF, CHR 0x00], rs_Error := ''e''\<rparr>))
     = Inr (zeroResponse\<lparr>rs_ExitCode := -1, rs_Stdout := [CHR 0xFF, CHR 0x00], rs_Error := ''e''\<rparr>)"
proof -
  have "toValidUtf8 ''e'' = ''e''" by (rule toValidUtf8_ascii) (simp add: inRange_def)
  then show ?thesis
    using messages_survive_wire [of "zeroResponse\<lparr>rs_ExitCode := -1, rs_Stdout := [CHR 0xFF, CHR 0x00], rs_Error := ''e''\<rparr>"]
    by (simp add: zeroResponse_def)
qed

end
