(* ===== verification/GoDuration.thy ===== *)
theory GoDuration
  imports Float64 GoNum
begin

text \<open>
  \<open>time.ParseDuration\<close>, with which the server reads the timeout of a request and the command
  line its duration flags. Its numbers are \<open>uint64\<close>: the checks of the code keep every one
  below \<open>2 ^ 64\<close> but the sum of the parts, which is written with its wrap-around.
\<close>

text \<open>The package's own \<open>quote\<close>: control characters and bytes above 127 as \<open>\x..\<close>.\<close>

definition timeQuoteChar :: "char \<Rightarrow> string" where
  "timeQuoteChar c =
     (let n = of_char c :: nat in
      if n < 32 \<or> 128 \<le> n then [CHR 0x5C, CHR ''x'', hexDigit (n div 16), hexDigit (n mod 16)]
      else if c = CHR 0x22 \<or> c = CHR 0x5C then [CHR 0x5C, c] else [c])"

definition timeQuote :: "string \<Rightarrow> string" where
  "timeQuote s = [CHR 0x22] @ concat (map timeQuoteChar s) @ [CHR 0x22]"

definition unitMap :: "string \<Rightarrow> int option" where
  "unitMap u =
     (if u = ''ns'' then Some 1
      else if u \<in> {''us'', [CHR 0xC2, CHR 0xB5, CHR ''s''], [CHR 0xCE, CHR 0xBC, CHR ''s'']} then Some Microsecond
      else if u = ''ms'' then Some Millisecond else if u = ''s'' then Some Second
      else if u = ''m'' then Some Minute else if u = ''h'' then Some Hour else None)"

text \<open>\<open>leadingInt\<close>: the digits at the front, unless they exceed \<open>2 ^ 63\<close>, and the rest.\<close>

definition leadingInt :: "string \<Rightarrow> (int \<times> string) option" where
  "leadingInt s =
     (let n = readUint (takeWhile isDigit s) in
      if 2 ^ 63 < n then None else Some (n, dropWhile isDigit s))"

text \<open>\<open>leadingFraction\<close>: digits that would overflow are skipped.\<close>

fun fractionLoop :: "int \<Rightarrow> int \<Rightarrow> bool \<Rightarrow> string \<Rightarrow> int \<times> int \<times> string" where
  "fractionLoop x scale over [] = (x, scale, [])"
| "fractionLoop x scale over (c # s) =
     (if \<not> isDigit c then (x, scale, c # s)
      else if over \<or> (2 ^ 63 - 1) div 10 < x \<or> 2 ^ 63 < x * 10 + digitVal c
      then fractionLoop x scale True s
      else fractionLoop (x * 10 + digitVal c) (scale * 10) False s)"

text \<open>The value of a fraction \<open>f / scale\<close> of a unit.\<close>

definition fractionOf :: "int \<Rightarrow> int \<Rightarrow> int \<Rightarrow> int" where
  "fractionOf f scale unit =
     (if 0 < f then f64Trunc (f64Round (f64Round (of_int f) * f64Round (of_int unit / of_int scale))) else 0)"

definition durInvalid :: "string \<Rightarrow> gerror" where
  "durInvalid orig = Errorf (''time: invalid duration '' @ timeQuote orig)"

definition notUnit :: "char \<Rightarrow> bool" where
  "notUnit c \<longleftrightarrow> c = CHR ''.'' \<or> isDigit c"

text \<open>One number with its unit, and what follows it.\<close>

definition durStep :: "string \<Rightarrow> string \<Rightarrow> gerror + (int \<times> string)" where
  "durStep orig s =
     (if s = [] \<or> \<not> notUnit (hd s) then Inl (durInvalid orig)
      else case leadingInt s of
          None \<Rightarrow> Inl (durInvalid orig)
        | Some (v, s1) \<Rightarrow>
            let pre = (s1 \<noteq> s); dot = hasPrefix s1 ''.'';
                (f, scale, s2) = (if dot then fractionLoop 0 1 False (tl s1) else (0, 1, s1));
                post = (dot \<and> s2 \<noteq> tl s1);
                u = takeWhile (\<lambda>c. \<not> notUnit c) s2; s3 = dropWhile (\<lambda>c. \<not> notUnit c) s2
            in if \<not> pre \<and> \<not> post then Inl (durInvalid orig)
               else if u = [] then Inl (Errorf (''time: missing unit in duration '' @ timeQuote orig))
               else case unitMap u of
                   None \<Rightarrow> Inl (Errorf (''time: unknown unit '' @ timeQuote u @ '' in duration '' @ timeQuote orig))
                 | Some unit \<Rightarrow>
                     let w = v * unit + fractionOf f scale unit in
                     if 2 ^ 63 div unit < v \<or> 2 ^ 63 < w then Inl (durInvalid orig) else Inr (w, s3))"

lemma fractionLoop_rest: "length (snd (snd (fractionLoop x scale b s))) \<le> length s"
  by (induction x scale b s rule: fractionLoop.induct) auto

lemma durStep_shorter: "durStep orig s = Inr (w, s') \<Longrightarrow> length s' < length s"
proof -
  assume step: "durStep orig s = Inr (w, s')"
  define s1 where "s1 = dropWhile isDigit s"
  define s2 where "s2 = snd (snd (if hasPrefix s1 ''.'' then fractionLoop 0 1 False (tl s1) else (0, 1, s1)))"
  have "s' = dropWhile (\<lambda>c. \<not> notUnit c) s2" "takeWhile (\<lambda>c. \<not> notUnit c) s2 \<noteq> []"
    using step by (auto simp: durStep_def leadingInt_def Let_def s1_def s2_def
        split: if_splits option.splits prod.splits)
  then have "length s' < length s2" by (metis length_append length_greater_0_conv less_add_same_cancel2 takeWhile_dropWhile_id)
  also have "length s2 \<le> length s1"
  proof (cases "hasPrefix s1 ''.''")
    case True
    then show ?thesis using fractionLoop_rest [of 0 1 False "tl s1"] by (simp add: s2_def)
  qed (simp add: s2_def)
  also have "length s1 \<le> length s" by (simp add: s1_def length_dropWhile_le)
  finally show ?thesis .
qed

function durLoop :: "string \<Rightarrow> string \<Rightarrow> int \<Rightarrow> gerror + int" where
  "durLoop orig s d =
     (if s = [] then Inr d
      else case durStep orig s of
          Inl e \<Rightarrow> Inl e
        | Inr (w, s') \<Rightarrow>
            let d' = (d + w) mod 2 ^ 64 in
            if 2 ^ 63 < d' then Inl (durInvalid orig) else durLoop orig s' d')"
  by pat_completeness auto
termination
  by (relation "measure (\<lambda>(orig, s, d). length s)") (auto dest: durStep_shorter)

declare durLoop.simps [simp del]

definition parseDuration :: "string \<Rightarrow> gerror + int" where
  "parseDuration orig =
     (let neg = hasPrefix orig ''-''; s = (if neg \<or> hasPrefix orig ''+'' then tl orig else orig) in
      if s = ''0'' then Inr 0
      else if s = [] then Inl (durInvalid orig)
      else case durLoop orig s 0 of
          Inl e \<Rightarrow> Inl e
        | Inr d \<Rightarrow> if neg then Inr (- d) else if 2 ^ 63 - 1 < d then Inl (durInvalid orig) else Inr d)"

end
