(* ===== verification/Server.thy ===== *)
theory Server
  imports Wire GoDuration Pool_Seq
begin

text \<open>
  The daemon, \<open>pkg/sandbox/server.go\<close>: one request is decoded, run on the pool and answered,
  over HTTP or over a connection of a unix socket.

  What the pool meets while it serves a call is a parameter: from the limit of the call's
  context, the command and the standard input it gives the environment of the pool's \<open>Run\<close> and
  the bytes that the workload writes.
\<close>

type_synonym pool_call = "int option \<Rightarrow> string list \<Rightarrow> string option \<Rightarrow> run_env \<times> string \<times> string"

section \<open>One run\<close>

text \<open>The limit a request asks for: none, or the duration in its text.\<close>

definition requestLimit :: "run_request \<Rightarrow> string + int option" where
  "requestLimit req =
     (if rq_Timeout req = [] then Inr None
      else case parseDuration (rq_Timeout req) of
          Inl e \<Rightarrow> Inl (''invalid timeout '' @ goQuote (rq_Timeout req) @ '': '' @ errMsg e)
        | Inr d \<Rightarrow> Inr (Some d))"

definition requestStdin :: "run_request \<Rightarrow> string option" where
  "requestStdin req = (if rq_Stdin req = [] then None else Some (rq_Stdin req))"

definition handleRun :: "pool_call \<Rightarrow> run_request \<Rightarrow> pstate \<Rightarrow> (run_response \<times> pstate) exec" where
  "handleRun pc req p =
     (if rq_Cmd req = [] then Returns (zeroResponse\<lparr>rs_Error := ''empty command''\<rparr>, p)
      else case requestLimit req of
          Inl msg \<Rightarrow> Returns (zeroResponse\<lparr>rs_Error := msg\<rparr>, p)
        | Inr limit \<Rightarrow>
            (case pc limit (rq_Cmd req) (requestStdin req) of
               (a, out, errOut) \<Rightarrow>
                 (case poolRun a p of
                    Blocks \<Rightarrow> Blocks
                  | Panics \<Rightarrow> Panics
                  | Returns ((res, err), p') \<Rightarrow>
                      Returns (\<lparr>rs_ExitCode = r_ExitCode res, rs_Stdout = out, rs_Stderr = errOut,
                                rs_TimedOut = r_TimedOut res, rs_OOMKilled = r_OOMKilled res,
                                rs_Error = (case err of None \<Rightarrow> [] | Some e \<Rightarrow> errMsg e)\<rparr>, p'))))"

definition badRequest :: "gerror \<Rightarrow> run_response" where
  "badRequest e = zeroResponse\<lparr>rs_Error := ''bad request: '' @ errMsg e\<rparr>"

text \<open>
  The decoder of a body or of a connection: it fails in the text, or reads a value that fits
  the struct or not.
\<close>

definition decodeRequest :: "gerror + json \<Rightarrow> gerror + run_request" where
  "decodeRequest b = (case b of Inl e \<Rightarrow> Inl e | Inr j \<Rightarrow> requestFromJson j)"

section \<open>HTTP\<close>

datatype http_body = TextBody string | JsonBody json

record http_request =
  hq_Path :: string
  hq_Method :: string
  hq_Body :: "gerror + json"

record http_reply =
  hr_Status :: int
  hr_ContentType :: string
  hr_Body :: http_body

definition writeJSON :: "int \<Rightarrow> json \<Rightarrow> http_reply" where
  "writeJSON code j = \<lparr>hr_Status = code, hr_ContentType = ''application/json'', hr_Body = JsonBody j\<rparr>"

text \<open>\<open>http.Error\<close>, which \<open>http.NotFound\<close> calls.\<close>

definition httpError :: "string \<Rightarrow> int \<Rightarrow> http_reply" where
  "httpError msg code =
     \<lparr>hr_Status = code, hr_ContentType = ''text/plain; charset=utf-8'', hr_Body = TextBody (msg @ [CHR 0x0A])\<rparr>"

definition serveHTTP :: "pool_call \<Rightarrow> http_request \<Rightarrow> pstate \<Rightarrow> (http_reply \<times> pstate) exec" where
  "serveHTTP pc r p =
     (if hq_Path r \<noteq> ''/run'' then Returns (httpError ''404 page not found'' 404, p)
      else if hq_Method r \<noteq> ''POST'' then Returns (httpError ''method not allowed'' 405, p)
      else case decodeRequest (hq_Body r) of
          Inl e \<Rightarrow> Returns (writeJSON 400 (responseToJson (badRequest e)), p)
        | Inr req \<Rightarrow>
            (case handleRun pc req p of
               Blocks \<Rightarrow> Blocks
             | Panics \<Rightarrow> Panics
             | Returns (resp, p') \<Rightarrow> Returns (writeJSON 200 (responseToJson resp), p')))"

section \<open>The unix socket\<close>

datatype conn_event = ConnDeadline int | ConnDecode | ConnEncode json | ConnClose

definition handleConn :: "pool_call \<Rightarrow> gerror + json \<Rightarrow> pstate \<Rightarrow> (conn_event list \<times> pstate) exec" where
  "handleConn pc b p =
     (let start = [ConnDeadline (10 * Minute), ConnDecode] in
      (case decodeRequest b of
         Inl e \<Rightarrow> Returns (start @ [ConnEncode (responseToJson (badRequest e)), ConnClose], p)
       | Inr req \<Rightarrow>
           (case handleRun pc req p of
              Blocks \<Rightarrow> Blocks
            | Panics \<Rightarrow> Panics
            | Returns (resp, p') \<Rightarrow> Returns (start @ [ConnEncode (responseToJson resp), ConnClose], p'))))"

text \<open>
  The accept loop, over what \<open>Accept\<close> answers: the connections that are handed to a goroutine,
  and the error that ends the loop (none while it is still accepting).
\<close>

fun serveUnix :: "(gerror + 'c) list \<Rightarrow> 'c list \<times> gerror option" where
  "serveUnix [] = ([], None)"
| "serveUnix (Inl e # as) = ([], Some e)"
| "serveUnix (Inr c # as) = (case serveUnix as of (cs, r) \<Rightarrow> (c # cs, r))"

section \<open>Lemmas\<close>

lemma handleRun_early:
  assumes "rq_Cmd req = [] \<or> requestLimit req = Inl msg"
  shows "\<exists>resp. handleRun pc req p = Returns (resp, p) \<and> resp = zeroResponse\<lparr>rs_Error := rs_Error resp\<rparr>
    \<and> rs_Error resp \<noteq> []"
  using assms
  by (auto simp: handleRun_def zeroResponse_def requestLimit_def split: if_splits sum.splits)

lemma handleRun_ran:
  assumes "handleRun pc req p = Returns (resp, p')" and "rq_Cmd req \<noteq> []" and "requestLimit req = Inr limit"
  obtains a out errOut res err where "pc limit (rq_Cmd req) (requestStdin req) = (a, out, errOut)"
    "poolRun a p = Returns ((res, err), p')"
    "resp = \<lparr>rs_ExitCode = r_ExitCode res, rs_Stdout = out, rs_Stderr = errOut,
             rs_TimedOut = r_TimedOut res, rs_OOMKilled = r_OOMKilled res,
             rs_Error = (case err of None \<Rightarrow> [] | Some e \<Rightarrow> errMsg e)\<rparr>"
  using assms that by (auto simp: handleRun_def split: prod.splits exec.splits)

lemma serveUnix_accepted:
  "serveUnix (map Inr cs @ Inl e # as) = (cs, Some e)"
  by (induction cs) simp_all

text \<open>A pool that was just made with one holder, and a call on it whose holder stays alive.\<close>

lemma start_run:
  assumes "a_check a = None"
  shows "\<exists>p'. poolRun a (startPool 1 1 0) = Returns (a_run a, p')"
proof -
  have "quiet (startPool 1 1 0)"
    unfolding startPool_def by (rule quiet_warmPool [of "\<lparr>c_Min = 1, c_Max = 1, c_IdleTimeout = 0\<rparr>"])
      (simp_all add: normalize_Inr)
  moreover have "p_idle (startPool 1 1 0) = [0]" by (simp add: startPool_def upt_rec)
  ultimately show ?thesis using quiet_run_warm(1) [of "startPool 1 1 0" 0 "[]" a] assms by blast
qed

lemma start_handleRun:
  assumes "rq_Cmd req \<noteq> []" and "requestLimit req = Inr limit"
    and "a_check (fst (pc limit (rq_Cmd req) (requestStdin req))) = None"
  shows "\<exists>resp p'. handleRun pc req (startPool 1 1 0) = Returns (resp, p')
    \<and> rs_ExitCode resp = r_ExitCode (fst (a_run (fst (pc limit (rq_Cmd req) (requestStdin req)))))"
proof -
  obtain a out errOut where pc: "pc limit (rq_Cmd req) (requestStdin req) = (a, out, errOut)"
    by (metis prod.exhaust)
  obtain res err where "a_run a = (res, err)" by fastforce
  then show ?thesis using start_run [of a] assms pc by (auto simp: handleRun_def)
qed

text \<open>A backend whose workload prints its command and ends with status 3.\<close>

definition echoCall :: pool_call where
  "echoCall limit cmd stdin =
     (\<lparr>a_newImpl = None, a_ctxEnd = None, a_run = (zeroResult\<lparr>r_ExitCode := 3\<rparr>, None), a_check = None\<rparr>,
      concat cmd, [CHR 0xFF])"

lemma echo_handleRun:
  assumes "rq_Cmd req \<noteq> []" and "requestLimit req = Inr limit"
  shows "\<exists>p'. handleRun echoCall req (startPool 1 1 0)
    = Returns (zeroResponse\<lparr>rs_ExitCode := 3, rs_Stdout := concat (rq_Cmd req), rs_Stderr := [CHR 0xFF]\<rparr>, p')"
proof -
  have "\<exists>p'. poolRun (fst (echoCall limit (rq_Cmd req) (requestStdin req))) (startPool 1 1 0)
      = Returns ((zeroResult\<lparr>r_ExitCode := 3\<rparr>, None), p')"
    using start_run [of "fst (echoCall limit (rq_Cmd req) (requestStdin req))"] by (simp add: echoCall_def)
  then show ?thesis using assms
    by (auto simp: handleRun_def echoCall_def zeroResult_def zeroResponse_def)
qed

section \<open>Properties\<close>

text \<open>How a decoded request is answered.\<close>

definition answersRun :: "pool_call \<Rightarrow> run_request \<Rightarrow> pstate \<Rightarrow> run_response \<Rightarrow> pstate \<Rightarrow> bool" where
  "answersRun pc req p resp p' \<longleftrightarrow>
     (case requestLimit req of
        Inl msg \<Rightarrow> p' = p \<and> rs_Error resp \<noteq> []
      | Inr limit \<Rightarrow>
          if rq_Cmd req = [] then p' = p \<and> rs_Error resp = ''empty command''
          else \<exists>out. poolRun (fst (pc limit (rq_Cmd req) (requestStdin req))) p = Returns (out, p')
            \<and> rs_ExitCode resp = r_ExitCode (fst out) \<and> rs_TimedOut resp = r_TimedOut (fst out)
            \<and> rs_Stdout resp = fst (snd (pc limit (rq_Cmd req) (requestStdin req)))
            \<and> rs_Error resp = (case snd out of None \<Rightarrow> [] | Some e \<Rightarrow> errMsg e))"



end
