(* ===== verification/Client.thy ===== *)
theory Client
  imports Server
begin

text \<open>
  The client of the daemon, \<open>pkg/sandbox/client.go\<close>. The network is a parameter: whether a dial,
  a send or a request succeeds, and the value that is read back from what was sent.
  \<open>json.Marshal\<close> cannot fail on a \<open>RunRequest\<close>, so its error branch has no counterpart.
\<close>

datatype client_event =
    DialUnix string
  | SetDeadline int
  | SendJson json
  | ReceiveJson
  | CloseConn
  | NewRequest string string
  | DoRequest
  | CloseBody

record client_env =
  ce_ctxDeadline :: "int option"
  ce_now :: int
  ce_dial :: "string \<Rightarrow> gerror option"
  ce_send :: "json \<Rightarrow> gerror option"
  ce_receive :: "json \<Rightarrow> gerror + json"
  ce_newRequest :: "string \<Rightarrow> gerror option"
  ce_do :: "string \<Rightarrow> json \<Rightarrow> gerror option"
  ce_reply :: "string \<Rightarrow> json \<Rightarrow> gerror + json"

type_synonym submitted = "(run_response \<times> gerror option) \<times> client_event list"

definition submitFail :: "string \<Rightarrow> gerror \<Rightarrow> run_response \<times> gerror option" where
  "submitFail msg e = (zeroResponse, Some (Wrap msg e))"

text \<open>\<open>json.NewDecoder(..).Decode(&rr)\<close> and what both transports make of it.\<close>

definition decodeResponse :: "gerror + json \<Rightarrow> run_response \<times> gerror option" where
  "decodeResponse b =
     (case (case b of Inl e \<Rightarrow> Inl e | Inr j \<Rightarrow> responseFromJson j) of
        Inl e \<Rightarrow> submitFail ''submit: decode: '' e
      | Inr rr \<Rightarrow> (rr, None))"

definition runURL :: "string \<Rightarrow> string" where
  "runURL base = trimRight base CHR ''/'' @ ''/run''"

definition submitHTTP :: "client_env \<Rightarrow> string \<Rightarrow> run_request \<Rightarrow> submitted" where
  "submitHTTP env base req =
     (let url = runURL base; body = requestToJson req; l1 = [NewRequest ''POST'' url] in
      (case ce_newRequest env url of
         Some e \<Rightarrow> (submitFail ''submit: request: '' e, l1)
       | None \<Rightarrow>
           let l2 = l1 @ [SendJson body, DoRequest] in
           (case ce_do env url body of
              Some e \<Rightarrow> (submitFail ''submit: '' e, l2)
            | None \<Rightarrow> (decodeResponse (ce_reply env url body), l2 @ [ReceiveJson, CloseBody]))))"

definition submitUnix :: "client_env \<Rightarrow> string \<Rightarrow> run_request \<Rightarrow> submitted" where
  "submitUnix env path req =
     (let l1 = [DialUnix path] in
      (case ce_dial env path of
         Some e \<Rightarrow> (submitFail (''submit: dial '' @ path @ '': '') e, l1)
       | None \<Rightarrow>
           let dl = (case ce_ctxDeadline env of Some t \<Rightarrow> t | None \<Rightarrow> ce_now env + 10 * Minute);
               body = requestToJson req;
               l2 = l1 @ [SetDeadline dl, SendJson body] in
           (case ce_send env body of
              Some e \<Rightarrow> (submitFail ''submit: encode: '' e, l2 @ [CloseConn])
            | None \<Rightarrow> (decodeResponse (ce_receive env body), l2 @ [ReceiveJson, CloseConn]))))"

definition submit :: "client_env \<Rightarrow> string \<Rightarrow> run_request \<Rightarrow> submitted" where
  "submit env endpoint req =
     (if hasPrefix endpoint ''unix://'' then submitUnix env (trimPrefix endpoint ''unix://'') req
      else if hasPrefix endpoint ''http://'' \<or> hasPrefix endpoint ''https://'' then submitHTTP env endpoint req
      else ((zeroResponse, Some (Errorf (''submit: endpoint '' @ goQuote endpoint
              @ '' must start with unix:// or http://''))), []))"

section \<open>A daemon at the other end\<close>

text \<open>The value that a served connection carries back.\<close>

definition encoded :: "conn_event list \<Rightarrow> json list" where
  "encoded evs = concat (map (\<lambda>e. case e of ConnEncode j \<Rightarrow> [j] | _ \<Rightarrow> []) evs)"

lemma handleConn_served:
  assumes "handleConn pc (Inr (requestToJson req)) p = Returns (evs, p')"
  obtains resp where "handleRun pc (wireRequest req) p = Returns (resp, p')"
    "encoded evs = [responseToJson resp]"
  using assms that
  by (auto simp: handleConn_def decodeRequest_def request_roundtrip encoded_def Let_def split: exec.splits)

lemma decodeResponse_encoded:
  assumes "- (2 ^ 63) \<le> rs_ExitCode resp" and "rs_ExitCode resp < 2 ^ 63"
  shows "decodeResponse (Inr (responseToJson resp)) = (wireResponse resp, None)"
  using assms by (simp add: decodeResponse_def response_roundtrip)

lemma submit_unix [simp]: "submit env (''unix://'' @ path) req = submitUnix env path req"
proof -
  have "hasPrefix (''unix://'' @ path) ''unix://''" by (rule hasPrefix_append)
  moreover have "trimPrefix (''unix://'' @ path) ''unix://'' = path" by (rule trimPrefix_append)
  ultimately show ?thesis by (simp add: submit_def)
qed

text \<open>
  The client of a daemon that serves the pool \<open>p\<close> over both transports. \<open>txt\<close> is what the JSON
  decoder makes of a text body. The path of a URL is what follows its host.
\<close>

definition urlPath :: "string \<Rightarrow> string" where
  "urlPath url = dropWhile (\<lambda>c. c \<noteq> CHR ''/'') (drop (if hasPrefix url ''https://'' then 8 else 7) url)"

definition wired :: "pool_call \<Rightarrow> pstate \<Rightarrow> (string \<Rightarrow> gerror + json) \<Rightarrow> client_env" where
  "wired pc p txt =
     \<lparr>ce_ctxDeadline = None, ce_now = 0, ce_dial = \<lambda>_. None, ce_send = \<lambda>_. None,
      ce_receive = (\<lambda>j. case handleConn pc (Inr j) p of
          Returns (evs, _) \<Rightarrow> (case encoded evs of [] \<Rightarrow> Inl EOF | j' # _ \<Rightarrow> Inr j')
        | _ \<Rightarrow> Inl EOF),
      ce_newRequest = \<lambda>_. None, ce_do = \<lambda>_ _. None,
      ce_reply = (\<lambda>url j. case serveHTTP pc \<lparr>hq_Path = urlPath url, hq_Method = ''POST'', hq_Body = Inr j\<rparr> p of
          Returns (r, _) \<Rightarrow> (case hr_Body r of TextBody t \<Rightarrow> txt t | JsonBody j' \<Rightarrow> Inr j')
        | _ \<Rightarrow> Inl EOF)\<rparr>"

section \<open>Properties\<close>

lemma runURL_host: "CHR ''/'' \<notin> set h \<Longrightarrow> h \<noteq> [] \<Longrightarrow> runURL (''http://'' @ h) = ''http://'' @ h @ ''/run''"
proof -
  assume h: "CHR ''/'' \<notin> set h" "h \<noteq> []"
  obtain x t where x: "rev h = x # t" using h(2) by (cases "rev h") auto
  then have "x \<noteq> CHR ''/''" using h(1) by (metis list.set_intros(1) set_rev)
  then have "dropWhile (\<lambda>c. c = CHR ''/'') (rev (''http://'' @ h)) = rev (''http://'' @ h)"
    using x by simp
  then show ?thesis by (simp add: runURL_def trimRight_def)
qed

lemma urlPath_run: "CHR ''/'' \<notin> set h \<Longrightarrow> urlPath (''http://'' @ h @ ''/run'') = ''/run''"
  by (auto simp: urlPath_def hasPrefix_def dropWhile_append)



text \<open>
  C23. The client fails closed: an endpoint without one of the three schemes is an error and
  reaches no network at all; a socket is dialled only for \<open>unix://\<close>, gets a deadline before the
  request is sent and is closed on every path; the other two schemes make one POST to the
  run URL, whose body is closed; a response is returned without an error only after one was
  received.
\<close>

theorem submit_fails_closed:
  assumes "submit env ep req = (r, evs)"
  shows "(\<not> hasPrefix ep ''unix://'' \<and> \<not> hasPrefix ep ''http://'' \<and> \<not> hasPrefix ep ''https://'' \<longrightarrow>
      evs = [] \<and> fst r = zeroResponse \<and> snd r \<noteq> None)
    \<and> (\<forall>p. ep = ''unix://'' @ p \<longrightarrow> (\<exists>t. evs \<in> {[DialUnix p],
          [DialUnix p, SetDeadline t, SendJson (requestToJson req), CloseConn],
          [DialUnix p, SetDeadline t, SendJson (requestToJson req), ReceiveJson, CloseConn]})
        \<and> (evs = [DialUnix p] \<longleftrightarrow> ce_dial env p \<noteq> None))
    \<and> (hasPrefix ep ''http://'' \<or> hasPrefix ep ''https://'' \<longrightarrow>
        evs \<in> {[NewRequest ''POST'' (runURL ep)],
          [NewRequest ''POST'' (runURL ep), SendJson (requestToJson req), DoRequest],
          [NewRequest ''POST'' (runURL ep), SendJson (requestToJson req), DoRequest, ReceiveJson, CloseBody]})
    \<and> (snd r = None \<longrightarrow> ReceiveJson \<in> set evs)"
proof -
  have u: "(\<exists>t. evs \<in> {[DialUnix p], [DialUnix p, SetDeadline t, SendJson (requestToJson req), CloseConn],
          [DialUnix p, SetDeadline t, SendJson (requestToJson req), ReceiveJson, CloseConn]})
      \<and> (evs = [DialUnix p] \<longleftrightarrow> ce_dial env p \<noteq> None) \<and> (snd r = None \<longrightarrow> ReceiveJson \<in> set evs)"
    if "submitUnix env p req = (r, evs)" for p
    using that by (auto simp: submitUnix_def submitFail_def Let_def split: option.splits)
  have h: "evs \<in> {[NewRequest ''POST'' (runURL ep)],
          [NewRequest ''POST'' (runURL ep), SendJson (requestToJson req), DoRequest],
          [NewRequest ''POST'' (runURL ep), SendJson (requestToJson req), DoRequest, ReceiveJson, CloseBody]}
      \<and> (snd r = None \<longrightarrow> ReceiveJson \<in> set evs)"
    if "submitHTTP env ep req = (r, evs)"
    using that by (auto simp: submitHTTP_def submitFail_def Let_def split: option.splits)
  show ?thesis
  proof (cases "hasPrefix ep ''unix://''")
    case True
    then obtain p where ep: "ep = ''unix://'' @ p" unfolding hasPrefix_iff by blast
    have "\<not> hasPrefix ep ''http://''" "\<not> hasPrefix ep ''https://''" by (simp_all add: ep hasPrefix_def)
    moreover have "submitUnix env p req = (r, evs)" using assms ep submit_unix by simp
    ultimately show ?thesis using u [of p] True ep by auto
  next
    case False
    then have "ep \<noteq> ''unix://'' @ p" for p using hasPrefix_append by metis
    then show ?thesis using False assms h by (auto simp: submit_def split: if_splits)
  qed
qed

theorem submit_fails_closed_witness:
  "\<exists>r. submit (wired echoCall (startPool 1 1 0) (\<lambda>_. Inl EOF)) ''/run/s'' zeroRequest = (r, []) \<and> snd r \<noteq> None"
proof -
  obtain r evs where r: "submit (wired echoCall (startPool 1 1 0) (\<lambda>_. Inl EOF)) ''/run/s'' zeroRequest = (r, evs)"
    by fastforce
  from submit_fails_closed [OF this] have "evs = []" "snd r \<noteq> None" by (simp_all add: hasPrefix_def)
  then show ?thesis using r by blast
qed

end
