(* ===== verification/Cli.thy ===== *)
theory Cli
  imports Client
begin

text \<open>
  The command line, \<open>cmd/sandbox/opts.go\<close> and \<open>cmd/sandbox/main.go\<close>: the flags that configure a
  sandbox, the choice of a subcommand, and \<open>run\<close>, locally or through a daemon. The text of the
  command line is parsed by the package \<open>flag\<close>; the model starts from the values it stores.
\<close>

section \<open>The sandbox flags\<close>

record sandbox_flags =
  sf_image :: string
  sf_timeout :: int
  sf_netwait :: int
  sf_mem :: int64
  sf_cpus :: rat
  sf_user :: string
  sf_backend :: string
  sf_runtime :: string
  sf_vols :: "string list"
  sf_envs :: "string list"

definition registerSandboxFlags :: sandbox_flags where
  "registerSandboxFlags =
     \<lparr>sf_image = ''docker.io/library/alpine:latest'', sf_timeout = 30 * Second, sf_netwait = 0,
      sf_mem = 256, sf_cpus = 1, sf_user = ''65534:65534'', sf_backend = ''auto'', sf_runtime = [],
      sf_vols = [], sf_envs = []\<rparr>"

definition multiFlagSet :: "string \<Rightarrow> string list \<Rightarrow> string list" where
  "multiFlagSet v m = m @ [v]"

definition multiFlagString :: "string list \<Rightarrow> string" where
  "multiFlagString m = joinWith '','' m"

text \<open>One \<open>-v\<close>: two absolute paths; whatever mode follows them is replaced.\<close>

definition bindOf :: "string \<Rightarrow> gerror + string" where
  "bindOf v =
     (let parts = splitN v CHR '':'' 3 in
      if length parts < 2 \<or> \<not> hasPrefix (parts ! 0) ''/'' \<or> \<not> hasPrefix (parts ! 1) ''/''
      then Inl (Errorf (''bad -v '' @ goQuote v @ '': want /abs/host/path:/abs/container/path''))
      else Inr (parts ! 0 @ '':'' @ parts ! 1 @ '':ro''))"

fun bindsOf :: "string list \<Rightarrow> gerror + string list" where
  "bindsOf [] = Inr []"
| "bindsOf (v # vs) =
     (case bindOf v of
        Inl e \<Rightarrow> Inl e
      | Inr b \<Rightarrow> (case bindsOf vs of Inl e \<Rightarrow> Inl e | Inr bs \<Rightarrow> Inr (b # bs)))"

definition envError :: "string list \<Rightarrow> gerror option" where
  "envError es =
     (case find (\<lambda>e. \<not> contains e ''='') es of
        None \<Rightarrow> None
      | Some e \<Rightarrow> Some (Errorf (''bad -env '' @ goQuote e @ '': want KEY=VAL'')))"

definition buildOpts :: "sandbox_flags \<Rightarrow> string list \<Rightarrow> bool \<Rightarrow> gerror + opts" where
  "buildOpts sf cmd withStdin =
     (case bindsOf (sf_vols sf) of
        Inl e \<Rightarrow> Inl e
      | Inr binds \<Rightarrow>
          (case envError (sf_envs sf) of
             Some e \<Rightarrow> Inl e
           | None \<Rightarrow>
               Inr \<lparr>o_Image = sf_image sf, o_Cmd = cmd, o_Timeout = sf_timeout sf,
                    o_NetWait = sf_netwait sf, o_MemMB = sf_mem sf, o_CPUs = sf_cpus sf,
                    o_User = sf_user sf, o_Runtime = sf_runtime sf, o_Binds = binds,
                    o_Env = sf_envs sf, o_WithStdin = withStdin, o_Backend = sf_backend sf\<rparr>))"

section \<open>A process\<close>

text \<open>What a command writes, and the status it exits with. \<open>Line\<close> is a text with a line end.\<close>

datatype chunk = Bytes string | Line string | Encoded json

record proc =
  pr_Stdout :: "chunk list"
  pr_Stderr :: "chunk list"
  pr_Code :: int

text \<open>\<open>main\<close> on \<open>os.Args\<close>.\<close>

datatype command =
  CmdVersion | CmdBench "string list" | CmdServe "string list" | CmdMcp "string list" | CmdRun "string list" | CmdUsage

definition mainDispatch :: "string list \<Rightarrow> command" where
  "mainDispatch args =
     (if 2 \<le> length args \<and> args ! 1 = ''version'' then CmdVersion
      else if 2 \<le> length args \<and> args ! 1 = ''bench'' then CmdBench (drop 2 args)
      else if 2 \<le> length args \<and> args ! 1 = ''serve'' then CmdServe (drop 2 args)
      else if 2 \<le> length args \<and> args ! 1 = ''mcp'' then CmdMcp (drop 2 args)
      else if length args < 2 \<or> args ! 1 \<noteq> ''run'' then CmdUsage
      else CmdRun (drop 2 args))"

definition usageProc :: proc where
  "usageProc = \<lparr>pr_Stdout = [],
     pr_Stderr = [Line (''usage: sandbox run [flags] -- <command...> | sandbox serve [flags] | ''
                        @ ''sandbox mcp [flags] | sandbox version'')],
     pr_Code = 2\<rparr>"

section \<open>run\<close>

text \<open>The JSON form of a \<open>Result\<close>; the captured output is text here, not base64.\<close>

definition resultToJson :: "result \<Rightarrow> json" where
  "resultToJson r =
     JObj ([(''exit_code'', jInt (r_ExitCode r)), (''stdout'', jStr (r_Stdout r)),
            (''stderr'', jStr (r_Stderr r)), (''duration_ms'', jInt (r_DurationMS r)),
            (''oom_killed'', JBool (r_OOMKilled r)), (''timed_out'', JBool (r_TimedOut r))]
       @ omitEmpty (r_Error r = []) ''error'' (jStr (r_Error r)))"

text \<open>
  The world of a command: the outcome of \<open>sandbox.Run\<close> with the bytes it streams to the two
  writers, the content of the standard input, the daemon, and whether stdout takes a value.
\<close>

record cli_env =
  ci_run :: "opts \<Rightarrow> bool \<Rightarrow> outcome \<times> string \<times> string"
  ci_stdin :: "gerror + string"
  ci_client :: client_env
  ci_encode :: "json \<Rightarrow> gerror option"

definition encodeProc :: "cli_env \<Rightarrow> result \<Rightarrow> int \<Rightarrow> proc" where
  "encodeProc ci res code =
     (case ci_encode ci (resultToJson res) of
        None \<Rightarrow> \<lparr>pr_Stdout = [Encoded (resultToJson res)], pr_Stderr = [], pr_Code = code\<rparr>
      | Some e \<Rightarrow> \<lparr>pr_Stdout = [], pr_Stderr = [Line (''sandbox: encoding result: '' @ errMsg e)], pr_Code = code\<rparr>)"

definition runViaDaemon :: "cli_env \<Rightarrow> string \<Rightarrow> string list \<Rightarrow> bool \<Rightarrow> bool \<Rightarrow> proc" where
  "runViaDaemon ci endpoint cmd withStdin asJSON =
     (case (if withStdin then ci_stdin ci else Inr []) of
        Inl e \<Rightarrow> \<lparr>pr_Stdout = [], pr_Stderr = [Line (''sandbox: reading stdin: '' @ errMsg e)], pr_Code = 125\<rparr>
      | Inr data \<Rightarrow>
          (case fst (submit (ci_client ci) endpoint (zeroRequest\<lparr>rq_Cmd := cmd, rq_Stdin := data\<rparr>)) of
             (_, Some e) \<Rightarrow> \<lparr>pr_Stdout = [], pr_Stderr = [Line (''sandbox: '' @ errMsg e)], pr_Code = 125\<rparr>
           | (resp, None) \<Rightarrow>
               if asJSON
               then encodeProc ci
                      (zeroResult\<lparr>r_ExitCode := rs_ExitCode resp, r_Stdout := rs_Stdout resp,
                         r_Stderr := rs_Stderr resp, r_TimedOut := rs_TimedOut resp,
                         r_OOMKilled := rs_OOMKilled resp, r_Error := rs_Error resp\<rparr>)
                      (if rs_Error resp \<noteq> [] then 125 else 0)
               else if rs_Error resp \<noteq> []
               then \<lparr>pr_Stdout = [Bytes (rs_Stdout resp)],
                     pr_Stderr = [Bytes (rs_Stderr resp), Line (''sandbox: '' @ rs_Error resp)], pr_Code = 125\<rparr>
               else \<lparr>pr_Stdout = [Bytes (rs_Stdout resp)], pr_Stderr = [Bytes (rs_Stderr resp)],
                     pr_Code = rs_ExitCode resp\<rparr>))"

definition runLocal :: "cli_env \<Rightarrow> opts \<Rightarrow> bool \<Rightarrow> proc" where
  "runLocal ci o' asJSON =
     (case ci_run ci o' (o_WithStdin o') of
        ((res, err), out, errOut) \<Rightarrow>
          if asJSON
          then encodeProc ci
                 (res\<lparr>r_Stdout := out, r_Stderr := errOut,
                      r_Error := (case err of None \<Rightarrow> r_Error res | Some e \<Rightarrow> errMsg e)\<rparr>)
                 (if err \<noteq> None then 125 else 0)
          else (case err of
                  Some e \<Rightarrow> \<lparr>pr_Stdout = [Bytes out], pr_Stderr = [Bytes errOut, Line (''sandbox: '' @ errMsg e)], pr_Code = 125\<rparr>
                | None \<Rightarrow> \<lparr>pr_Stdout = [Bytes out], pr_Stderr = [Bytes errOut], pr_Code = r_ExitCode res\<rparr>))"

text \<open>The flags of \<open>run\<close> and the arguments after them.\<close>

definition mainRun :: "cli_env \<Rightarrow> sandbox_flags \<Rightarrow> bool \<Rightarrow> bool \<Rightarrow> string \<Rightarrow> string list \<Rightarrow> proc" where
  "mainRun ci sf stdinFlag jsonFlag via cmd =
     (if cmd = [] then \<lparr>pr_Stdout = [], pr_Stderr = [Line ''no command given after flags''], pr_Code = 2\<rparr>
      else if via \<noteq> [] then runViaDaemon ci via cmd stdinFlag jsonFlag
      else case buildOpts sf cmd stdinFlag of
          Inl e \<Rightarrow> \<lparr>pr_Stdout = [], pr_Stderr = [Line (errMsg e)], pr_Code = 2\<rparr>
        | Inr o' \<Rightarrow> runLocal ci o' jsonFlag)"

section \<open>Properties\<close>

lemma splitN3_pieces:
  assumes "2 \<le> length (splitN v c 3)"
  shows "c \<notin> set (splitN v c 3 ! 0)" "c \<notin> set (splitN v c 3 ! 1)"
    "\<exists>t. v = splitN v c 3 ! 0 @ c # splitN v c 3 ! 1 @ t"
proof -
  have c: "c \<in> set v" using assms by (auto simp: numeral_3_eq_3 split: if_splits)
  define w where "w = tl (dropWhile (\<lambda>x. x \<noteq> c) v)"
  have v: "v = takeWhile (\<lambda>x. x \<noteq> c) v @ c # w"
    using c w_def by (metis (mono_tags, lifting) dropWhile_eq_Nil_conv hd_dropWhile list.collapse takeWhile_dropWhile_id)
  have s: "splitN v c 3 = takeWhile (\<lambda>x. x \<noteq> c) v # splitN w c 2"
    using c by (simp add: numeral_3_eq_3 numeral_2_eq_2 w_def)
  have w1: "splitN w c 2 ! 0 = takeWhile (\<lambda>x. x \<noteq> c) w"
  proof (cases "c \<in> set w")
    case False
    then have "takeWhile (\<lambda>x. x \<noteq> c) w = w" by (auto simp: takeWhile_eq_all_conv)
    then show ?thesis using False by (simp add: numeral_2_eq_2 del: takeWhile_eq_all_conv)
  qed (simp add: numeral_2_eq_2)
  then obtain t where t: "w = splitN w c 2 ! 0 @ t" by (metis takeWhile_dropWhile_id)
  show "c \<notin> set (splitN v c 3 ! 0)" "c \<notin> set (splitN v c 3 ! 1)"
    using s w1 by simp_all
  have "v = splitN v c 3 ! 0 @ c # splitN v c 3 ! 1 @ t" using s v t by simp
  then show "\<exists>t. v = splitN v c 3 ! 0 @ c # splitN v c 3 ! 1 @ t" by (rule exI)
qed

text \<open>A bind that is passed on is the two paths that the flag names, and read-only.\<close>

definition readOnlyBind :: "string \<Rightarrow> string \<Rightarrow> bool" where
  "readOnlyBind v b \<longleftrightarrow> (\<exists>h c t. b = h @ '':'' @ c @ '':ro'' \<and> v = h @ '':'' @ c @ t
     \<and> hasPrefix h ''/'' \<and> hasPrefix c ''/'' \<and> CHR '':'' \<notin> set h \<and> CHR '':'' \<notin> set c)"

lemma bindOf_readOnly: "bindOf v = Inr b \<Longrightarrow> readOnlyBind v b"
proof -
  assume b: "bindOf v = Inr b"
  let ?p = "splitN v CHR '':'' 3"
  have p: "2 \<le> length ?p" "hasPrefix (?p ! 0) ''/''" "hasPrefix (?p ! 1) ''/''"
    "b = ?p ! 0 @ '':'' @ ?p ! 1 @ '':ro''"
    using b by (auto simp: bindOf_def Let_def split: if_splits)
  obtain t where "v = ?p ! 0 @ CHR '':'' # ?p ! 1 @ t" using splitN3_pieces(3) [OF p(1)] by blast
  then show ?thesis using p splitN3_pieces(1,2) [OF p(1)]
    unfolding readOnlyBind_def by (intro exI [of _ "?p ! 0"] exI [of _ "?p ! 1"] exI [of _ t]) simp
qed

lemma bindsOf_readOnly: "bindsOf vs = Inr bs \<Longrightarrow> list_all2 readOnlyBind vs bs"
  by (induction vs arbitrary: bs) (auto simp: bindOf_readOnly split: sum.splits)

lemma bindsOf_error: "bindsOf vs = Inl e \<Longrightarrow> \<exists>v \<in> set vs. bindOf v = Inl e"
  by (induction vs) (auto split: sum.splits)

lemma envError_None: "envError es = None \<longleftrightarrow> (\<forall>e \<in> set es. \<exists>k v. e = k @ ''='' @ v)"
proof -
  have "envError es = None \<longleftrightarrow> find (\<lambda>e. \<not> contains e ''='') es = None"
    by (simp add: envError_def split: option.split)
  also have "\<dots> \<longleftrightarrow> (\<forall>e \<in> set es. contains e ''='')" by (auto simp: find_None_iff)
  finally show ?thesis by (simp add: contains_iff)
qed

text \<open>
  C24. The options that the command line builds: every mount is absolute on both sides and
  read-only whatever mode was asked for, every environment entry has a key, and nothing else
  is changed; options are refused exactly for a malformed mount or entry.
\<close>

theorem built_options_well_formed:
  "case buildOpts sf cmd withStdin of
     Inr o' \<Rightarrow> list_all2 readOnlyBind (sf_vols sf) (o_Binds o')
       \<and> (\<forall>e \<in> set (o_Env o'). \<exists>k v. e = k @ ''='' @ v)
       \<and> o_Env o' = sf_envs sf \<and> o_Cmd o' = cmd \<and> o_User o' = sf_user sf \<and> o_WithStdin o' = withStdin
   | Inl e \<Rightarrow> (\<exists>v \<in> set (sf_vols sf). bindOf v = Inl e) \<or> (\<exists>x \<in> set (sf_envs sf). \<not> contains x ''='')"
proof (cases "bindsOf (sf_vols sf)")
  case (Inl e)
  then show ?thesis using bindsOf_error [OF Inl] by (simp add: buildOpts_def)
next
  case (Inr bs)
  show ?thesis
  proof (cases "envError (sf_envs sf)")
    case None
    then show ?thesis using Inr bindsOf_readOnly [OF Inr] envError_None [of "sf_envs sf"]
      by (simp add: buildOpts_def)
  next
    case (Some e)
    then have "\<exists>x \<in> set (sf_envs sf). \<not> contains x ''=''"
      by (auto simp: envError_def find_Some_iff split: option.splits dest: nth_mem)
    then show ?thesis using Some Inr by (simp add: buildOpts_def)
  qed
qed

theorem built_options_well_formed_witness:
  "\<exists>o'. buildOpts (registerSandboxFlags\<lparr>sf_vols := [''/a:/b:rw'']\<rparr>) [''true''] False = Inr o'
     \<and> o_Binds o' = [''/a:/b:ro''] \<and> list_all2 readOnlyBind [''/a:/b:rw''] (o_Binds o')"
proof -
  let ?sf = "registerSandboxFlags\<lparr>sf_vols := [''/a:/b:rw'']\<rparr>"
  obtain o' where o': "buildOpts ?sf [''true''] False = Inr o'" "o_Binds o' = [''/a:/b:ro'']"
    by (simp add: buildOpts_def bindOf_def envError_def registerSandboxFlags_def hasPrefix_def numeral_3_eq_3 Let_def)
  then show ?thesis using built_options_well_formed [of ?sf "[''true'']" False]
    by (simp add: registerSandboxFlags_def)
qed

text \<open>The answer of a daemon whose backend ended a run like the local one.\<close>

definition responseOf :: "outcome \<Rightarrow> string \<Rightarrow> string \<Rightarrow> run_response" where
  "responseOf outc out errOut =
     \<lparr>rs_ExitCode = r_ExitCode (fst outc), rs_Stdout = out, rs_Stderr = errOut,
      rs_TimedOut = r_TimedOut (fst outc), rs_OOMKilled = r_OOMKilled (fst outc),
      rs_Error = (case snd outc of None \<Rightarrow> [] | Some e \<Rightarrow> errMsg e)\<rparr>"

text \<open>
  C25. A command run through a daemon looks like the same command run locally: when the daemon
  answers with what the local backend returned, \<open>run\<close> writes the same to stdout and stderr and
  exits with the same status. With JSON output the two differ in the duration only, which the
  daemon does not report.
\<close>

theorem daemon_run_looks_local:
  assumes "buildOpts sf cmd False = Inr o'" and "cmd \<noteq> []" and "via \<noteq> []"
    and "ci_run ci o' False = ((res, err), out, errOut)"
    and "fst (submit (ci_client ci) via (zeroRequest\<lparr>rq_Cmd := cmd\<rparr>)) = (responseOf (res, err) out errOut, None)"
    and "err \<noteq> None \<longrightarrow> errMsg (the err) \<noteq> []" and "r_Error res = []" and "ci_encode ci = (\<lambda>_. None)"
  shows "mainRun ci sf False False via cmd = mainRun ci sf False False [] cmd
    \<and> pr_Code (mainRun ci sf False True via cmd) = pr_Code (mainRun ci sf False True [] cmd)
    \<and> (\<exists>r. pr_Stdout (mainRun ci sf False True [] cmd) = [Encoded (resultToJson r)]
        \<and> pr_Stdout (mainRun ci sf False True via cmd) = [Encoded (resultToJson (r\<lparr>r_DurationMS := 0\<rparr>))])"
proof -
  have o': "o_WithStdin o' = False" using assms(1) by (auto simp: buildOpts_def split: sum.splits option.splits)
  have loc: "mainRun ci sf False j [] cmd = runLocal ci o' j" for j
    using assms(1,2) by (simp add: mainRun_def)
  have req: "zeroRequest\<lparr>rq_Cmd := cmd, rq_Stdin := []\<rparr> = zeroRequest\<lparr>rq_Cmd := cmd\<rparr>"
    by (simp add: zeroRequest_def)
  have rem: "mainRun ci sf False j via cmd = runViaDaemon ci via cmd False j" for j
    using assms(2,3) by (simp add: mainRun_def)
  let ?r = "res\<lparr>r_Stdout := out, r_Stderr := errOut, r_Error := (case err of None \<Rightarrow> [] | Some e \<Rightarrow> errMsg e)\<rparr>"
  have "mainRun ci sf False False via cmd = mainRun ci sf False False [] cmd"
    "pr_Code (mainRun ci sf False True via cmd) = pr_Code (mainRun ci sf False True [] cmd)"
    "pr_Stdout (mainRun ci sf False True [] cmd) = [Encoded (resultToJson ?r)]"
    "pr_Stdout (mainRun ci sf False True via cmd) = [Encoded (resultToJson (?r\<lparr>r_DurationMS := 0\<rparr>))]"
    using assms(4-8) o' req
    by (cases err; cases res;
        simp add: loc rem runLocal_def runViaDaemon_def responseOf_def encodeProc_def zeroResult_def)+
  then show ?thesis by blast
qed

text \<open>A machine whose backend and daemon both run out of memory.\<close>

definition oomOutcome :: outcome where
  "oomOutcome = (zeroResult\<lparr>r_ExitCode := 137, r_OOMKilled := True, r_DurationMS := 9\<rparr>, None)"

definition oomCli :: cli_env where
  "oomCli = \<lparr>ci_run = \<lambda>_ _. (oomOutcome, ''x'', []), ci_stdin = Inr [],
     ci_client = \<lparr>ce_ctxDeadline = None, ce_now = 0, ce_dial = \<lambda>_. None, ce_send = \<lambda>_. None,
       ce_receive = \<lambda>_. Inr (responseToJson (responseOf oomOutcome ''x'' [])),
       ce_newRequest = \<lambda>_. None, ce_do = \<lambda>_ _. None, ce_reply = \<lambda>_ _. Inl EOF\<rparr>,
     ci_encode = \<lambda>_. None\<rparr>"

theorem daemon_run_looks_local_witness:
  "mainRun oomCli registerSandboxFlags False False ''unix://s'' [''x'']
     = \<lparr>pr_Stdout = [Bytes ''x''], pr_Stderr = [Bytes []], pr_Code = 137\<rparr>"
proof -
  obtain o' where o': "buildOpts registerSandboxFlags [''x''] False = Inr o'"
    by (simp add: buildOpts_def envError_def registerSandboxFlags_def)
  have s: "fst (submit (ci_client oomCli) ''unix://s'' (zeroRequest\<lparr>rq_Cmd := [''x'']\<rparr>))
      = (responseOf oomOutcome ''x'' [], None)"
    using decodeResponse_encoded [of "responseOf oomOutcome ''x'' []"]
    by (simp add: submit_def hasPrefix_def submitUnix_def oomCli_def wireResponse_def responseOf_def oomOutcome_def Let_def)
  have "mainRun oomCli registerSandboxFlags False False ''unix://s'' [''x'']
      = mainRun oomCli registerSandboxFlags False False [] [''x'']"
    using daemon_run_looks_local [OF o', of "''unix://s''" oomCli "fst oomOutcome" "snd oomOutcome" "''x''" "[]"] s
    by (simp add: oomCli_def oomOutcome_def zeroResult_def)
  also have "\<dots> = \<lparr>pr_Stdout = [Bytes ''x''], pr_Stderr = [Bytes []], pr_Code = 137\<rparr>"
    using o' by (simp add: mainRun_def runLocal_def oomCli_def oomOutcome_def)
  finally show ?thesis .
qed

end
