(* ===== verification/Mcp.thy ===== *)
theory Mcp
  imports Cli
begin

text \<open>
  The subcommand \<open>mcp\<close>, \<open>cmd/sandbox/mcp.go\<close>: two tools over the pool or over one-shot runs.
  The SDK is a parameter: it delivers tool calls and ends the session.
\<close>

section \<open>The tools\<close>

record sandbox_executor =
  ex_base :: opts
  ex_pool :: "pstate option"

record run_sandbox_input =
  rsi_Cmd :: "string list"
  rsi_Stdin :: string
  rsi_Image :: string

record run_script_input =
  rci_Script :: string
  rci_Interpreter :: string
  rci_Image :: string

record run_output =
  ro_ExitCode :: int
  ro_Stdout :: string
  ro_Stderr :: string
  ro_TimedOut :: bool
  ro_OOMKilled :: bool

text \<open>A tool call answers with an error, or with a text and the structured output.\<close>

type_synonym tool_result = "gerror + (string \<times> run_output)"

type_synonym one_shot = "opts \<Rightarrow> string option \<Rightarrow> outcome \<times> string \<times> string"

definition showBool :: "bool \<Rightarrow> string" where
  "showBool b = (if b then ''true'' else ''false'')"

definition summaryOf :: "run_output \<Rightarrow> string" where
  "summaryOf out =
     ''exit='' @ showInt (ro_ExitCode out) @ '' timed_out='' @ showBool (ro_TimedOut out)
     @ '' oom_killed='' @ showBool (ro_OOMKilled out)
     @ [CHR 0x0A] @ ''--- stdout ---'' @ [CHR 0x0A] @ ro_Stdout out
     @ [CHR 0x0A] @ ''--- stderr ---'' @ [CHR 0x0A] @ ro_Stderr out"

text \<open>What a finished run is turned into.\<close>

definition toolOutput :: "outcome \<Rightarrow> string \<Rightarrow> string \<Rightarrow> tool_result" where
  "toolOutput outc out errOut =
     (case snd outc of
        Some e \<Rightarrow> Inl e
      | None \<Rightarrow>
          let ro = \<lparr>ro_ExitCode = r_ExitCode (fst outc), ro_Stdout = out, ro_Stderr = errOut,
                    ro_TimedOut = r_TimedOut (fst outc), ro_OOMKilled = r_OOMKilled (fst outc)\<rparr>
          in Inr (summaryOf ro, ro))"

definition execute :: "pool_call \<Rightarrow> one_shot \<Rightarrow> sandbox_executor \<Rightarrow> string list \<Rightarrow> string \<Rightarrow> string
    \<Rightarrow> (tool_result \<times> sandbox_executor) exec" where
  "execute pc run ex cmd stdin img =
     (let stdinReader = (if stdin \<noteq> [] then Some stdin else None) in
      (case ex_pool ex of
         Some p \<Rightarrow>
           if img \<noteq> [] \<and> img \<noteq> o_Image (ex_base ex)
           then Returns (Inl (Errorf (''image override is not supported in pooled mode (image is fixed at pool creation: ''
                    @ o_Image (ex_base ex) @ ''); restart with -image, or use one-shot mode'')), ex)
           else (case pc None cmd stdinReader of
                   (a, out, errOut) \<Rightarrow>
                     (case poolRun a p of
                        Blocks \<Rightarrow> Blocks
                      | Panics \<Rightarrow> Panics
                      | Returns (outc, p') \<Rightarrow> Returns (toolOutput outc out errOut, ex\<lparr>ex_pool := Some p'\<rparr>)))
       | None \<Rightarrow>
           let o' = (ex_base ex)\<lparr>o_Cmd := cmd, o_WithStdin := (stdinReader \<noteq> None)\<rparr>;
               o'' = (if img \<noteq> [] then o'\<lparr>o_Image := img\<rparr> else o')
           in (case run o'' stdinReader of
                 (outc, out, errOut) \<Rightarrow> Returns (toolOutput outc out errOut, ex))))"

definition runSandbox :: "pool_call \<Rightarrow> one_shot \<Rightarrow> sandbox_executor \<Rightarrow> run_sandbox_input
    \<Rightarrow> (tool_result \<times> sandbox_executor) exec" where
  "runSandbox pc run ex i =
     (if rsi_Cmd i = [] then Returns (Inl (Errorf ''cmd must not be empty''), ex)
      else execute pc run ex (rsi_Cmd i) (rsi_Stdin i) (rsi_Image i))"

definition runScript :: "pool_call \<Rightarrow> one_shot \<Rightarrow> sandbox_executor \<Rightarrow> run_script_input
    \<Rightarrow> (tool_result \<times> sandbox_executor) exec" where
  "runScript pc run ex i =
     (if trimSpace (rci_Script i) = [] then Returns (Inl (Errorf ''script must not be empty''), ex)
      else if trimSpace (rci_Interpreter i) = [] then Returns (Inl (Errorf ''interpreter must not be empty''), ex)
      else execute pc run ex [rci_Interpreter i, ''-''] (rci_Script i) (rci_Image i))"

text \<open>The registered tools, and a session: a list of calls on one executor.\<close>

datatype tool_call = RunSandbox run_sandbox_input | RunScript run_script_input

definition buildMCPServer :: "pool_call \<Rightarrow> one_shot \<Rightarrow> opts \<Rightarrow> pstate option
    \<Rightarrow> sandbox_executor \<times> (sandbox_executor \<Rightarrow> tool_call \<Rightarrow> (tool_result \<times> sandbox_executor) exec)" where
  "buildMCPServer pc run base pool =
     (\<lparr>ex_base = base, ex_pool = pool\<rparr>,
      \<lambda>ex c. case c of RunSandbox i \<Rightarrow> runSandbox pc run ex i | RunScript i \<Rightarrow> runScript pc run ex i)"

fun session :: "(sandbox_executor \<Rightarrow> tool_call \<Rightarrow> (tool_result \<times> sandbox_executor) exec) \<Rightarrow> tool_call list
    \<Rightarrow> sandbox_executor \<Rightarrow> (tool_result list \<times> sandbox_executor) exec" where
  "session serve [] ex = Returns ([], ex)"
| "session serve (c # cs) ex =
     (case serve ex c of
        Blocks \<Rightarrow> Blocks
      | Panics \<Rightarrow> Panics
      | Returns (r, ex') \<Rightarrow>
          (case session serve cs ex' of
             Blocks \<Rightarrow> Blocks | Panics \<Rightarrow> Panics | Returns (rs, ex'') \<Rightarrow> Returns (r # rs, ex'')))"

section \<open>runMCP\<close>

record mcp_flags =
  mf_sandbox :: sandbox_flags
  mf_pool :: bool
  mf_min :: int
  mf_max :: int
  mf_idle :: int

definition mcpDefaults :: mcp_flags where
  "mcpDefaults = \<lparr>mf_sandbox = registerSandboxFlags, mf_pool = False, mf_min = 1, mf_max = 4,
     mf_idle = 5 * Minute\<rparr>"

datatype mcp_event = McpErr string | McpMakePool opts pool_config | McpServe opts bool | McpClosePool

text \<open>The status of a session that ended with an error or without, on a signal or not.\<close>

definition sessionCode :: "gerror option \<Rightarrow> bool \<Rightarrow> int \<times> mcp_event list" where
  "sessionCode err signaled =
     (case err of
        None \<Rightarrow> (0, [])
      | Some e \<Rightarrow>
          if signaled \<or> errorsIs e EOF then (0, [])
          else if contains (errMsg e) ''server is closing'' \<or> contains (errMsg e) ''connection closed'' then (0, [])
          else (1, [McpErr (''mcp: '' @ errMsg e)]))"

definition runMCP :: "gerror option \<Rightarrow> gerror option \<Rightarrow> bool \<Rightarrow> mcp_flags \<Rightarrow> int \<times> mcp_event list" where
  "runMCP newPoolErr sessionErr signaled f =
     (case buildOpts (mf_sandbox f) [] False of
        Inl e \<Rightarrow> (2, [McpErr (''mcp: '' @ errMsg e)])
      | Inr o' \<Rightarrow>
          let made = [McpMakePool o' \<lparr>c_Min = mf_min f, c_Max = mf_max f, c_IdleTimeout = mf_idle f\<rparr>];
              rest = (case sessionCode sessionErr signaled of (code, l) \<Rightarrow> (code, McpServe o' (mf_pool f) # l))
          in if mf_pool f
             then (case newPoolErr of
                     Some e \<Rightarrow> (1, made @ [McpErr (''mcp: creating pool: '' @ errMsg e)])
                   | None \<Rightarrow> (fst rest, made @ snd rest @ [McpClosePool]))
             else rest)"

section \<open>Properties\<close>

lemma toolOutput_ok: "toolOutput outc out errOut = Inr (txt, ro) \<Longrightarrow>
    snd outc = None \<and> ro_ExitCode ro = r_ExitCode (fst outc) \<and> ro_Stdout ro = out \<and> ro_Stderr ro = errOut
    \<and> ro_TimedOut ro = r_TimedOut (fst outc) \<and> txt = summaryOf ro"
  by (auto simp: toolOutput_def Let_def split: option.splits)

text \<open>How a one-shot tool call configures its run.\<close>

definition oneShotOpts :: "opts \<Rightarrow> string list \<Rightarrow> string \<Rightarrow> string \<Rightarrow> opts" where
  "oneShotOpts base cmd stdin img =
     base\<lparr>o_Cmd := cmd, o_WithStdin := (stdin \<noteq> []), o_Image := (if img = [] then o_Image base else img)\<rparr>"

lemma execute_one_shot:
  assumes "ex_pool ex = None"
  shows "execute pc run ex cmd stdin img =
    (case run (oneShotOpts (ex_base ex) cmd stdin img) (if stdin = [] then None else Some stdin) of
       (outc, out, errOut) \<Rightarrow> Returns (toolOutput outc out errOut, ex))"
  using assms by (simp add: execute_def oneShotOpts_def Let_def)

lemma execute_base: "execute pc run ex cmd stdin img = Returns (r, ex') \<Longrightarrow> ex_base ex' = ex_base ex
    \<and> (ex_pool ex' = None \<longleftrightarrow> ex_pool ex = None)"
  by (auto simp: execute_def Let_def split: option.splits if_splits prod.splits exec.splits)



text \<open>
  In pooled mode the image is fixed: a call that asks for another one is refused before the
  pool is touched, and over a whole session the configuration never changes and the server
  never leaves its mode.
\<close>

theorem pooled_session_keeps_configuration:
  assumes "session (snd (buildMCPServer pc run base (Some p))) cs (fst (buildMCPServer pc run base (Some p)))
      = Returns (rs, ex)"
  shows "ex_base ex = base \<and> ex_pool ex \<noteq> None \<and> length rs = length cs
    \<and> ((\<forall>c \<in> set cs. \<exists>i. c = RunSandbox i \<and> rsi_Image i \<notin> {[], o_Image base}) \<longrightarrow>
        ex_pool ex = Some p \<and> (\<forall>r \<in> set rs. \<exists>e. r = Inl e))"
proof -
  let ?serve = "snd (buildMCPServer pc run base (Some p))"
  have keep: "ex_base e' = ex_base e \<and> (ex_pool e' = None \<longleftrightarrow> ex_pool e = None)"
    if "?serve e c = Returns (r, e')" for e c r e'
    using that execute_base
    by (auto simp: buildMCPServer_def runSandbox_def runScript_def split: tool_call.splits if_splits)
  have refuse: "?serve e c = Returns (r, e') \<Longrightarrow> ex_pool e \<noteq> None \<Longrightarrow> ex_base e = base \<Longrightarrow>
      c = RunSandbox i \<Longrightarrow> rsi_Image i \<notin> {[], o_Image base} \<Longrightarrow> e' = e \<and> (\<exists>x. r = Inl x)" for e c r e' i
    by (auto simp: buildMCPServer_def runSandbox_def execute_def Let_def split: if_splits)
  have "ex_base ex' = ex_base e \<and> (ex_pool ex' = None \<longleftrightarrow> ex_pool e = None) \<and> length rs' = length cs
      \<and> (ex_base e = base \<and> ex_pool e \<noteq> None \<and>
          (\<forall>c \<in> set cs. \<exists>i. c = RunSandbox i \<and> rsi_Image i \<notin> {[], o_Image base}) \<longrightarrow>
          ex' = e \<and> (\<forall>r \<in> set rs'. \<exists>x. r = Inl x))"
    if "session ?serve cs e = Returns (rs', ex')" for e rs' ex'
    using that
  proof (induction cs arbitrary: e rs' ex')
    case (Cons c cs)
    obtain r e1 where s: "?serve e c = Returns (r, e1)" using Cons.prems by (auto split: exec.splits)
    obtain rs1 where s1: "session ?serve cs e1 = Returns (rs1, ex')" "rs' = r # rs1"
      using Cons.prems s by (auto split: exec.splits)
    show ?case using Cons.IH [OF s1(1)] keep [OF s] refuse [OF s] s1(2) by auto
  qed simp
  from this [OF assms] show ?thesis by (auto simp: buildMCPServer_def)
qed

theorem pooled_session_keeps_configuration_witness:
  "\<exists>r p'. session (snd (buildMCPServer echoCall (\<lambda>_ _. ((zeroResult, None), [], [])) startOpts (Some (startPool 1 1 0))))
       [RunSandbox \<lparr>rsi_Cmd = [''id''], rsi_Stdin = [], rsi_Image = ''debian''\<rparr>]
       \<lparr>ex_base = startOpts, ex_pool = Some (startPool 1 1 0)\<rparr>
     = Returns ([r], p') \<and> p' = \<lparr>ex_base = startOpts, ex_pool = Some (startPool 1 1 0)\<rparr> \<and> (\<exists>e. r = Inl e)"
proof -
  let ?srv = "buildMCPServer echoCall (\<lambda>_ _. ((zeroResult, None), [], [])) startOpts (Some (startPool 1 1 0))"
  let ?cs = "[RunSandbox \<lparr>rsi_Cmd = [''id''], rsi_Stdin = [], rsi_Image = ''debian''\<rparr>]"
  have f: "fst ?srv = \<lparr>ex_base = startOpts, ex_pool = Some (startPool 1 1 0)\<rparr>" by (simp add: buildMCPServer_def)
  obtain r ex where s: "session (snd ?srv) ?cs (fst ?srv) = Returns ([r], ex)"
    by (simp add: buildMCPServer_def runSandbox_def execute_def startOpts_def)
  from pooled_session_keeps_configuration [OF s] have "ex_base ex = startOpts"
    "ex_pool ex = Some (startPool 1 1 0)" "\<exists>e. r = Inl e" by (auto simp: startOpts_def)
  then show ?thesis using s f by (intro exI [of _ r] exI [of _ ex]) (cases ex, auto)
qed

end
