(* ===== verification/Backends.thy ===== *)
theory Backends
  imports DockerPool K8sPool Mcp
begin

text \<open>
  The backends behind \<open>Run\<close> and behind the pool, and what their callers may rely on: the
  contract of a one-shot backend as a locale, its instances, and the properties that cross
  from a backend to the command line, the tools and the daemon.
\<close>

section \<open>One-shot runs\<close>

text \<open>The contract of \<open>Backend.Run\<close> as its comment and that of \<open>Result\<close> give it.\<close>

locale one_shot_backend =
  fixes run :: "'e \<Rightarrow> opts \<Rightarrow> 'w \<Rightarrow> (outcome \<times> 'w) option"
  assumes timed_out: "run e o' w = Some (out, w') \<Longrightarrow> r_TimedOut (fst out) \<Longrightarrow> snd out \<noteq> None"
    and failed: "run e o' w = Some (out, w') \<Longrightarrow> snd out \<noteq> None \<Longrightarrow>
      r_ExitCode (fst out) = 0 \<and> \<not> r_OOMKilled (fst out)"
begin

text \<open>A tool call that answers without an error never says that the run timed out.\<close>

lemma tool_not_timed_out:
  assumes "run e o' w = Some (outc, w')" and "toolOutput outc out errOut = Inr (txt, ro)"
  shows "\<not> ro_TimedOut ro \<and> ro_ExitCode ro = r_ExitCode (fst outc)"
  using timed_out [OF assms(1)] toolOutput_ok [OF assms(2)] by auto

text \<open>The status of the command line is the workload's, or 125 for the sandbox.\<close>

lemma local_status:
  assumes "run e o' w = Some (outc, w')" and "ci_run ci o' (o_WithStdin o') = (outc, out, errOut)"
  shows "pr_Code (runLocal ci o' False) = (if snd outc = None then r_ExitCode (fst outc) else 125)
    \<and> (pr_Code (runLocal ci o' True) = 0 \<longleftrightarrow> snd outc = None)
    \<and> (r_TimedOut (fst outc) \<longrightarrow> pr_Code (runLocal ci o' False) = 125 \<and> pr_Code (runLocal ci o' True) = 125)"
  using timed_out [OF assms(1)] assms(2)
  by (cases outc) (auto simp: runLocal_def encodeProc_def split: option.splits)

end

record world =
  w_docker :: dworld
  w_k8s :: klog

definition runDocker :: "docker_env \<times> bool \<Rightarrow> opts \<Rightarrow> world \<Rightarrow> (outcome \<times> world) option" where
  "runDocker e o' w =
     (case dockerRun (fst e) o' (snd e) (w_docker w) of (out, d) \<Rightarrow> Some (out, w\<lparr>w_docker := d\<rparr>))"

definition runK8s :: "k8s_env \<Rightarrow> opts \<Rightarrow> world \<Rightarrow> (outcome \<times> world) option" where
  "runK8s e o' w = map_option (\<lambda>(out, l). (out, w\<lparr>w_k8s := l\<rparr>)) (k8sRun e o' (w_k8s w))"

text \<open>\<open>Run\<close> on both worlds; the flag says whether a standard input is passed.\<close>

definition runAny :: "docker_env \<times> bool \<times> k8s_env \<Rightarrow> opts \<Rightarrow> world \<Rightarrow> (outcome \<times> world) option" where
  "runAny e o' w =
     (case e of (de, hasStdin, ke) \<Rightarrow> sandboxRun (runDocker (de, hasStdin)) (runK8s ke) o' w)"

lemma runDocker_out: "runDocker e o' w = Some (out, w') \<Longrightarrow>
    (r_TimedOut (fst out) \<longrightarrow> snd out \<noteq> None) \<and> (snd out \<noteq> None \<longrightarrow> r_ExitCode (fst out) = 0 \<and> \<not> r_OOMKilled (fst out))
    \<and> w_k8s w' = w_k8s w"
  using dockerRun_out [of "fst e" o' "snd e" "w_docker w"] by (auto simp: runDocker_def split: prod.splits)

lemma ranTo_out: "ranTo env o' out \<Longrightarrow>
    (r_TimedOut (fst out) \<longrightarrow> snd out \<noteq> None) \<and> (snd out \<noteq> None \<longrightarrow> r_ExitCode (fst out) = 0 \<and> \<not> r_OOMKilled (fst out))"
  unfolding ranTo_def
  by (elim disjE exE) (auto simp: zeroResult_def streamResult_def Let_def split: option.splits if_splits)

lemma runK8s_out: "runK8s e o' w = Some (out, w') \<Longrightarrow>
    (r_TimedOut (fst out) \<longrightarrow> snd out \<noteq> None) \<and> (snd out \<noteq> None \<longrightarrow> r_ExitCode (fst out) = 0 \<and> \<not> r_OOMKilled (fst out))
    \<and> w_docker w' = w_docker w"
  using k8sRun_out ranTo_out by (fastforce simp: runK8s_def)

lemma runAny_cases:
  assumes "runAny (de, b, ke) o' w = Some (out, w')"
  obtains (unknown) "o_Backend o' \<notin> {'''', ''auto'', ''docker'', ''k8s''}"
      "out = (zeroResult, Some (Errorf (''unknown backend '' @ goQuote (o_Backend o'))))" "w' = w"
  | (docker) "o_Backend o' \<in> {'''', ''auto'', ''docker''}" "runDocker (de, b) o' w = Some (out, w')"
  | (k8s) "o_Backend o' = ''k8s''" "runK8s ke o' w = Some (out, w')"
  using assms that
  by (auto simp: runAny_def sandboxRun_def newBackend_def split: if_splits)

lemma runAny_out:
  assumes "runAny e o' w = Some (out, w')"
  shows "(r_TimedOut (fst out) \<longrightarrow> snd out \<noteq> None)
    \<and> (snd out \<noteq> None \<longrightarrow> r_ExitCode (fst out) = 0 \<and> \<not> r_OOMKilled (fst out))"
proof -
  obtain de b ke where e: "e = (de, b, ke)" by (cases e) auto
  show ?thesis
    using assms unfolding e
    by (cases rule: runAny_cases) (auto simp: zeroResult_def dest: runDocker_out runK8s_out)
qed

interpretation docker_backend: one_shot_backend runDocker
  by unfold_locales (use runDocker_out in blast)+

interpretation k8s_backend: one_shot_backend runK8s
  by unfold_locales (use runK8s_out in blast)+

interpretation any_backend: one_shot_backend runAny
  by unfold_locales (use runAny_out in blast)+

section \<open>The daemon over a holder\<close>

text \<open>A server whose calls run in the holder \<open>h\<close>: the pool call that \<open>handleRun\<close> takes.\<close>

definition holderCall :: "('h \<Rightarrow> string list \<Rightarrow> bool \<Rightarrow> 'w \<Rightarrow> outcome \<times> 'w) \<Rightarrow> ('h \<Rightarrow> 'w \<Rightarrow> 'w)
    \<Rightarrow> ('h \<Rightarrow> 'w \<Rightarrow> gerror option \<times> 'w) \<Rightarrow> 'h \<Rightarrow> 'w \<Rightarrow> string \<Rightarrow> string \<Rightarrow> pool_call" where
  "holderCall run cleanup check h w out errOut limit cmd stdin =
     (cycleEnv None None (holderCycle (run h cmd (stdin \<noteq> None)) (cleanup h) (check h) w), out, errOut)"

context pool_impl begin

lemma daemon_reports:
  assumes "handleRun (holderCall (run e) (cleanup e) (check e) h w out errOut) req p = Returns (resp, p')"
  shows "(rs_TimedOut resp \<longrightarrow> rs_Error resp = errMsg (limit h))
    \<and> (rs_ExitCode resp \<noteq> 0 \<or> rs_OOMKilled resp \<longrightarrow> rs_Stdout resp = out \<and> rs_Stderr resp = errOut
         \<and> (\<exists>oc w1. run e h (rq_Cmd req) (requestStdin req \<noteq> None) w = (oc, w1)
              \<and> snd oc = None \<and> rs_ExitCode resp = r_ExitCode (fst oc)
              \<and> (rs_OOMKilled resp \<longleftrightarrow> rs_ExitCode resp = 137)))"
proof (cases "\<exists>x. resp = zeroResponse\<lparr>rs_Error := x\<rparr>")
  case True
  then show ?thesis by (auto simp: zeroResponse_def)
next
  case False
  then obtain l where l: "rq_Cmd req \<noteq> []" "requestLimit req = Inr l"
    using assms by (auto simp: handleRun_def split: if_splits sum.splits)
  define cyc where "cyc = holderCycle (run e h (rq_Cmd req) (requestStdin req \<noteq> None)) (cleanup e h) (check e h) w"
  obtain oc where oc: "poolRun (cycleEnv None None cyc) p = Returns (oc, p')"
      "resp = \<lparr>rs_ExitCode = r_ExitCode (fst oc), rs_Stdout = out, rs_Stderr = errOut,
             rs_TimedOut = r_TimedOut (fst oc), rs_OOMKilled = r_OOMKilled (fst oc),
             rs_Error = (case snd oc of None \<Rightarrow> [] | Some x \<Rightarrow> errMsg x)\<rparr>"
    using handleRun_ran [OF assms l] unfolding holderCall_def cyc_def by (metis fst_conv snd_conv)
  obtain o1 w1 where r: "run e h (rq_Cmd req) (requestStdin req \<noteq> None) w = (o1, w1)" by fastforce
  have a: "a_run (cycleEnv None None cyc) = o1" "a_check (cycleEnv None None cyc) = fst (snd cyc)"
    using r by (auto simp: cycleEnv_def cyc_def holderCycle_def split: prod.splits)
  have tm: "r_TimedOut (fst oc) \<longrightarrow> snd oc = Some (limit h)"
    using pool_reports [OF cyc_def [symmetric] oc(1)] by blast
  have rf: "snd o1 \<noteq> None \<longrightarrow> r_ExitCode (fst o1) = 0 \<and> \<not> r_OOMKilled (fst o1)"
    "snd o1 = None \<longrightarrow> (r_OOMKilled (fst o1) \<longleftrightarrow> r_ExitCode (fst o1) = 137)"
    using run_failed [OF r] run_fine [OF r] by blast+
  have "fst oc = fst o1 \<or> fst oc = zeroResult"
    using poolRun_out [OF oc(1)] a by auto
  then show ?thesis
    using tm rf r oc(2) by (auto simp: zeroResult_def)
qed

end

text \<open>A machine without a cluster, where every run returns.\<close>

definition noKube :: k8s_env where
  "noKube = kindEnv\<lparr>ke_buildConfig := \<lambda>_. Some EOF, ke_inCluster := \<lambda>_. Some EOF\<rparr>"

definition freshBoth :: world where
  "freshBoth = \<lparr>w_docker = freshWorld, w_k8s = []\<rparr>"

lemma noKube_returns: "\<exists>out w'. runAny (de, b, noKube) o' w = Some (out, w')"
proof -
  have "\<exists>out l. k8sRun noKube o' (w_k8s w) = Some (out, l)"
    by (simp add: k8sRun_def kubeClient_def noKube_def Let_def)
  then show ?thesis
    by (auto simp: runAny_def sandboxRun_def newBackend_def runDocker_def runK8s_def split: prod.split)
qed

section \<open>Properties\<close>





text \<open>
  The status of a local run: the workload's exit code, or 125 when the sandbox failed or the
  run timed out; with JSON output 0 says that the sandbox worked, not that the command did.
\<close>

theorem local_run_status:
  assumes "buildOpts sf cmd i = Inr o'" and "cmd \<noteq> []"
    and "runAny e o' w = Some (outc, w')" and "ci_run ci o' i = (outc, out, errOut)"
  shows "pr_Code (mainRun ci sf i False [] cmd) = (if snd outc = None then r_ExitCode (fst outc) else 125)
    \<and> (pr_Code (mainRun ci sf i True [] cmd) = 0 \<longleftrightarrow> snd outc = None)
    \<and> (r_TimedOut (fst outc) \<longrightarrow> pr_Code (mainRun ci sf i False [] cmd) = 125)"
proof -
  have "o_WithStdin o' = i" using assms(1) by (auto simp: buildOpts_def split: sum.splits option.splits)
  then show ?thesis
    using any_backend.local_status [OF assms(3), of ci out errOut] assms(1,2,4) by (auto simp: mainRun_def)
qed

theorem local_run_status_witness:
  "\<exists>out w'. runAny (dockerEnv, False, noKube) (startOpts\<lparr>o_Backend := ''vm'', o_Cmd := [''x'']\<rparr>) freshBoth = Some (out, w')
    \<and> pr_Code (mainRun (oomCli\<lparr>ci_run := \<lambda>_ _. (out, [], [])\<rparr>)
        (registerSandboxFlags\<lparr>sf_backend := ''vm'', sf_image := ''alpine'', sf_mem := 128\<rparr>) False False [] [''x'']) = 125"
proof -
  let ?o = "startOpts\<lparr>o_Backend := ''vm'', o_Cmd := [''x'']\<rparr>"
  let ?sf = "registerSandboxFlags\<lparr>sf_backend := ''vm'', sf_image := ''alpine'', sf_mem := 128\<rparr>"
  have b: "buildOpts ?sf [''x''] False = Inr ?o"
    by (simp add: buildOpts_def envError_def registerSandboxFlags_def startOpts_def)
  obtain out w' where r: "runAny (dockerEnv, False, noKube) ?o freshBoth = Some (out, w')" "snd out \<noteq> None"
    by (simp add: runAny_def sandboxRun_def newBackend_def)
  from local_run_status [OF b _ r(1), of "oomCli\<lparr>ci_run := \<lambda>_ _. (out, [], [])\<rparr>" "[]" "[]"]
  show ?thesis using r by auto
qed



text \<open>
  C35. The limits that reach the container: below \<open>2 ^ 43\<close> mebibytes the memory limit is exact, at
  \<open>2 ^ 44\<close> the multiplication wraps to 0, which the daemon takes for no limit; the CPU limit is
  within two nano-CPUs of the number asked for.
\<close>

theorem limits_reach_container:
  assumes "0 \<le> sint (o_MemMB o')" and "sint (o_MemMB o') < 2 ^ 43"
    and "0 \<le> o_CPUs o'" and "o_CPUs o' * 1000000000 < 2 ^ 53 - 1"
  shows "sint (hc_Memory (dockerSpec o' s)) = sint (o_MemMB o') * 2 ^ 20
    \<and> \<bar>of_int (sint (hc_NanoCPUs (dockerSpec o' s))) - o_CPUs o' * 1000000000\<bar> < 3 / 2
    \<and> hc_Memory (dockerSpec (o'\<lparr>o_MemMB := 2 ^ 44\<rparr>) s) = 0
    \<and> hc_Memory (holderSpec o' s) = hc_Memory (dockerSpec o' s)
    \<and> hc_NanoCPUs (holderSpec o' s) = hc_NanoCPUs (dockerSpec o' s)"
proof -
  have "memBytes o' = word_of_int (sint (o_MemMB o') * 2 ^ 20)"
    by (simp add: memBytes_def flip: of_int_mult) (simp add: of_int_mult mult.assoc)
  then have "sint (memBytes o') = sint (o_MemMB o') * 2 ^ 20"
    using assms(1,2) by (simp only: sint_sbintrunc') (simp add: signed_take_bit_int_eq_self)
  moreover have "\<bar>of_int (sint (nanoCPUs o')) - o_CPUs o' * 1000000000\<bar> < 3 / 2"
  proof -
    let ?q = "o_CPUs o' * 1000000000" and ?n = "f64Trunc (f64Round (o_CPUs o' * 1000000000))"
    have n: "\<bar>of_int ?n - ?q\<bar> < 3 / 2" "0 \<le> ?n" using f64Round_trunc [of ?q] assms(3,4) by auto
    have "of_int ?n < ?q + 3 / 2" using n(1) by linarith
    also have "\<dots> < of_int (2 ^ 63)" using assms(4) by simp
    finally have "(of_int ?n :: rat) < of_int (2 ^ 63)" .
    then have "?n < 2 ^ 63" by (simp only: of_int_less_iff)
    then have "sint (nanoCPUs o') = ?n"
      using n(2) by (simp add: nanoCPUs_def f64ToInt64_def Let_def sint_sbintrunc' signed_take_bit_int_eq_self)
    then show ?thesis using n(1) by simp
  qed
  moreover have "memBytes (o'\<lparr>o_MemMB := 2 ^ 44\<rparr>) = 0" by (simp add: memBytes_def)
  ultimately show ?thesis by (simp add: dockerSpec_def holderSpec_def)
qed

theorem limits_reach_container_witness:
  "sint (hc_Memory (dockerSpec (startOpts\<lparr>o_CPUs := 1 / 3\<rparr>) [])) = 128 * 2 ^ 20
   \<and> \<bar>of_int (sint (hc_NanoCPUs (dockerSpec (startOpts\<lparr>o_CPUs := 1 / 3\<rparr>) []))) - 1 / 3 * 1000000000\<bar> < (3 / 2 :: rat)"
  using limits_reach_container [of "startOpts\<lparr>o_CPUs := 1 / 3\<rparr>" "[]"] by (simp add: startOpts_def)

end
