(* ===== verification/GoNet.thy ===== *)
theory GoNet
  imports GoNum GoPath
begin

text \<open>
  The functions of package \<open>net\<close> behind the loopback check: \<open>SplitHostPort\<close>, \<open>ParseIP\<close> (a
  16-byte address, IPv4 in its mapped form) and \<open>IP.IsLoopback\<close>. Errors carry no text here:
  the program only asks whether there is one.
\<close>

section \<open>SplitHostPort\<close>

definition lastIndex :: "string \<Rightarrow> char \<Rightarrow> nat option" where
  "lastIndex s c =
     (if c \<in> set s then Some (length s - 1 - length (takeWhile (\<lambda>x. x \<noteq> c) (rev s))) else None)"

definition splitHostPort :: "string \<Rightarrow> (string \<times> string) option" where
  "splitHostPort hp =
     (case lastIndex hp CHR '':'' of
        None \<Rightarrow> None
      | Some i \<Rightarrow>
          if hasPrefix hp ''[''
          then let close = length (takeWhile (\<lambda>x. x \<noteq> CHR '']'') hp) in
            if close = length hp \<or> close + 1 \<noteq> i then None
            else if CHR ''['' \<in> set (drop 1 hp) \<or> CHR '']'' \<in> set (drop (close + 1) hp) then None
            else Some (take (close - 1) (drop 1 hp), drop (i + 1) hp)
          else if CHR '':'' \<in> set (take i hp) \<or> CHR ''['' \<in> set hp \<or> CHR '']'' \<in> set hp then None
          else Some (take i hp, drop (i + 1) hp))"

section \<open>ParseIP\<close>

text \<open>One decimal field: no leading zero, at most 255.\<close>

definition octet :: "string \<Rightarrow> int option" where
  "octet s =
     (if s \<noteq> [] \<and> (\<forall>c \<in> set s. isDigit c) \<and> (hd s = CHR ''0'' \<longrightarrow> length s = 1) \<and> readUint s \<le> 255
      then Some (readUint s) else None)"

definition ipv4Fields :: "string \<Rightarrow> int list option" where
  "ipv4Fields s =
     (let fs = map octet (splitAll s CHR ''.'') in
      if length fs = 4 \<and> None \<notin> set fs then Some (map the fs) else None)"

definition hexVal :: "char \<Rightarrow> int option" where
  "hexVal c =
     (let n = of_char c :: int in
      if 48 \<le> n \<and> n \<le> 57 then Some (n - 48) else if 97 \<le> n \<and> n \<le> 102 then Some (n - 87)
      else if 65 \<le> n \<and> n \<le> 70 then Some (n - 55) else None)"

definition isHex :: "char \<Rightarrow> bool" where
  "isHex c \<longleftrightarrow> hexVal c \<noteq> None"

definition readHex :: "string \<Rightarrow> int" where
  "readHex s = foldl (\<lambda>n c. n * 16 + the (hexVal c)) 0 s"

text \<open>
  The loop of \<open>parseIPv6\<close>: the bytes so far, the place of the ellipsis, the text left. The
  result is what is left when the loop stops.
\<close>

function v6Loop :: "int list \<Rightarrow> nat option \<Rightarrow> string \<Rightarrow> (int list \<times> nat option \<times> string) option" where
  "v6Loop ip ell s =
     (if 16 \<le> length ip then Some (ip, ell, s)
      else let g = takeWhile isHex s; r = dropWhile isHex s in
        if g = [] \<or> 4 < length g then None
        else if hasPrefix r ''.''
        then if (ell = None \<and> length ip \<noteq> 12) \<or> 12 < length ip then None
             else (case ipv4Fields s of None \<Rightarrow> None | Some fs \<Rightarrow> Some (ip @ fs, ell, []))
        else let ip' = ip @ [readHex g div 256, readHex g mod 256] in
          if r = [] then Some (ip', ell, [])
          else if hd r \<noteq> CHR '':'' \<or> length r = 1 then None
          else if r ! 1 = CHR '':''
          then if ell \<noteq> None then None
               else if length r = 2 then Some (ip', Some (length ip'), [])
               else v6Loop ip' (Some (length ip')) (drop 2 r)
          else v6Loop ip' ell (drop 1 r))"
  by pat_completeness auto
termination
  by (relation "measure (\<lambda>(ip, _). 16 - length ip)") auto

declare v6Loop.simps [simp del]

definition parseIPv6 :: "string \<Rightarrow> int list option" where
  "parseIPv6 s =
     (if CHR ''%'' \<in> set s then None
      else let lead = hasPrefix s ''::''; s' = (if lead then drop 2 s else s) in
        if lead \<and> s' = [] then Some (replicate 16 0)
        else case v6Loop [] (if lead then Some 0 else None) s' of
            None \<Rightarrow> None
          | Some (ip, ell, rest) \<Rightarrow>
              if rest \<noteq> [] then None
              else if length ip < 16
              then (case ell of
                      None \<Rightarrow> None
                    | Some k \<Rightarrow> Some (take k ip @ replicate (16 - length ip) 0 @ drop k ip))
              else if ell \<noteq> None then None else Some ip)"

definition mappedPrefix :: "int list" where
  "mappedPrefix = replicate 10 0 @ [255, 255]"

definition parseIP :: "string \<Rightarrow> int list option" where
  "parseIP s =
     (case dropWhile (\<lambda>c. c \<notin> {CHR ''.'', CHR '':'', CHR ''%''}) s of
        [] \<Rightarrow> None
      | c # _ \<Rightarrow>
          if c = CHR ''.'' then map_option (\<lambda>fs. mappedPrefix @ fs) (ipv4Fields s)
          else if c = CHR '':'' then parseIPv6 s else None)"

definition ipIsLoopback :: "int list \<Rightarrow> bool" where
  "ipIsLoopback ip =
     (if take 12 ip = mappedPrefix then ip ! 12 = 127 else ip = replicate 15 0 @ [1])"

section \<open>Dotted addresses\<close>

definition dotted :: "int list \<Rightarrow> string" where
  "dotted fs = joinWith ''.'' (map showUint fs)"

lemma splitAll_nosep: "c \<notin> set s \<Longrightarrow> splitAll s c = [s]"
  by (induction s) auto

lemma splitAll_sep: "c \<notin> set s \<Longrightarrow> splitAll (s @ c # t) c = s # splitAll t c"
  by (induction s) auto

lemma showUint_no [simp]: "0 \<le> n \<Longrightarrow> \<not> isDigit c \<Longrightarrow> c \<notin> set (showUint n)"
  using showUint_digits by blast

lemma not_digits [simp]: "\<not> isDigit CHR ''.''" "\<not> isDigit CHR '':''" "\<not> isDigit CHR ''%''" "\<not> isDigit CHR ''[''"
  "\<not> isDigit CHR '']''" "\<not> isDigit CHR '' ''"
  by (simp_all add: isDigit_def)

lemma splitAll_dotted:
  assumes "0 \<le> a" "0 \<le> b" "0 \<le> c" "0 \<le> d"
  shows "splitAll (dotted [a, b, c, d]) CHR ''.'' = [showUint a, showUint b, showUint c, showUint d]"
  using assms by (simp add: dotted_def splitAll_sep splitAll_nosep)

lemma showUint_head_zero: "0 < n \<Longrightarrow> hd (showUint n) \<noteq> CHR ''0''"
proof (induction n rule: showUint.induct)
  case (1 n)
  show ?case
  proof (cases "n < 10")
    case True
    then have "hd (showUint n) = digitChar n" by (subst showUint.simps) simp
    then show ?thesis using True "1.prems" digitVal_digitChar [of n] by (auto simp: digitVal_def)
  next
    case False
    then have "hd (showUint n) = hd (showUint (n div 10))" by (subst showUint.simps) simp
    then show ?thesis using False "1.IH" by simp
  qed
qed

lemma octet_showUint: "0 \<le> n \<Longrightarrow> n \<le> 255 \<Longrightarrow> octet (showUint n) = Some n"
proof -
  assume n: "0 \<le> n" "n \<le> 255"
  have "hd (showUint n) = CHR ''0'' \<Longrightarrow> length (showUint n) = 1"
    using n showUint_head_zero [of n] by (cases "n = 0") (auto simp: showUint.simps [of 0])
  then show ?thesis using n showUint_digits readUint_showUint by (simp add: octet_def)
qed

lemma ipv4Fields_dotted:
  assumes "0 \<le> a" "a \<le> 255" "0 \<le> b" "b \<le> 255" "0 \<le> c" "c \<le> 255" "0 \<le> d" "d \<le> 255"
  shows "ipv4Fields (dotted [a, b, c, d]) = Some [a, b, c, d]"
  using assms by (simp add: ipv4Fields_def splitAll_dotted octet_showUint Let_def)

lemma parseIP_dotted:
  assumes "0 \<le> a" "a \<le> 255" "0 \<le> b" "b \<le> 255" "0 \<le> c" "c \<le> 255" "0 \<le> d" "d \<le> 255"
  shows "parseIP (dotted [a, b, c, d]) = Some (mappedPrefix @ [a, b, c, d])"
proof -
  have "\<forall>x \<in> set (showUint a). x \<notin> {CHR ''.'', CHR '':'', CHR ''%''}"
    using showUint_digits [OF assms(1)] not_digits by blast
  then have "dropWhile (\<lambda>c. c \<notin> {CHR ''.'', CHR '':'', CHR ''%''}) (dotted [a, b, c, d])
      = CHR ''.'' # showUint b @ CHR ''.'' # showUint c @ CHR ''.'' # showUint d"
    by (simp add: dotted_def dropWhile_append3)
  then show ?thesis using ipv4Fields_dotted [OF assms] by (simp add: parseIP_def)
qed

end
