(* ===== verification/Serve.thy ===== *)
theory Serve
  imports Cli GoNet
begin

text \<open>
  The subcommand \<open>serve\<close>, \<open>cmd/sandbox/serve.go\<close>: what it does to the system in order, and its
  exit status. The pool and the server have their own theories; here the pool is made, served
  from and closed.
\<close>

section \<open>Loopback\<close>

definition addrHost :: "string \<Rightarrow> string" where
  "addrHost addr = trimSpace (case splitHostPort addr of Some (h, _) \<Rightarrow> h | None \<Rightarrow> addr)"

definition isLoopbackAddr :: "string \<Rightarrow> bool" where
  "isLoopbackAddr addr =
     (let host = addrHost addr in
      if host = [] then False
      else if host = ''localhost'' then True
      else case parseIP host of None \<Rightarrow> False | Some ip \<Rightarrow> ipIsLoopback ip)"

section \<open>runServe\<close>

record serve_flags =
  vf_sandbox :: sandbox_flags
  vf_min :: int
  vf_max :: int
  vf_idle :: int
  vf_unix :: string
  vf_http :: string
  vf_allowRemote :: bool

definition serveDefaults :: serve_flags where
  "serveDefaults = \<lparr>vf_sandbox = registerSandboxFlags, vf_min = 1, vf_max = 4, vf_idle = 5 * Minute,
     vf_unix = [], vf_http = [], vf_allowRemote = False\<rparr>"

datatype serve_event =
    ErrLine string
  | MakePool opts pool_config
  | RemoveFile string
  | ListenUnix string
  | ChmodFile string int
  | CloseListener
  | StartUnix
  | StartHTTP string
  | AwaitEnd
  | ShutdownHTTP
  | ClosePool

text \<open>
  The answers of the system, and how the wait ends: with a signal, or with what the first
  listener that stops sends (the accept loop may also send nil).
\<close>

datatype serve_end = Signal | ListenerEnded "gerror option"

record serve_env =
  ve_newPool :: "gerror option"
  ve_socketExists :: bool
  ve_listenUnix :: "gerror option"
  ve_chmod :: "gerror option"
  ve_end :: serve_end

definition poolConfigOf :: "serve_flags \<Rightarrow> pool_config" where
  "poolConfigOf f = \<lparr>c_Min = vf_min f, c_Max = vf_max f, c_IdleTimeout = vf_idle f\<rparr>"

text \<open>
  The unix listener: an exit status, or the events of a listener that is being served. The
  mode \<open>0x180\<close> is octal 600, access for the owner only.
\<close>

definition openUnix :: "serve_env \<Rightarrow> string \<Rightarrow> int option \<times> serve_event list" where
  "openUnix env path =
     (let l1 = (if ve_socketExists env then [RemoveFile path] else []) @ [ListenUnix path] in
      (case ve_listenUnix env of
         Some e \<Rightarrow> (Some 1, l1 @ [ErrLine (''serve: listen unix: '' @ errMsg e)])
       | None \<Rightarrow>
           let l2 = l1 @ [ChmodFile path 0x180] in
           (case ve_chmod env of
              Some e \<Rightarrow> (Some 1, l2 @ [ErrLine (''serve: chmod socket: '' @ errMsg e), CloseListener])
            | None \<Rightarrow> (None, l2 @ [ErrLine (''serve: listening on unix://'' @ path), StartUnix]))))"

definition openHTTP :: "serve_flags \<Rightarrow> int option \<times> serve_event list" where
  "openHTTP f =
     (if \<not> vf_allowRemote f \<and> \<not> isLoopbackAddr (vf_http f)
      then (Some 2, [ErrLine (''serve: -http '' @ goQuote (vf_http f)
              @ '' is not loopback; refusing (pass -http-allow-remote to override, but note there is no authentication)'')])
      else (None, [ErrLine (''serve: listening on http://'' @ vf_http f
              @ '' (no authentication; keep it loopback)''), StartHTTP (vf_http f)]))"

text \<open>The wait and the shutdown of the listeners that were opened.\<close>

definition serveWait :: "serve_env \<Rightarrow> serve_flags \<Rightarrow> serve_event list" where
  "serveWait env f =
     [AwaitEnd]
     @ (case ve_end env of
          Signal \<Rightarrow> [ErrLine (CHR 0x0A # ''serve: shutting down...'')]
        | ListenerEnded (Some e) \<Rightarrow> [ErrLine (''serve: listener error: '' @ errMsg e)]
        | ListenerEnded None \<Rightarrow> [])
     @ (if vf_http f \<noteq> [] then [ShutdownHTTP] else [])
     @ (if vf_unix f \<noteq> [] then [CloseListener, RemoveFile (vf_unix f)] else [])"

text \<open>From the pool on; the deferred close of the pool comes last on every path.\<close>

definition servePool :: "serve_env \<Rightarrow> serve_flags \<Rightarrow> int \<times> serve_event list" where
  "servePool env f =
     (case (if vf_unix f = [] then (None, []) else openUnix env (vf_unix f)) of
        (Some code, l1) \<Rightarrow> (code, l1 @ [ClosePool])
      | (None, l1) \<Rightarrow>
          (case (if vf_http f = [] then (None, []) else openHTTP f) of
             (Some code, l2) \<Rightarrow> (code, l1 @ l2 @ [ClosePool])
           | (None, l2) \<Rightarrow> (0, l1 @ l2 @ serveWait env f @ [ClosePool])))"

definition runServe :: "serve_env \<Rightarrow> serve_flags \<Rightarrow> int \<times> serve_event list" where
  "runServe env f =
     (if vf_unix f = [] \<and> vf_http f = []
      then (2, [ErrLine ''serve: at least one of -unix or -http is required''])
      else case buildOpts (vf_sandbox f) [] False of
          Inl e \<Rightarrow> (2, [ErrLine (''serve: '' @ errMsg e)])
        | Inr o' \<Rightarrow>
            let l1 = [MakePool o' (poolConfigOf f)] in
            (case ve_newPool env of
               Some e \<Rightarrow> (1, l1 @ [ErrLine (''serve: creating pool: '' @ errMsg e)])
             | None \<Rightarrow> (case servePool env f of (code, l2) \<Rightarrow> (code, l1 @ l2))))"

section \<open>Lemmas\<close>

lemma openUnix_log:
  assumes "openUnix env path = (r, l)"
  shows "StartHTTP a \<notin> set l" "ClosePool \<notin> set l" "MakePool o' c \<notin> set l" "AwaitEnd \<notin> set l"
    "StartUnix \<in> set l \<longleftrightarrow> r = None" "r = None \<or> r = Some 1"
  using assms by (auto simp: openUnix_def Let_def split: option.splits if_splits)

lemma openUnix_guarded:
  assumes "openUnix env path = (r, l)" and "l = x @ StartUnix # y"
  shows "ChmodFile path 0x180 \<in> set x \<and> ve_chmod env = None \<and> y = [] \<and> StartUnix \<notin> set x"
proof -
  have *: "l = (a @ [ChmodFile path 0x180, ErrLine m]) @ StartUnix # [] \<and> StartUnix \<notin> set a \<and> ve_chmod env = None
      \<or> StartUnix \<notin> set l"
    if "a = (if ve_socketExists env then [RemoveFile path] else []) @ [ListenUnix path]"
      "m = ''serve: listening on unix://'' @ path" for a m
    using assms(1) that by (auto simp: openUnix_def Let_def split: option.splits if_splits)
  obtain a m where "l = (a @ [ChmodFile path 0x180, ErrLine m]) @ StartUnix # []" "StartUnix \<notin> set a"
    and c: "ve_chmod env = None" using * assms(2) by fastforce
  then have "a @ [ChmodFile path 0x180, ErrLine m] = x \<and> StartUnix = StartUnix \<and> [] = y"
    using assms(2) by (intro unique_split [where P = "\<lambda>e. e = StartUnix"]) auto
  then show ?thesis using c \<open>StartUnix \<notin> set a\<close> by auto
qed

lemma openHTTP_log:
  assumes "openHTTP f = (r, l)"
  shows "StartHTTP a \<in> set l \<longleftrightarrow> r = None \<and> a = vf_http f"
    "r = None \<longleftrightarrow> vf_allowRemote f \<or> isLoopbackAddr (vf_http f)"
    "ClosePool \<notin> set l" "MakePool o' c \<notin> set l" "StartUnix \<notin> set l" "r = None \<or> r = Some 2" "AwaitEnd \<notin> set l"
  using assms by (auto simp: openHTTP_def split: if_splits)

lemma serveWait_log:
  "ClosePool \<notin> set (serveWait env f)" "MakePool o' c \<notin> set (serveWait env f)"
  "StartHTTP a \<notin> set (serveWait env f)" "StartUnix \<notin> set (serveWait env f)"
  by (auto simp: serveWait_def split: serve_end.splits option.splits)

section \<open>Properties\<close>

lemma digit_notSpace: "isDigit x \<or> x \<in> {CHR ''.'', CHR '':''} \<Longrightarrow> notSpace x"
proof -
  assume x: "isDigit x \<or> x \<in> {CHR ''.'', CHR '':''}"
  have "46 \<le> (of_char x :: nat)" "(of_char x :: nat) < 128" using x by (auto simp: isDigit_def)
  then show ?thesis by (auto simp: notSpace_def spaceRunes_def)
qed

lemma takeWhile_last: "c \<notin> set t \<Longrightarrow> takeWhile (\<lambda>x. x \<noteq> c) (rev (s @ c # t)) = rev t"
  by (auto simp: takeWhile_append)

lemma lastIndex_port: "c \<notin> set t \<Longrightarrow> lastIndex (s @ c # t) c = Some (length s)"
  unfolding lastIndex_def using takeWhile_last [of c t s] by simp

definition plainPort :: "string \<Rightarrow> bool" where
  "plainPort p \<longleftrightarrow> set p \<inter> {CHR '':'', CHR ''['', CHR '']''} = {}"

lemma splitHostPort_plain:
  assumes "plainPort h" and "plainPort p"
  shows "splitHostPort (h @ CHR '':'' # p) = Some (h, p)"
proof -
  have "lastIndex (h @ CHR '':'' # p) CHR '':'' = Some (length h)"
    using assms by (intro lastIndex_port) (auto simp: plainPort_def)
  moreover have "\<not> hasPrefix (h @ CHR '':'' # p) ''[''"
    using assms by (cases h) (auto simp: hasPrefix_def plainPort_def)
  ultimately show ?thesis using assms by (auto simp: splitHostPort_def plainPort_def)
qed

lemma dotted_chars:
  assumes "0 \<le> a" "0 \<le> b" "0 \<le> c" "0 \<le> d" and "x \<in> set (dotted [a, b, c, d])"
  shows "isDigit x \<or> x = CHR ''.''"
  using assms(5) showUint_digits [OF assms(1)] showUint_digits [OF assms(2)] showUint_digits [OF assms(3)]
    showUint_digits [OF assms(4)] unfolding dotted_def by auto

lemma addrHost_dotted:
  assumes "0 \<le> a" "0 \<le> b" "0 \<le> c" "0 \<le> d" and "plainPort p"
  shows "addrHost (dotted [a, b, c, d] @ CHR '':'' # p) = dotted [a, b, c, d]"
proof -
  have no: "x \<notin> set (dotted [a, b, c, d])" if "\<not> isDigit x" "x \<noteq> CHR ''.''" for x
    using dotted_chars [OF assms(1-4)] that by blast
  have "plainPort (dotted [a, b, c, d])" by (simp add: plainPort_def no)
  moreover have "\<forall>x \<in> set (dotted [a, b, c, d]). notSpace x"
    using dotted_chars [OF assms(1-4)] digit_notSpace by blast
  ultimately show ?thesis using splitHostPort_plain assms(5) trimSpace_id by (simp add: addrHost_def)
qed

lemma dotted_not_localhost:
  assumes "0 \<le> a" "0 \<le> b" "0 \<le> c" "0 \<le> d"
  shows "dotted [a, b, c, d] \<noteq> ''localhost''" "dotted [a, b, c, d] \<noteq> []"
proof -
  have "CHR ''l'' \<notin> set (dotted [a, b, c, d])"
  proof
    assume "CHR ''l'' \<in> set (dotted [a, b, c, d])"
    then show False using dotted_chars [OF assms] by (fastforce simp: isDigit_def)
  qed
  then show "dotted [a, b, c, d] \<noteq> ''localhost''" by auto
qed (simp add: dotted_def)

text \<open>
  C27. The loopback check of the HTTP listener: an IPv4 address with a port passes exactly when
  its first byte is 127; the empty host, which binds every interface, and the unspecified
  IPv6 address fail; \<open>localhost\<close> and the IPv6 loopback address pass.
\<close>

theorem loopback_addresses:
  assumes "0 \<le> a" "a \<le> 255" "0 \<le> b" "b \<le> 255" "0 \<le> c" "c \<le> 255" "0 \<le> d" "d \<le> 255" and "plainPort p"
  shows "(isLoopbackAddr (dotted [a, b, c, d] @ '':'' @ p) \<longleftrightarrow> a = 127)
    \<and> \<not> isLoopbackAddr ('':'' @ p) \<and> isLoopbackAddr (''localhost:'' @ p)
    \<and> \<not> isLoopbackAddr (''[::]:'' @ p) \<and> isLoopbackAddr (''[::1]:'' @ p)"
proof -
  have "isLoopbackAddr (dotted [a, b, c, d] @ '':'' @ p) \<longleftrightarrow> a = 127"
    using addrHost_dotted [of a b c d p] dotted_not_localhost [of a b c d] parseIP_dotted [of a b c d] assms
    by (simp add: isLoopbackAddr_def Let_def ipIsLoopback_def mappedPrefix_def nth_append)
  moreover have "splitHostPort ('':'' @ p) = Some ([], p)" "splitHostPort (''localhost:'' @ p) = Some (''localhost'', p)"
    using splitHostPort_plain [of "[]" p] splitHostPort_plain [of "''localhost''" p] assms(9)
    by (simp_all add: plainPort_def)
  moreover have "splitHostPort (''[::]:'' @ p) = Some (''::'', p)" "splitHostPort (''[::1]:'' @ p) = Some (''::1'', p)"
    using assms(9) lastIndex_port [of "CHR '':''" p "''[::]''"] lastIndex_port [of "CHR '':''" p "''[::1]''"]
    by (simp_all add: splitHostPort_def plainPort_def hasPrefix_def)
  moreover have "parseIP ''::'' = Some (replicate 16 0)" "parseIP ''::1'' = Some (replicate 15 0 @ [1])"
    by (simp_all add: parseIP_def parseIPv6_def hasPrefix_def v6Loop.simps isHex_def hexVal_def readHex_def
        numeral_nat Let_def)
  moreover have "trimSpace ''localhost'' = ''localhost''" "trimSpace ''::'' = ''::''" "trimSpace ''::1'' = ''::1''"
    by (rule trimSpace_id, simp add: notSpace_def spaceRunes_def)+
  ultimately show ?thesis
    by (simp add: isLoopbackAddr_def addrHost_def ipIsLoopback_def mappedPrefix_def
        numeral_nat Let_def)
qed

theorem loopback_addresses_witness:
  "isLoopbackAddr (dotted [127, 0, 0, 1] @ '':8099'') \<and> \<not> isLoopbackAddr (dotted [10, 0, 0, 7] @ '':8099'')"
  using loopback_addresses [of 127 0 0 1 "''8099''"] loopback_addresses [of 10 0 0 7 "''8099''"]
  by (simp add: plainPort_def)

text \<open>What the pool is wrapped in: it is closed after everything else.\<close>

lemma servePool_log:
  assumes "servePool env f = (code, l)"
  obtains l0 where "l = l0 @ [ClosePool]" "ClosePool \<notin> set l0" "MakePool o' c \<notin> set l0"
    "\<And>a. StartHTTP a \<in> set l0 \<Longrightarrow> a = vf_http f \<and> a \<noteq> [] \<and> (vf_allowRemote f \<or> isLoopbackAddr a)"
    "\<And>x y. l0 = x @ StartUnix # y \<Longrightarrow> ChmodFile (vf_unix f) 0x180 \<in> set x \<and> ve_chmod env = None"
    "code = 0 \<longleftrightarrow> AwaitEnd \<in> set l0" "code \<in> {0, 1, 2}"
proof -
  obtain u l1 where u: "(if vf_unix f = [] then (None, []) else openUnix env (vf_unix f)) = (u, l1)" by fastforce
  obtain h l2 where h: "(if vf_http f = [] then (None, []) else openHTTP f) = (h, l2)" by fastforce
  have u1: "StartHTTP a \<notin> set l1" "ClosePool \<notin> set l1" "MakePool o' c \<notin> set l1" "AwaitEnd \<notin> set l1"
      "u = None \<or> u = Some 1" for a
    using u openUnix_log by (auto split: if_splits)
  have h1: "StartHTTP a \<in> set l2 \<Longrightarrow> a = vf_http f \<and> a \<noteq> [] \<and> (vf_allowRemote f \<or> isLoopbackAddr a)"
      "ClosePool \<notin> set l2" "MakePool o' c \<notin> set l2" "StartUnix \<notin> set l2" "AwaitEnd \<notin> set l2"
      "h = None \<or> h = Some 2" for a
    using h openHTTP_log by (auto split: if_splits)
  define l0 where "l0 = l1 @ (if u = None then l2 @ (if h = None then serveWait env f else []) else [])"
  have l: "l = l0 @ [ClosePool]" "code = (if u \<noteq> None then 1 else if h \<noteq> None then 2 else 0)"
    using assms u h u1(5) h1(6) by (auto simp: servePool_def l0_def split: option.splits)
  show ?thesis
  proof (rule that [OF l(1)])
    show "ClosePool \<notin> set l0" "MakePool o' c \<notin> set l0"
      using u1 h1 serveWait_log by (auto simp: l0_def)
    show "a = vf_http f \<and> a \<noteq> [] \<and> (vf_allowRemote f \<or> isLoopbackAddr a)" if "StartHTTP a \<in> set l0" for a
      using that u1 h1 serveWait_log by (auto simp: l0_def split: if_splits)
    show "ChmodFile (vf_unix f) 0x180 \<in> set x \<and> ve_chmod env = None" if "l0 = x @ StartUnix # y" for x y
    proof -
      define r where "r = (if u = None then l2 @ (if h = None then serveWait env f else []) else [])"
      have r: "StartUnix \<notin> set r" using h1 serveWait_log by (simp add: r_def)
      have l0: "l0 = l1 @ r" by (simp add: l0_def r_def)
      have "StartUnix \<in> set l0" using that by simp
      then have "StartUnix \<in> set l1" using r l0 by simp
      then obtain v w where vw: "l1 = v @ StartUnix # w" by (auto simp: in_set_conv_decomp)
      have v: "ChmodFile (vf_unix f) 0x180 \<in> set v \<and> ve_chmod env = None \<and> w = [] \<and> StartUnix \<notin> set v"
        using u vw openUnix_guarded by (fastforce split: if_splits)
      have "v @ StartUnix # r = x @ StartUnix # y" using that l0 vw v by simp
      then have "v = x \<and> StartUnix = StartUnix \<and> r = y"
        by (rule unique_split [where P = "\<lambda>e. e = StartUnix"]) (use v r in auto)
      then show ?thesis using v by blast
    qed
    show "code = 0 \<longleftrightarrow> AwaitEnd \<in> set l0" "code \<in> {0, 1, 2}"
      using l(2) u1 h1 by (auto simp: l0_def serveWait_def)
  qed
qed

text \<open>
  C26. The daemon starts an HTTP listener only on a loopback address, unless the flag that
  permits others is set, and accepts on its socket only after the socket was restricted to its
  owner. Once the pool is made it is closed last and once, whatever goes wrong in between, and
  the status is 0 exactly when the daemon reached its wait.
\<close>

theorem serve_guards_and_cleans:
  assumes "runServe env f = (code, l)" and "l = MakePool o' c # l'" and "ve_newPool env = None"
  shows "(\<forall>a. StartHTTP a \<in> set l \<longrightarrow> a = vf_http f \<and> a \<noteq> [] \<and> (vf_allowRemote f \<or> isLoopbackAddr a))
    \<and> (\<forall>x y. l = x @ StartUnix # y \<longrightarrow> ChmodFile (vf_unix f) 0x180 \<in> set x \<and> ve_chmod env = None)
    \<and> (\<exists>l0. l = MakePool o' c # l0 @ [ClosePool] \<and> ClosePool \<notin> set l0)
    \<and> (code = 0 \<longleftrightarrow> AwaitEnd \<in> set l) \<and> code \<in> {0, 1, 2}
    \<and> c = poolConfigOf f \<and> buildOpts (vf_sandbox f) [] False = Inr o'"
proof -
  obtain o1 where o1: "buildOpts (vf_sandbox f) [] False = Inr o1"
    and l: "servePool env f = (code, l')" and eq: "o1 = o'" "c = poolConfigOf f"
    using assms by (auto simp: runServe_def Let_def split: if_splits sum.splits prod.splits)
  obtain l0 where l0: "l' = l0 @ [ClosePool]" "ClosePool \<notin> set l0"
    and ht: "\<And>a. StartHTTP a \<in> set l0 \<Longrightarrow> a = vf_http f \<and> a \<noteq> [] \<and> (vf_allowRemote f \<or> isLoopbackAddr a)"
    and ux: "\<And>x y. l0 = x @ StartUnix # y \<Longrightarrow> ChmodFile (vf_unix f) 0x180 \<in> set x \<and> ve_chmod env = None"
    and code: "code = 0 \<longleftrightarrow> AwaitEnd \<in> set l0" "code \<in> {0, 1, 2}"
    using servePool_log [OF l] by metis
  have "ChmodFile (vf_unix f) 0x180 \<in> set x \<and> ve_chmod env = None" if "l = x @ StartUnix # y" for x y
  proof -
    have "MakePool o' c # l0 @ [ClosePool] = x @ StartUnix # y" using that assms(2) l0(1) by simp
    then obtain x' where x': "x = MakePool o' c # x'" "l0 @ [ClosePool] = x' @ StartUnix # y"
      by (cases x) auto
    then obtain y' where "y = y' @ [ClosePool]" "l0 = x' @ StartUnix # y'"
      by (cases y rule: rev_cases) auto
    then show ?thesis using ux x'(1) by auto
  qed
  then show ?thesis using assms(2) l0 ht code eq o1 by auto
qed

theorem serve_guards_and_cleans_witness:
  "\<exists>l. runServe \<lparr>ve_newPool = None, ve_socketExists = True, ve_listenUnix = None, ve_chmod = None, ve_end = Signal\<rparr>
      (serveDefaults\<lparr>vf_unix := ''/run/s'', vf_http := '':8099''\<rparr>) = (2, l)
    \<and> StartUnix \<in> set l \<and> CloseListener \<notin> set l \<and> last l = ClosePool"
proof -
  let ?env = "\<lparr>ve_newPool = None, ve_socketExists = True, ve_listenUnix = None, ve_chmod = None, ve_end = Signal\<rparr>"
  let ?f = "serveDefaults\<lparr>vf_unix := ''/run/s'', vf_http := '':8099''\<rparr>"
  have "\<not> isLoopbackAddr '':8099''"
    using splitHostPort_plain [of "[]" "''8099''"]
    by (simp add: isLoopbackAddr_def addrHost_def plainPort_def)
  then obtain o' l' where l': "runServe ?env ?f = (2, MakePool o' (poolConfigOf ?f) # l')"
      "StartUnix \<in> set l'" "CloseListener \<notin> set l'"
    by (simp add: runServe_def buildOpts_def envError_def servePool_def openUnix_def openHTTP_def
        serveDefaults_def registerSandboxFlags_def Let_def)
  from serve_guards_and_cleans [OF l'(1) refl] obtain l0 where "l' = l0 @ [ClosePool]" by auto
  then show ?thesis using l' by auto
qed

end
