(* ===== verification/Probe.thy ===== *)
theory Probe
  imports K8s
begin

text \<open>
  \<open>pkg/sandbox/probe.go\<close>: which backends and runtime classes are there. The answers of the two
  client libraries are parameters; \<open>kubeClient\<close> is the one of the backend.
\<close>

record probe_result =
  pb_DockerOK :: bool
  pb_DockerErr :: string
  pb_K8sOK :: bool
  pb_K8sErr :: string
  pb_Runtimes :: "string \<rightharpoonup> bool"
  pb_RuntimeErrs :: "string \<rightharpoonup> string"

record probe_env =
  pe_dockerNew :: "gerror option"
  pe_ping :: "gerror option"
  pe_k8s :: k8s_env
  pe_nodes :: "gerror option"
  pe_class :: "string \<Rightarrow> gerror option"

definition emptyProbe :: probe_result where
  "emptyProbe = \<lparr>pb_DockerOK = False, pb_DockerErr = [], pb_K8sOK = False, pb_K8sErr = [],
     pb_Runtimes = (\<lambda>_. None), pb_RuntimeErrs = (\<lambda>_. None)\<rparr>"

definition probeDocker :: "probe_env \<Rightarrow> probe_result \<Rightarrow> probe_result" where
  "probeDocker env res =
     (case pe_dockerNew env of
        Some e \<Rightarrow> res\<lparr>pb_DockerErr := errMsg e\<rparr>
      | None \<Rightarrow>
          (case pe_ping env of
             Some e \<Rightarrow> res\<lparr>pb_DockerErr := errMsg e\<rparr>
           | None \<Rightarrow> res\<lparr>pb_DockerOK := True\<rparr>))"

definition probeClass :: "probe_env \<Rightarrow> string \<Rightarrow> probe_result \<Rightarrow> probe_result" where
  "probeClass env name res =
     (case pe_class env name of
        Some e \<Rightarrow> res\<lparr>pb_Runtimes := (pb_Runtimes res)(name \<mapsto> False),
                      pb_RuntimeErrs := (pb_RuntimeErrs res)(name \<mapsto> errMsg e)\<rparr>
      | None \<Rightarrow> res\<lparr>pb_Runtimes := (pb_Runtimes res)(name \<mapsto> True)\<rparr>)"

definition probe :: "probe_env \<Rightarrow> string list \<Rightarrow> probe_result" where
  "probe env runtimes =
     (let res = probeDocker env emptyProbe in
      (case fst (kubeClient (pe_k8s env) []) of
         Some e \<Rightarrow> res\<lparr>pb_K8sErr := errMsg e\<rparr>
       | None \<Rightarrow>
           (case pe_nodes env of
              Some e \<Rightarrow> res\<lparr>pb_K8sErr := errMsg e\<rparr>
            | None \<Rightarrow> fold (probeClass env) runtimes (res\<lparr>pb_K8sOK := True\<rparr>))))"

text \<open>The loop over the runtime classes.\<close>

lemma probeClass_sel:
  "pb_DockerOK (probeClass env n r) = pb_DockerOK r" "pb_DockerErr (probeClass env n r) = pb_DockerErr r"
  "pb_K8sOK (probeClass env n r) = pb_K8sOK r" "pb_K8sErr (probeClass env n r) = pb_K8sErr r"
  "pb_Runtimes (probeClass env n r) = (pb_Runtimes r)(n \<mapsto> pe_class env n = None)"
  by (simp_all add: probeClass_def split: option.split)

lemma fold_probeClass:
  "pb_DockerOK (fold (probeClass env) ns r) = pb_DockerOK r"
  "pb_K8sOK (fold (probeClass env) ns r) = pb_K8sOK r"
  "pb_Runtimes (fold (probeClass env) ns r) n =
     (if n \<in> set ns then Some (pe_class env n = None) else pb_Runtimes r n)"
  by (induction ns arbitrary: r) (simp_all add: probeClass_sel)

lemma emptyProbe_sel:
  "pb_K8sOK (probeDocker env emptyProbe) = False" "pb_Runtimes (probeDocker env emptyProbe) = (\<lambda>_. None)"
  "pb_DockerOK (probeDocker env emptyProbe) \<longleftrightarrow> pe_dockerNew env = None \<and> pe_ping env = None"
  by (simp_all add: probeDocker_def emptyProbe_def split: option.split)

text \<open>
  A probe is complete and independent: docker is reported up exactly when its client
  connects and answers, Kubernetes exactly when the client of the backend can be built and
  lists the nodes, a runtime class exactly when Kubernetes is up and the class was asked for
  and exists, and no failure of one part changes what is said of another.
\<close>

theorem probe_reports:
  "(pb_DockerOK (probe env rts) \<longleftrightarrow> pe_dockerNew env = None \<and> pe_ping env = None)
   \<and> (pb_K8sOK (probe env rts) \<longleftrightarrow> fst (kubeClient (pe_k8s env) []) = None \<and> pe_nodes env = None)
   \<and> (pb_Runtimes (probe env rts) rt = Some b \<longleftrightarrow>
        pb_K8sOK (probe env rts) \<and> rt \<in> set rts \<and> b = (pe_class env rt = None))"
  by (auto simp: probe_def Let_def fold_probeClass emptyProbe_sel split: option.split)

end
