(* ===== verification/Bench.thy ===== *)
theory Bench
  imports Cli Probe
begin

text \<open>
  The subcommand \<open>bench\<close>, \<open>cmd/sandbox/bench.go\<close>: what is measured, how a measurement runs, and
  the dashboard. The styling library is a parameter: it renders a text in a colour, and a box.
  Strings are bytes, so the block characters are written out in UTF-8.
\<close>

section \<open>Numbers as text\<close>

text \<open>\<open>%.kf\<close>: the exact value rounded to \<open>k\<close> decimals, ties to even.\<close>

definition padLeft :: "nat \<Rightarrow> string \<Rightarrow> string" where
  "padLeft n s = replicate (n - length s) CHR ''0'' @ s"

definition fmtFixed :: "nat \<Rightarrow> rat \<Rightarrow> string" where
  "fmtFixed k q =
     (let n = roundHalfEven (\<bar>q\<bar> * 10 ^ k); m = 10 ^ k
      in (if q < 0 then ''-'' else []) @ showInt (n div m) @ ''.'' @ padLeft k (showInt (n mod m)))"

definition fmtDur :: "int \<Rightarrow> string" where
  "fmtDur d = (if Second \<le> d then fmtFixed 2 (durSeconds d) @ ''s'' else showInt (milliseconds d) @ ''ms'')"

definition reason :: "string \<Rightarrow> string" where
  "reason msg =
     (if msg = [] then ''unavailable''
      else if 40 < length msg then take 39 msg @ [CHR 0xE2, CHR 0x80, CHR 0xA6] else msg)"

section \<open>Bars\<close>

datatype color = Green | Yellow | Red | Grey | Blue | White | Track

record styles =
  st_paint :: "color \<Rightarrow> bool \<Rightarrow> string \<Rightarrow> string"
  st_box :: "string \<Rightarrow> string"

definition f64Div :: "int \<Rightarrow> int \<Rightarrow> rat" where
  "f64Div a b = f64Round (f64Round (of_int a) / f64Round (of_int b))"

definition barColor :: "int \<Rightarrow> int \<Rightarrow> color" where
  "barColor d mx =
     (if mx = 0 then Grey
      else let r = f64Div d mx in
        if r \<le> f64Round (34 / 100) then Green else if r \<le> f64Round (67 / 100) then Yellow else Red)"

definition barFill :: "int \<Rightarrow> int \<Rightarrow> int \<Rightarrow> int" where
  "barFill d mx width =
     (let f = (if 0 < mx then sint (f64ToInt64 (f64Round (f64Div d mx * f64Round (of_int width)))) else 1);
          f = (if width < f then width else f)
      in if f < 1 then 1 else f)"

definition repeatStr :: "string \<Rightarrow> int \<Rightarrow> string" where
  "repeatStr s n = concat (replicate (nat n) s)"

text \<open>\<open>strings.Repeat\<close> panics on a negative count: \<open>None\<close>.\<close>

definition solidBar :: "styles \<Rightarrow> int \<Rightarrow> int \<Rightarrow> int \<Rightarrow> string option" where
  "solidBar st d mx width =
     (let f = barFill d mx width in
      if f < 0 \<or> width - f < 0 then None
      else Some (st_paint st (barColor d mx) False (repeatStr [CHR 0xE2, CHR 0x96, CHR 0x88] f)
                 @ st_paint st Track False (repeatStr [CHR 0xE2, CHR 0x96, CHR 0x91] (width - f))))"

definition speedup :: "styles \<Rightarrow> int \<Rightarrow> int \<Rightarrow> string" where
  "speedup st cold warm =
     (if warm \<le> 0 then []
      else st_paint st Green False (fmtFixed 1 (f64Div cold warm) @ [CHR 0xC3, CHR 0x97] @ '' warm''))"

definition envDots :: "styles \<Rightarrow> probe_result \<Rightarrow> string list \<Rightarrow> string" where
  "envDots st pr runtimes =
     (let dot = (\<lambda>name ok. st_paint st (if ok then Green else Red) False [CHR 0xE2, CHR 0x97, CHR 0x8F] @ '' '' @ name)
      in joinWith ''  ''
           ([dot ''docker'' (pb_DockerOK pr), dot ''k8s'' (pb_K8sOK pr)]
            @ map (\<lambda>rt. dot rt (pb_K8sOK pr \<and> pb_Runtimes pr rt = Some True)) runtimes))"

section \<open>Cells and the dashboard\<close>

record cell =
  cl_backend :: string
  cl_runtime :: string
  cl_mode :: string
  cl_dur :: int
  cl_err :: "gerror option"
  cl_na :: string

definition findCell :: "cell list \<Rightarrow> string \<Rightarrow> string \<Rightarrow> string \<Rightarrow> int option" where
  "findCell cells b rt mode =
     map_option cl_dur (find (\<lambda>c. cl_backend c = b \<and> cl_runtime c = rt \<and> cl_mode c = mode
        \<and> cl_na c = [] \<and> cl_err c = None) cells)"

definition maxDur :: "cell list \<Rightarrow> int" where
  "maxDur cells = foldl (\<lambda>m c. if cl_na c = [] \<and> cl_err c = None \<and> m < cl_dur c then cl_dur c else m) 0 cells"

text \<open>A bar of the dashboard, 20 wide; a panic would lose the whole text.\<close>

definition bar :: "styles \<Rightarrow> int \<Rightarrow> int \<Rightarrow> string" where
  "bar st d mx = the (solidBar st d mx 20)"

definition coldWarm :: "styles \<Rightarrow> cell list \<Rightarrow> int \<Rightarrow> string \<Rightarrow> string \<Rightarrow> string" where
  "coldWarm st cells mx b rt =
     (case findCell cells b rt ''cold'' of
        None \<Rightarrow> []
      | Some c \<Rightarrow>
          let w = (case findCell cells b rt ''warm'' of Some w \<Rightarrow> w | None \<Rightarrow> 0) in
          st_paint st Blue False (b @ '' '' @ [CHR 0xC2, CHR 0xB7] @ '' '' @ rt) @ [CHR 0x0A]
          @ ''  cold  '' @ bar st c mx @ ''  '' @ st_paint st White False (fmtDur c) @ [CHR 0x0A]
          @ ''  warm  '' @ bar st w mx @ ''  '' @ st_paint st White False (fmtDur w) @ ''   '' @ speedup st c w
          @ [CHR 0x0A] @ [CHR 0x0A])"

definition runtimeRow :: "styles \<Rightarrow> cell list \<Rightarrow> int \<Rightarrow> string \<Rightarrow> string" where
  "runtimeRow st cells mx rt =
     (case findCell cells ''k8s'' rt ''cold'' of
        None \<Rightarrow> []
      | Some d \<Rightarrow> ''  '' @ rt @ replicate (7 - length rt) CHR '' '' @ '' '' @ bar st d mx @ ''  ''
          @ st_paint st White False (fmtDur d) @ [CHR 0x0A])"

definition renderDashboard :: "styles \<Rightarrow> probe_result \<Rightarrow> string list \<Rightarrow> int \<Rightarrow> cell list \<Rightarrow> int \<Rightarrow> string" where
  "renderDashboard st pr runtimes n cells mx =
     (let b = st_paint st White True ''sandbox bench'' @ [CHR 0x0A]
            @ st_paint st Grey False ''env  '' @ envDots st pr runtimes @ [CHR 0x0A, CHR 0x0A]
            @ coldWarm st cells mx ''docker'' ''default''
            @ coldWarm st cells mx ''k8s'' ''runc''
            @ st_paint st Blue False (''k8s '' @ [CHR 0xC2, CHR 0xB7] @ '' isolation runtimes (cold)'') @ [CHR 0x0A]
            @ concat (map (runtimeRow st cells mx) [''runc'', ''gvisor'', ''kata''])
      in st_box st (trimRight b CHR 0x0A) @ [CHR 0x0A]
         @ st_paint st Grey False (''n='' @ showInt n @ '' '' @ [CHR 0xC2, CHR 0xB7] @ '' lower is better ''
             @ [CHR 0xC2, CHR 0xB7] @ '' warm excludes one-time holder creation''))"

section \<open>Measuring\<close>

definition benchOpts :: "string \<Rightarrow> string \<Rightarrow> string \<Rightarrow> opts" where
  "benchOpts img b rt =
     \<lparr>o_Image = img, o_Cmd = [], o_Timeout = 30 * Second, o_NetWait = 0, o_MemMB = 256, o_CPUs = 1,
      o_User = ''65534:65534'', o_Runtime = rt, o_Binds = [], o_Env = [], o_WithStdin = False, o_Backend = b\<rparr>"

text \<open>\<open>n\<close> one-shot runs: the first error ends the measurement; \<open>elapsed\<close> is the wall clock.\<close>

fun coldLoop :: "(nat \<Rightarrow> outcome) \<Rightarrow> nat \<Rightarrow> nat \<Rightarrow> gerror option" where
  "coldLoop run i 0 = None"
| "coldLoop run i (Suc n) = (case snd (run i) of Some e \<Rightarrow> Some e | None \<Rightarrow> coldLoop run (Suc i) n)"

definition measureCold :: "(opts \<Rightarrow> nat \<Rightarrow> outcome) \<Rightarrow> int \<Rightarrow> opts \<Rightarrow> int \<Rightarrow> int \<times> gerror option" where
  "measureCold run elapsed o' n =
     (case coldLoop (run (o'\<lparr>o_Cmd := [''true'']\<rparr>)) 0 (nat n) of
        Some e \<Rightarrow> (0, Some e)
      | None \<Rightarrow> (truncDiv elapsed n, None))"

text \<open>The runs on the pool: the one that warms up, then \<open>n\<close>.\<close>

fun warmLoop :: "(nat \<Rightarrow> run_env) \<Rightarrow> nat \<Rightarrow> nat \<Rightarrow> pstate \<Rightarrow> (gerror option \<times> pstate) exec" where
  "warmLoop envs i 0 p = Returns (None, p)"
| "warmLoop envs i (Suc n) p =
     (case poolRun (envs i) p of
        Blocks \<Rightarrow> Blocks
      | Panics \<Rightarrow> Panics
      | Returns ((_, Some e), p') \<Rightarrow> Returns (Some e, p')
      | Returns ((_, None), p') \<Rightarrow> warmLoop envs (Suc i) n p')"

definition measureWarm :: "(opts \<Rightarrow> pool_config \<Rightarrow> pool_result exec) \<Rightarrow> (nat \<Rightarrow> run_env) \<Rightarrow> (hid set \<Rightarrow> hid list)
    \<Rightarrow> (hid \<Rightarrow> gerror option) \<Rightarrow> int \<Rightarrow> opts \<Rightarrow> int \<Rightarrow> ((int \<times> gerror option) \<times> pstate option) exec" where
  "measureWarm mkPool envs order answers elapsed o' n =
     (case mkPool (o'\<lparr>o_Cmd := []\<rparr>) \<lparr>c_Min = 1, c_Max = 1, c_IdleTimeout = 0\<rparr> of
        Blocks \<Rightarrow> Blocks
      | Panics \<Rightarrow> Panics
      | Returns (PoolErr e _) \<Rightarrow> Returns ((0, Some e), None)
      | Returns (PoolOk p) \<Rightarrow>
          (case warmLoop envs 0 (Suc (nat n)) p of
             Blocks \<Rightarrow> Blocks
           | Panics \<Rightarrow> Panics
           | Returns (err, p1) \<Rightarrow>
               (case closePool order answers p1 of
                  Blocks \<Rightarrow> Blocks
                | Panics \<Rightarrow> Panics
                | Returns (_, p2) \<Rightarrow>
                    Returns ((case err of Some e \<Rightarrow> (0, Some e) | None \<Rightarrow> (truncDiv elapsed n, None)), Some p2))))"

text \<open>The cells that are measured, from what the two measurements answer.\<close>

type_synonym measure = "opts \<Rightarrow> int \<times> gerror option"

definition measured :: "string \<Rightarrow> string \<Rightarrow> string \<Rightarrow> int \<times> gerror option \<Rightarrow> cell" where
  "measured b rt mode r =
     \<lparr>cl_backend = b, cl_runtime = rt, cl_mode = mode, cl_dur = fst r, cl_err = snd r, cl_na = []\<rparr>"

definition missing :: "string \<Rightarrow> string \<Rightarrow> string \<Rightarrow> string \<Rightarrow> cell" where
  "missing b rt mode why =
     \<lparr>cl_backend = b, cl_runtime = rt, cl_mode = mode, cl_dur = 0, cl_err = None, cl_na = why\<rparr>"

definition benchCells :: "measure \<Rightarrow> measure \<Rightarrow> string \<Rightarrow> probe_result \<Rightarrow> string list \<Rightarrow> cell list" where
  "benchCells cold warm img pr runtimes =
     (if pb_DockerOK pr
      then [measured ''docker'' ''default'' ''cold'' (cold (benchOpts img ''docker'' [])),
            measured ''docker'' ''default'' ''warm'' (warm (benchOpts img ''docker'' []))]
      else [missing ''docker'' ''default'' ''-'' (reason (pb_DockerErr pr))])
     @ (if pb_K8sOK pr
        then [measured ''k8s'' ''runc'' ''cold'' (cold (benchOpts img ''k8s'' [])),
              measured ''k8s'' ''runc'' ''warm'' (warm (benchOpts img ''k8s'' []))]
             @ map (\<lambda>rt. if pb_Runtimes pr rt = Some True
                         then measured ''k8s'' rt ''cold'' (cold (benchOpts img ''k8s'' rt))
                         else missing ''k8s'' rt ''cold'' ''no runtimeclass'') runtimes
        else [missing ''k8s'' ''-'' ''-'' (reason (pb_K8sErr pr))])"

definition runBench :: "styles \<Rightarrow> probe_env \<Rightarrow> (int \<Rightarrow> measure) \<Rightarrow> (int \<Rightarrow> measure) \<Rightarrow> int \<Rightarrow> string \<Rightarrow> proc" where
  "runBench st penv cold warm n img =
     (let n = (if n < 1 then 1 else n); runtimes = [''gvisor'', ''kata'']; pr = probe penv runtimes;
          cells = benchCells (\<lambda>o'. cold n o') (\<lambda>o'. warm n o') img pr runtimes
      in \<lparr>pr_Stdout = [Line (renderDashboard st pr runtimes n cells (maxDur cells))], pr_Stderr = [], pr_Code = 0\<rparr>)"

section \<open>Properties\<close>

lemma barFill_range: "1 \<le> width \<Longrightarrow> 1 \<le> barFill d mx width \<and> barFill d mx width \<le> width"
  by (auto simp: barFill_def Let_def)

lemma f64Round_1: "f64Round 1 = 1"
  using f64Round_int [of 1] by simp

lemma barFill_full:
  assumes "0 < mx" "mx < 2 ^ 53" "1 \<le> width" "width < 2 ^ 53"
  shows "barFill mx mx width = width"
proof -
  have m: "f64Round (of_int mx) = of_int mx" using assms(1,2) by (intro f64Round_int) auto
  have w: "f64Round (of_int width) = of_int width" using assms(3,4) by (intro f64Round_int) auto
  have "f64Div mx mx = 1" using m assms(1) f64Round_1 by (simp add: f64Div_def)
  then have "f64Round (f64Div mx mx * f64Round (of_int width)) = of_int width" using w by simp
  moreover have "f64ToInt64 (of_int width) = word_of_int width"
    using assms(3,4) by (simp add: f64ToInt64_def f64Trunc_def Let_def)
  moreover have "sint (word_of_int width :: 64 word) = width"
    using assms(3,4) by (simp add: sint_sbintrunc' signed_take_bit_int_eq_self)
  ultimately show ?thesis using assms by (simp add: barFill_def)
qed

text \<open>
  A bar of the dashboard is always drawn: whatever was measured, the filled part has
  between one character and the whole width, the track the rest, so \<open>strings.Repeat\<close> never gets
  a negative count, and the slowest cell fills its bar.
\<close>

theorem bars_fit:
  assumes "1 \<le> width"
  shows "\<exists>f. 1 \<le> f \<and> f \<le> width
    \<and> solidBar st d mx width =
        Some (st_paint st (barColor d mx) False (repeatStr [CHR 0xE2, CHR 0x96, CHR 0x88] f)
              @ st_paint st Track False (repeatStr [CHR 0xE2, CHR 0x96, CHR 0x91] (width - f)))
    \<and> (d = mx \<and> 0 < mx \<and> mx < 2 ^ 53 \<and> width < 2 ^ 53 \<longrightarrow> f = width)"
  using barFill_range [OF assms, of d mx] barFill_full [of mx width] assms
  by (intro exI [of _ "barFill d mx width"]) (auto simp: solidBar_def Let_def)

theorem bars_fit_witness:
  "\<exists>b. solidBar \<lparr>st_paint = \<lambda>_ _ s. s, st_box = \<lambda>s. s\<rparr> (3 * Second) (3 * Second) 2 = Some b
     \<and> b = [CHR 0xE2, CHR 0x96, CHR 0x88, CHR 0xE2, CHR 0x96, CHR 0x88]"
  using bars_fit [of 2 "\<lparr>st_paint = \<lambda>_ _ s. s, st_box = \<lambda>s. s\<rparr>" "3 * Second" "3 * Second"]
  by (auto simp: duration_units repeatStr_def numeral_2_eq_2)

text \<open>A run changes neither the configuration of the pool nor its reaper.\<close>

lemma poolRun_frame:
  assumes "poolRun a p = Returns (out, p')"
  shows "p_cfg p' = p_cfg p \<and> p_reaperDone p' = p_reaperDone p"
  using assms
  by (auto simp: poolRun_def acquire_def recvIdle_def acquireReserve_def release_def dropHolder_def pool_defs
      Let_def split: exec.splits sum.splits prod.splits option.splits if_splits list.splits bool.splits)

lemma warmLoop_quiet:
  "quiet p \<Longrightarrow> \<exists>err p'. warmLoop envs i n p = Returns (err, p') \<and> quiet p' \<and> p_cfg p' = p_cfg p
    \<and> p_reaperDone p' = p_reaperDone p"
proof (induction n arbitrary: i p)
  case (Suc n)
  obtain out p1 where p1: "poolRun (envs i) p = Returns (out, p1)" "quiet p1"
    using poolRun_quiet [OF Suc.prems] by blast
  note fr = poolRun_frame [OF p1(1)]
  obtain r e where oe: "out = (r, e)" by fastforce
  show ?case
  proof (cases e)
    case None
    obtain err p2 where "warmLoop envs (Suc i) n p1 = Returns (err, p2)" "quiet p2" "p_cfg p2 = p_cfg p1"
      "p_reaperDone p2 = p_reaperDone p1" using Suc.IH [OF p1(2)] by blast
    then show ?thesis using p1 fr oe None by auto
  next
    case (Some x)
    then show ?thesis using p1 fr oe by auto
  qed
qed simp

text \<open>
  A warm measurement always ends: the runs on its pool of one never block and never panic,
  whatever the backend does, and the pool is closed again with nothing registered in it, also
  when a run failed; without a pool the error of its creation is returned.
\<close>

theorem warm_benchmark_ends_closed:
  assumes "\<And>A. finite A \<Longrightarrow> set (order A) = A"
    and "newPool mkD mkK order ans t (o'\<lparr>o_Cmd := []\<rparr>) \<lparr>c_Min = 1, c_Max = 1, c_IdleTimeout = 0\<rparr> = Returns r"
  shows "\<exists>d err p. measureWarm (newPool mkD mkK order ans t) envs order answers elapsed o' n = Returns ((d, err), p)
    \<and> (case r of
         PoolErr e _ \<Rightarrow> p = None \<and> err = Some e
       | PoolOk p0 \<Rightarrow> \<exists>p1 p2. warmLoop envs 0 (Suc (nat n)) p0 = Returns (err, p1) \<and> quiet p1
           \<and> p = Some p2 \<and> p_closed p2 \<and> p_all p2 = {} \<and> p_idle p2 = []
           \<and> e_torn p2 = e_torn p1 @ map (implOf p1) (order (p_all p1)))"
proof (cases r)
  case (PoolErr e p)
  then show ?thesis using assms(2) by (simp add: measureWarm_def)
next
  case (PoolOk p0)
  let ?c = "\<lparr>c_Min = 1, c_Max = 1, c_IdleTimeout = 0\<rparr>"
  have new: "newPool mkD mkK order ans t (o'\<lparr>o_Cmd := []\<rparr>) ?c = Returns (PoolOk p0)"
    using assms(2) PoolOk by simp
  obtain c' where c': "normalize ?c = Inr c'" "p0 = warmPool (o'\<lparr>o_Cmd := []\<rparr>) c' t (nat (c_Min c'))"
    using newPool_PoolOk [OF new] by blast
  then have c1: "c' = ?c" by (simp add: normalize_def Let_def)
  have q: "quiet p0" using c' c1 quiet_warmPool [of ?c c' 1] by simp
  have rd: "p_reaperDone p0" using c' c1 by (simp add: warmPool_heap)
  obtain err p1 where p1: "warmLoop envs 0 (Suc (nat n)) p0 = Returns (err, p1)" "quiet p1"
    "p_reaperDone p1" using warmLoop_quiet [OF q] rd by blast
  have fin: "finite (p_all p1)" using p1(2) by (metis List.finite_set quiet_def)
  have "\<not> p_closed p1" "\<forall>h \<in> p_all p1. h_impl (e_heap p1 h) \<noteq> None" using p1(2) by (auto simp: quiet_def)
  then obtain p2 where p2: "closePool order answers p1 = Returns (firstError answers (order (p_all p1)), p2)"
    "p_closed p2" "p_all p2 = {}" "p_idle p2 = []" "e_torn p2 = e_torn p1 @ map (implOf p1) (order (p_all p1))"
    using closePool_returns [of p1 order answers] p1(3) assms(1) [OF fin] by blast
  have "measureWarm (newPool mkD mkK order ans t) envs order answers elapsed o' n
      = Returns (case err of Some e \<Rightarrow> (0, Some e) | None \<Rightarrow> (truncDiv elapsed n, None), Some p2)"
    using new p1(1) p2(1) by (simp add: measureWarm_def del: warmLoop.simps)
  then show ?thesis using p1 p2 PoolOk by (cases err) auto
qed

theorem warm_benchmark_ends_closed_witness:
  "\<exists>d p2. measureWarm (newPool (\<lambda>_. None) (\<lambda>_. None) sorted_list_of_set (\<lambda>_. None) 0)
       (\<lambda>i. \<lparr>a_newImpl = Some EOF, a_ctxEnd = None, a_run = (zeroResult, None), a_check = Some EOF\<rparr>)
       sorted_list_of_set (\<lambda>_. None) 9 (benchOpts ''alpine'' ''docker'' []) 3
     = Returns ((d, Some (Wrap ''pool: holder died: '' EOF)), Some p2) \<and> p_closed p2"
proof -
  let ?c = "\<lparr>c_Min = 1, c_Max = 1, c_IdleTimeout = 0\<rparr>" and ?o = "(benchOpts ''alpine'' ''docker'' [])\<lparr>o_Cmd := []\<rparr>"
  let ?env = "\<lparr>a_newImpl = Some EOF, a_ctxEnd = None, a_run = (zeroResult, None), a_check = Some EOF\<rparr>"
  have n: "normalize ?c = Inr ?c" by (simp add: normalize_def)
  let ?w = "warmPool ?o ?c 0 1"
  have new: "newPool (\<lambda>_. None) (\<lambda>_. None) sorted_list_of_set (\<lambda>_. None) 0 ?o ?c = Returns (PoolOk ?w)"
    using newPool_ok [of ?o ?c ?c "\<lambda>_. None" "\<lambda>_. None" sorted_list_of_set "\<lambda>_. None" 0] n
    by (simp add: benchOpts_def newImplFor_def newBackend_def split: sum.split backend.split)
  have q: "quiet ?w" using quiet_warmPool [OF n, of 1] by simp
  have "p_idle ?w = [0]" by (simp add: warmPool_heap)
  then obtain p1 where "poolRun ?env ?w = Returns ((zeroResult, Some (Wrap ''pool: holder died: '' EOF)), p1)"
    using quiet_run_warm(2) [OF q, of 0 "[]" ?env EOF] by (auto simp: diedErr_def)
  then have w: "warmLoop (\<lambda>_. ?env) 0 (Suc (nat 3)) ?w = Returns (Some (Wrap ''pool: holder died: '' EOF), p1)"
    by (subst warmLoop.simps(2)) simp
  show ?thesis
    using warm_benchmark_ends_closed [of sorted_list_of_set, OF _ new, of "\<lambda>_. ?env" "\<lambda>_. None" 9 3] w by auto
qed

end
